(* ===== verification/Prelude.thy ===== *)
theory Prelude
  imports Main "HOL-Library.Word" "HOL-Library.Signed_Division"
begin

text \<open>
  The vocabulary every component shares: the machine integers of Go, the opaque
  identifiers and instants, the sentinel errors of the packages \<open>domain\<close>, \<open>application\<close> and
  \<open>ports\<close>, the state-and-error computations in which the use cases run, and the
  collections of simplification rules that carry the component proofs.
\<close>

section \<open>Collections of facts\<close>

named_theorems act_simps \<open>evaluation rules of the state-and-error computations\<close>
named_theorems domain_defs \<open>definitions of the domain guards\<close>
named_theorems table_simps \<open>effect of the table operations\<close>

section \<open>Machine integers\<close>

text \<open>
  \<open>int64\<close>, \<open>time.Duration\<close> and the columns of type \<open>BIGINT\<close> are 64-bit words read as two's
  complement; \<open>+\<close>, \<open>-\<close> and \<open>*\<close> wrap around, and the comparisons of the code are the signed
  ones. Division truncates towards zero.
\<close>

type_synonym i64 = "64 word"
type_synonym duration = i64

definition MaxInt64 :: i64 where
  "MaxInt64 = 9223372036854775807"

definition MinInt64 :: i64 where
  "MinInt64 = - 9223372036854775808"

definition quot64 :: "i64 \<Rightarrow> i64 \<Rightarrow> i64" where
  "quot64 a b = word_of_int (sint a sdiv sint b)"

definition rem64 :: "i64 \<Rightarrow> i64 \<Rightarrow> i64" where
  "rem64 a b = word_of_int (sint a smod sint b)"

definition in_i64 :: "int \<Rightarrow> bool" where
  "in_i64 x \<longleftrightarrow> - (2 ^ 63) \<le> x \<and> x < 2 ^ 63"

lemma sint_MaxInt64 [simp]: "sint MaxInt64 = 2 ^ 63 - 1"
  by (simp add: MaxInt64_def)

lemma sint_MinInt64 [simp]: "sint MinInt64 = - (2 ^ 63)"
  by (simp add: MinInt64_def)

lemma sint_in_i64 [simp]: "in_i64 (sint (x :: i64))"
  using sint_ge [of x] sint_lt [of x] by (simp add: in_i64_def)

lemma sint_bounds_i64:
  "- 9223372036854775808 \<le> sint (x :: i64)" "sint (x :: i64) \<le> 9223372036854775807"
  using sint_ge [of x] sint_lt [of x] by simp_all

lemma sint_of_int_i64 [simp]: "in_i64 x \<Longrightarrow> sint (word_of_int x :: i64) = x"
  by (simp add: in_i64_def sint_sbintrunc' signed_take_bit_int_eq_self_iff)

lemma sint_add_i64: "in_i64 (sint a + sint b) \<Longrightarrow> sint (a + b :: i64) = sint a + sint b"
  by (simp add: in_i64_def sint_word_ariths signed_take_bit_int_eq_self_iff)

lemma sint_sub_i64: "in_i64 (sint a - sint b) \<Longrightarrow> sint (a - b :: i64) = sint a - sint b"
  by (simp add: in_i64_def sint_word_ariths signed_take_bit_int_eq_self_iff)

lemma sint_mult_i64: "in_i64 (sint a * sint b) \<Longrightarrow> sint (a * b :: i64) = sint a * sint b"
  by (simp add: in_i64_def sint_word_ariths signed_take_bit_int_eq_self_iff)

lemma sint_neg_i64: "in_i64 (- sint a) \<Longrightarrow> sint (- a :: i64) = - sint a"
  by (simp add: in_i64_def sint_word_ariths signed_take_bit_int_eq_self_iff)

lemmas i64_arith = sint_add_i64 sint_sub_i64 sint_mult_i64 sint_neg_i64

lemma quot64_nonneg: "0 \<le> sint a \<Longrightarrow> 0 < sint b \<Longrightarrow> sint (quot64 a b) = sint a div sint b"
proof -
  assume a: "0 \<le> sint a" and b: "0 < sint b"
  have "0 \<le> sint a div sint b" and "sint a div sint b \<le> sint a"
    using a b div_by_1 [of "sint a"] zdiv_mono2 [of "sint a" 1 "sint b"]
    by (simp_all add: pos_imp_zdiv_nonneg_iff)
  then have "in_i64 (sint a div sint b)"
    using sint_bounds_i64 [of a] by (simp add: in_i64_def)
  moreover have "sint a sdiv sint b = sint a div sint b"
    using a b by (cases "sint a = 0") (simp_all add: signed_divide_int_eq_divide_int)
  ultimately show ?thesis unfolding quot64_def by (metis sint_of_int_i64)
qed

lemma rem64_nonneg: "0 \<le> sint a \<Longrightarrow> 0 < sint b \<Longrightarrow> sint (rem64 a b) = sint a mod sint b"
proof -
  assume a: "0 \<le> sint a" and b: "0 < sint b"
  have "0 \<le> sint a mod sint b" and "sint a mod sint b < sint b"
    using b by simp_all
  then have "in_i64 (sint a mod sint b)"
    using sint_bounds_i64 [of b] by (simp add: in_i64_def)
  moreover have "sint a smod sint b = sint a mod sint b"
    using a b by (cases "sint a = 0") (simp_all add: signed_modulo_int_eq_modulo_int)
  ultimately show ?thesis unfolding rem64_def by (metis sint_of_int_i64)
qed

lemma word_eq_iff_sint: "a = (b :: i64) \<longleftrightarrow> sint a = sint b"
  using signed_word_eqI by blast

lemma sint_eq_0_iff [simp]: "sint (x :: i64) = 0 \<longleftrightarrow> x = 0"
  by (metis signed_word_eqI signed_0)

lemma of_int_in_range_iff: "in_i64 x \<and> word_of_int x = a \<longleftrightarrow> sint (a :: i64) = x"
proof
  assume "in_i64 x \<and> word_of_int x = a"
  then show "sint a = x" using sint_of_int_i64 [of x] by auto
next
  assume "sint a = x"
  then show "in_i64 x \<and> word_of_int x = a" by auto
qed

section \<open>Identifiers and instants\<close>

text \<open>
  A \<open>uuid.UUID\<close> is an array of 16 bytes: a 128-bit word in network order, so that the word
  order is the byte order PostgreSQL sorts by. \<open>uuid.Nil\<close> is the zero value. A \<open>time.Time\<close> is the
  number of nanoseconds since the zero time (year 1, UTC): \<open>IsZero\<close> and \<open>Before\<close> read
  the instant only.
\<close>

type_synonym uuid = "128 word"
type_synonym time = int

definition uuid_Nil :: uuid where
  "uuid_Nil = 0"

definition Time_IsZero :: "time \<Rightarrow> bool" where
  "Time_IsZero t \<longleftrightarrow> t = 0"

definition Time_Before :: "time \<Rightarrow> time \<Rightarrow> bool" where
  "Time_Before t u \<longleftrightarrow> t < u"

section \<open>Errors\<close>

text \<open>
  The sentinel errors of the three packages, by their Go names. \<open>Infra\<close> stands for what the driver,
  the network and the context report. Wrapping with \<open>%w\<close> keeps the sentinel, so a wrapped error
  is the error itself; \<open>Joined a b\<close> is an error that wraps two.
\<close>

datatype infra_error =
    PgError string
  | NetworkError
  | EOF
  | ContextCanceled
  | DeadlineExceeded
  | OtherInfraError

datatype error =
    ErrInvalidMoney | ErrCurrencyMismatch | ErrMoneyOverflow
  | ErrInvalidWallet | ErrInsufficientBalance | ErrWalletCurrency
  | ErrInvalidLedgerDirection | ErrInvalidLedgerEntry | ErrInvalidLedgerBalance
  | ErrInvalidWagerKind | ErrInvalidWagerStatus | ErrInvalidWagerTransaction
  | ErrInvalidWagerMoney | ErrReferenceRequired | ErrTerminalTransaction
  | ErrExternalOpening | ErrInvalidWagerReference | ErrReferenceNotProcessed
  | ErrInvalidEvent
  | ErrProviderNotAuthorized | ErrIdempotencyConflict | ErrWalletIdentityMismatch
  | ErrInvalidMessage | ErrInvalidReferenceRetryPolicy | ErrInvalidOutboxPolicy
  | ErrInvalidLedgerPage
  | ErrWagerNotFound | ErrWagerConflict | ErrWagerNotPending
  | ErrInboxConflict | ErrInboxIncomplete | ErrOutboxConflict | ErrOutboxLeaseLost
  | ErrInvalidFinancialState
  | ErrWalletNotFound | ErrWalletConflict | ErrWalletConcurrentUpdate | ErrTransactionRequired
  | Infra infra_error
  | Joined error error

fun errors_Is :: "error \<Rightarrow> error \<Rightarrow> bool" where
  "errors_Is (Joined a b) t \<longleftrightarrow> Joined a b = t \<or> errors_Is a t \<or> errors_Is b t"
| "errors_Is e t \<longleftrightarrow> e = t"

fun is_infra :: "error \<Rightarrow> bool" where
  "is_infra (Infra _) = True"
| "is_infra _ = False"

lemma is_infra_iff: "is_infra e \<longleftrightarrow> (\<exists>i. e = Infra i)"
  by (cases e) simp_all

lemma errors_Is_Infra [simp]: "errors_Is (Infra i) t \<longleftrightarrow> Infra i = t"
  by simp

section \<open>State-and-error computations\<close>

text \<open>
  A Go function that works on a database transaction and returns \<open>(T, error)\<close> is a function from the
  connection's state to a result and the state it leaves. The state survives an error, as
  the SQL transaction does until it is rolled back. \<open>act_bind\<close> is the pattern
  \<^verbatim>\<open>x, err := m(); if err != nil { return err }\<close>; \<open>act_try\<close> hands the error to the code that
  inspects it.
\<close>

type_synonym ('s, 'a) act = "'s \<Rightarrow> (error + 'a) \<times> 's"

definition act_return :: "'a \<Rightarrow> ('s, 'a) act" where
  "act_return x = (\<lambda>s. (Inr x, s))"

definition act_raise :: "error \<Rightarrow> ('s, 'a) act" where
  "act_raise e = (\<lambda>s. (Inl e, s))"

definition act_bind :: "('s, 'a) act \<Rightarrow> ('a \<Rightarrow> ('s, 'b) act) \<Rightarrow> ('s, 'b) act" where
  "act_bind m f = (\<lambda>s. case m s of (Inl e, s') \<Rightarrow> (Inl e, s') | (Inr x, s') \<Rightarrow> f x s')"

definition act_try :: "('s, 'a) act \<Rightarrow> ('s, error + 'a) act" where
  "act_try m = (\<lambda>s. case m s of (r, s') \<Rightarrow> (Inr r, s'))"

definition act_lift :: "error + 'a \<Rightarrow> ('s, 'a) act" where
  "act_lift r = (\<lambda>s. (r, s))"

definition act_check :: "error option \<Rightarrow> ('s, unit) act" where
  "act_check c = (case c of None \<Rightarrow> act_return () | Some e \<Rightarrow> act_raise e)"

lemma act_return_apply [act_simps]: "act_return x s = (Inr x, s)"
  by (simp add: act_return_def)

lemma act_raise_apply [act_simps]: "act_raise e s = (Inl e, s)"
  by (simp add: act_raise_def)

lemma act_lift_apply [act_simps]: "act_lift r s = (r, s)"
  by (simp add: act_lift_def)

lemma act_try_apply [act_simps]: "act_try m s = (Inr (fst (m s)), snd (m s))"
  by (simp add: act_try_def split: prod.split)

lemma act_check_apply [act_simps]:
  "act_check c s = (case c of None \<Rightarrow> Inr () | Some e \<Rightarrow> Inl e, s)"
  by (simp add: act_check_def act_return_def act_raise_def split: option.split)

lemma act_bind_Inr [act_simps]: "m s = (Inr x, s') \<Longrightarrow> act_bind m f s = f x s'"
  by (simp add: act_bind_def)

lemma act_bind_Inl [act_simps]: "m s = (Inl e, s') \<Longrightarrow> act_bind m f s = (Inl e, s')"
  by (simp add: act_bind_def)

lemma act_bind_return [act_simps]: "act_bind (act_return x) f = f x"
  by (simp add: act_bind_def act_return_def)

lemma act_bind_raise [act_simps]: "act_bind (act_raise e) f = act_raise e"
  by (simp add: act_bind_def act_raise_def)

lemma act_bind_try: "act_bind (act_try m) f s = f (fst (m s)) (snd (m s))"
  by (simp add: act_bind_def act_try_def split: prod.split)

text \<open>Inversion: a computation that succeeds went through each of its parts.\<close>

lemma act_bind_okE:
  assumes "act_bind m f s = (Inr y, s'')"
  obtains x s' where "m s = (Inr x, s')" and "f x s' = (Inr y, s'')"
  using assms by (auto simp: act_bind_def split: prod.splits sum.splits)

lemma act_lift_ok_iff [simp]: "act_lift r s = (Inr x, s') \<longleftrightarrow> r = Inr x \<and> s' = s"
  by (auto simp: act_lift_def)

lemma act_return_ok_iff [simp]: "act_return y s = (Inr x, s') \<longleftrightarrow> y = x \<and> s' = s"
  by (auto simp: act_return_def)

lemma act_raise_ok_iff [simp]: "act_raise e s = (Inr x, s') \<longleftrightarrow> False"
  by (simp add: act_raise_def)

lemma act_check_ok_iff [simp]: "act_check c s = (Inr u, s') \<longleftrightarrow> c = None \<and> s' = s"
  by (auto simp: act_check_def split: option.splits)

lemma act_bind_ok_iff:
  "act_bind m f s = (Inr y, s'') \<longleftrightarrow> (\<exists>x s'. m s = (Inr x, s') \<and> f x s' = (Inr y, s''))"
  by (auto elim: act_bind_okE simp: act_simps)

lemma act_try_ok_iff:
  "act_try m s = (Inr r, s') \<longleftrightarrow> m s = (r, s')"
  by (auto simp: act_try_def split: prod.splits)

section \<open>Simulation up to infrastructure failures\<close>

text \<open>
  \<open>simulates view m n\<close>: on every state, \<open>m\<close> either fails with an infrastructure error and leaves the
  view as it was, or does to the view exactly what \<open>n\<close> does and returns the same result.
  An infrastructure error in mid-computation leaves a view that the rollback discards, so the
  compound computations are compared by \<open>simulates_tx\<close>, which says nothing of that view.
\<close>

definition simulates :: "('s \<Rightarrow> 't) \<Rightarrow> ('s, 'a) act \<Rightarrow> ('t, 'a) act \<Rightarrow> bool" where
  "simulates view m n \<longleftrightarrow>
     (\<forall>s. (\<exists>i. fst (m s) = Inl (Infra i) \<and> view (snd (m s)) = view s)
        \<or> (fst (m s) = fst (n (view s)) \<and> view (snd (m s)) = snd (n (view s))))"

definition simulates_tx :: "('s \<Rightarrow> 't) \<Rightarrow> ('s, 'a) act \<Rightarrow> ('t, 'a) act \<Rightarrow> bool" where
  "simulates_tx view m n \<longleftrightarrow>
     (\<forall>s. (\<exists>i. fst (m s) = Inl (Infra i))
        \<or> (fst (m s) = fst (n (view s)) \<and> view (snd (m s)) = snd (n (view s))))"

named_theorems simulation \<open>structural rules of the simulation\<close>

lemma simulates_imp_tx: "simulates view m n \<Longrightarrow> simulates_tx view m n"
  unfolding simulates_def simulates_tx_def by blast

lemma simulates_tx_return [simulation]: "simulates_tx view (act_return x) (act_return x)"
  by (simp add: simulates_tx_def act_return_def)

lemma simulates_tx_raise [simulation]: "simulates_tx view (act_raise e) (act_raise e)"
  by (simp add: simulates_tx_def act_raise_def)

lemma simulates_tx_lift [simulation]: "simulates_tx view (act_lift r) (act_lift r)"
  by (simp add: simulates_tx_def act_lift_def)

lemma simulates_tx_check [simulation]: "simulates_tx view (act_check c) (act_check c)"
  by (simp add: simulates_tx_def act_check_apply)

lemma simulates_tx_bind [simulation]:
  assumes m: "simulates_tx view m m'" and f: "\<And>x. simulates_tx view (f x) (f' x)"
  shows "simulates_tx view (act_bind m f) (act_bind m' f')"
  unfolding simulates_tx_def
proof
  fix s
  have M: "(\<exists>i. fst (m s) = Inl (Infra i))
      \<or> (fst (m s) = fst (m' (view s)) \<and> view (snd (m s)) = snd (m' (view s)))"
    using m unfolding simulates_tx_def by blast
  show "(\<exists>i. fst (act_bind m f s) = Inl (Infra i)) \<or>
      (fst (act_bind m f s) = fst (act_bind m' f' (view s)) \<and>
       view (snd (act_bind m f s)) = snd (act_bind m' f' (view s)))"
  proof (cases "fst (m s)")
    case (Inl e)
    then show ?thesis using M by (auto simp: act_bind_def split: prod.splits sum.splits)
  next
    case (Inr x)
    obtain s1 where s1: "m s = (Inr x, s1)" using Inr by (cases "m s") simp
    have m1: "m' (view s) = (Inr x, view s1)" using M s1 by (cases "m' (view s)") simp
    show ?thesis using f [of x] by (simp add: s1 m1 act_simps simulates_tx_def)
  qed
qed

text \<open>
  A handler inspects the error of the operation it tried. It must pass an infrastructure error on,
  as every handler of the use cases does.
\<close>

lemma simulates_tx_try [simulation]:
  assumes m: "simulates_tx view m m'"
    and f: "\<And>r. simulates_tx view (f r) (f' r)"
    and pass: "\<And>i s. \<exists>j. fst (f (Inl (Infra i)) s) = Inl (Infra j)"
  shows "simulates_tx view (act_bind (act_try m) f) (act_bind (act_try m') f')"
  unfolding simulates_tx_def
proof
  fix s
  obtain r s1 where ms: "m s = (r, s1)" by force
  have M: "(\<exists>i. r = Inl (Infra i)) \<or> m' (view s) = (r, view s1)"
    using m ms unfolding simulates_tx_def by (metis fst_conv prod.collapse snd_conv)
  have run: "act_bind (act_try m) f s = f r s1"
    by (simp add: act_bind_def act_try_def ms)
  show "(\<exists>i. fst (act_bind (act_try m) f s) = Inl (Infra i)) \<or>
      (fst (act_bind (act_try m) f s) = fst (act_bind (act_try m') f' (view s)) \<and>
       view (snd (act_bind (act_try m) f s)) = snd (act_bind (act_try m') f' (view s)))"
    using M
  proof
    assume "\<exists>i. r = Inl (Infra i)"
    then show ?thesis using pass run by auto
  next
    assume "m' (view s) = (r, view s1)"
    then have "act_bind (act_try m') f' (view s) = f' r (view s1)"
      by (simp add: act_bind_def act_try_def)
    then show ?thesis using f [of r] run unfolding simulates_tx_def by simp
  qed
qed

lemma simulates_tx_if [simulation]:
  assumes "b \<Longrightarrow> simulates_tx view m m'" and "\<not> b \<Longrightarrow> simulates_tx view n n'"
  shows "simulates_tx view (if b then m else n) (if b then m' else n')"
  using assms by simp

lemma simulates_tx_sum [simulation]:
  assumes "\<And>e. x = Inl e \<Longrightarrow> simulates_tx view (f e) (f' e)"
    and "\<And>y. x = Inr y \<Longrightarrow> simulates_tx view (g y) (g' y)"
  shows "simulates_tx view (case x of Inl e \<Rightarrow> f e | Inr y \<Rightarrow> g y)
                           (case x of Inl e \<Rightarrow> f' e | Inr y \<Rightarrow> g' y)"
  using assms by (cases x) simp_all

lemma simulates_tx_option [simulation]:
  assumes "x = None \<Longrightarrow> simulates_tx view m m'"
    and "\<And>y. x = Some y \<Longrightarrow> simulates_tx view (g y) (g' y)"
  shows "simulates_tx view (case x of None \<Rightarrow> m | Some y \<Rightarrow> g y)
                           (case x of None \<Rightarrow> m' | Some y \<Rightarrow> g' y)"
  using assms by (cases x) simp_all

section \<open>Lists of rows\<close>

text \<open>
  A table is the list of its rows in insertion order. An \<open>UPDATE\<close> with a \<open>WHERE\<close> clause changes the rows
  that match and reports how many did.
\<close>

definition update_rows :: "('r \<Rightarrow> bool) \<Rightarrow> ('r \<Rightarrow> 'r) \<Rightarrow> 'r list \<Rightarrow> 'r list" where
  "update_rows p f rs = map (\<lambda>r. if p r then f r else r) rs"

definition rows_affected :: "('r \<Rightarrow> bool) \<Rightarrow> 'r list \<Rightarrow> nat" where
  "rows_affected p rs = length (filter p rs)"

lemma find_append: "find p (xs @ ys) = (case find p xs of None \<Rightarrow> find p ys | Some x \<Rightarrow> Some x)"
  by (induction xs) simp_all

lemma find_map: "find p (map f xs) = map_option f (find (p \<circ> f) xs)"
  by (induction xs) simp_all

lemma find_SomeD: "find p xs = Some x \<Longrightarrow> x \<in> set xs \<and> p x"
  by (auto simp: find_Some_iff in_set_conv_nth)

lemma find_unique:
  assumes "x \<in> set xs" and "p x" and "\<And>y. y \<in> set xs \<Longrightarrow> p y \<Longrightarrow> y = x"
  shows "find p xs = Some x"
proof (cases "find p xs")
  case None
  then show ?thesis using assms(1,2) by (auto simp: find_None_iff)
next
  case (Some y)
  then show ?thesis using assms(3) [of y] find_SomeD [OF Some] by blast
qed

lemma distinct_map_inj:
  "distinct (map f xs) \<Longrightarrow> x \<in> set xs \<Longrightarrow> y \<in> set xs \<Longrightarrow> f x = f y \<Longrightarrow> x = y"
  by (meson distinct_map inj_onD)

lemma find_by_key:
  assumes "distinct (map f xs)" and "x \<in> set xs"
  shows "find (\<lambda>y. f y = f x) xs = Some x"
proof (rule find_unique)
  show "x \<in> set xs" and "f x = f x" using assms(2) by simp_all
next
  fix y
  assume "y \<in> set xs" and "f y = f x"
  then show "y = x" using distinct_map_inj [OF assms(1)] assms(2) by blast
qed

lemma filter_by_key:
  "distinct (map f xs) \<Longrightarrow> x \<in> set xs \<Longrightarrow> filter (\<lambda>y. f y = f x) xs = [x]"
proof (induction xs)
  case (Cons a xs)
  show ?case
  proof (cases "x = a")
    case True
    have "filter (\<lambda>y. f y = f a) xs = []" using Cons.prems by (auto simp: filter_empty_conv image_iff)
    then show ?thesis using True by simp
  next
    case False
    then have "f a \<noteq> f x" using Cons.prems by (auto simp: image_iff)
    then show ?thesis using Cons False by simp
  qed
qed simp

lemma set_update_rows: "set (update_rows p f rs) = f ` {r \<in> set rs. p r} \<union> {r \<in> set rs. \<not> p r}"
  by (auto simp: update_rows_def)

lemma length_update_rows [simp]: "length (update_rows p f rs) = length rs"
  by (simp add: update_rows_def)

lemma update_rows_none: "rows_affected p rs = 0 \<Longrightarrow> update_rows p f rs = rs"
  by (auto simp: rows_affected_def update_rows_def filter_empty_conv intro: map_idI)

lemma map_update_rows:
  "(\<And>r. r \<in> set rs \<Longrightarrow> p r \<Longrightarrow> k (f r) = k r) \<Longrightarrow> map k (update_rows p f rs) = map k rs"
  by (simp add: update_rows_def)

end
