(* ===== verification/GoText.thy ===== *)
theory GoText
  imports Prelude
begin

text \<open>
  What the program uses of Go's \<open>unicode/utf8\<close>, \<open>strings\<close>, \<open>strconv\<close>, \<open>fmt\<close> and \<open>encoding/json\<close>.
  A Go string is a sequence of bytes: a \<open>string\<close> here, one \<open>char\<close> for each byte.
\<close>

section \<open>UTF-8\<close>

definition byte :: "char \<Rightarrow> nat" where
  "byte c = of_char c"

definition byte_in :: "nat \<Rightarrow> nat \<Rightarrow> char \<Rightarrow> bool" where
  "byte_in lo hi c \<longleftrightarrow> lo \<le> byte c \<and> byte c \<le> hi"

text \<open>\<open>continuation n lo hi r\<close>: \<open>r\<close> begins with \<open>n\<close> continuation bytes, the first between \<open>lo\<close> and \<open>hi\<close>.\<close>

fun continuation :: "nat \<Rightarrow> nat \<Rightarrow> nat \<Rightarrow> string \<Rightarrow> bool" where
  "continuation 0 lo hi r = True"
| "continuation (Suc n) lo hi [] = False"
| "continuation (Suc n) lo hi (c # r) = (byte_in lo hi c \<and> continuation n 128 191 r)"

text \<open>The width of the rune at the head of a string, \<open>None\<close> where \<open>utf8.DecodeRune\<close> reports an error.\<close>

definition rune_width :: "string \<Rightarrow> nat option" where
  "rune_width s =
     (case s of
        [] \<Rightarrow> None
      | c # r \<Rightarrow>
          if byte c < 128 then Some 1
          else if byte_in 194 223 c then (if continuation 1 128 191 r then Some 2 else None)
          else if byte c = 224 then (if continuation 2 160 191 r then Some 3 else None)
          else if byte c = 237 then (if continuation 2 128 159 r then Some 3 else None)
          else if byte_in 225 239 c then (if continuation 2 128 191 r then Some 3 else None)
          else if byte c = 240 then (if continuation 3 144 191 r then Some 4 else None)
          else if byte_in 241 243 c then (if continuation 3 128 191 r then Some 4 else None)
          else if byte c = 244 then (if continuation 3 128 143 r then Some 4 else None)
          else None)"

fun utf8_ValidString :: "string \<Rightarrow> bool" where
  "utf8_ValidString [] = True"
| "utf8_ValidString (c # r) =
     (case rune_width (c # r) of None \<Rightarrow> False | Some w \<Rightarrow> utf8_ValidString (drop (w - 1) r))"

fun utf8_RuneCountInString :: "string \<Rightarrow> nat" where
  "utf8_RuneCountInString [] = 0"
| "utf8_RuneCountInString (c # r) =
     (case rune_width (c # r) of
        None \<Rightarrow> Suc (utf8_RuneCountInString r)
      | Some w \<Rightarrow> Suc (utf8_RuneCountInString (drop (w - 1) r)))"

text \<open>\<open>json.Marshal\<close> writes the replacement character for every byte that is not valid UTF-8.\<close>

definition replacement_rune :: string where
  "replacement_rune = [CHR 0xEF, CHR 0xBF, CHR 0xBD]"

fun utf8_coerce :: "string \<Rightarrow> string" where
  "utf8_coerce [] = []"
| "utf8_coerce (c # r) =
     (case rune_width (c # r) of
        None \<Rightarrow> replacement_rune @ utf8_coerce r
      | Some w \<Rightarrow> take w (c # r) @ utf8_coerce (drop (w - 1) r))"

lemma rune_width_pos: "rune_width s = Some w \<Longrightarrow> 0 < w"
  by (auto simp: rune_width_def split: list.splits if_splits)

lemma utf8_coerce_valid [simp]: "utf8_ValidString s \<Longrightarrow> utf8_coerce s = s"
proof (induction s rule: utf8_ValidString.induct)
  case 1
  then show ?case by simp
next
  case (2 c r)
  from 2(2) obtain w where w: "rune_width (c # r) = Some w" "utf8_ValidString (drop (w - 1) r)"
    by (auto split: option.splits)
  then obtain v where "w = Suc v" using rune_width_pos gr0_implies_Suc by blast
  then show ?case using 2(1) [OF w] w by simp
qed

lemma utf8_RuneCount_le_length: "utf8_RuneCountInString s \<le> length s"
proof (induction s rule: utf8_RuneCountInString.induct)
  case (2 c r)
  then show ?case by (auto split: option.split intro: le_trans)
qed simp

section \<open>White space\<close>

text \<open>
  \<open>unicode.IsSpace\<close> on the bytes of one rune, and the test \<open>strings.TrimSpace(s) == ""\<close>, the only use
  the modelled code makes of \<open>TrimSpace\<close>.
\<close>

definition rune_is_space :: "nat list \<Rightarrow> bool" where
  "rune_is_space bs \<longleftrightarrow>
     bs \<in> {[9], [10], [11], [12], [13], [32], [194, 133], [194, 160], [225, 154, 128],
           [226, 128, 168], [226, 128, 169], [226, 128, 175], [226, 129, 159], [227, 128, 128]}
   \<or> bs \<in> {[226, 128, 128], [226, 128, 129], [226, 128, 130], [226, 128, 131], [226, 128, 132],
           [226, 128, 133], [226, 128, 134], [226, 128, 135], [226, 128, 136], [226, 128, 137],
           [226, 128, 138]}"

fun TrimSpace_is_empty :: "string \<Rightarrow> bool" where
  "TrimSpace_is_empty [] = True"
| "TrimSpace_is_empty (c # r) =
     (case rune_width (c # r) of
        None \<Rightarrow> False
      | Some w \<Rightarrow> rune_is_space (map byte (take w (c # r))) \<and> TrimSpace_is_empty (drop (w - 1) r))"

section \<open>Decimal numbers\<close>

datatype num_error = ErrSyntax | ErrRange

definition digit_val :: "char \<Rightarrow> nat option" where
  "digit_val c = (if byte_in 48 57 c then Some (byte c - 48) else None)"

definition is_digit :: "char \<Rightarrow> bool" where
  "is_digit c \<longleftrightarrow> byte_in 48 57 c"

text \<open>\<open>strconv.ParseUint(s, 10, 64)\<close>, with the digits read so far.\<close>

fun parse_uint :: "nat \<Rightarrow> string \<Rightarrow> num_error + nat" where
  "parse_uint n [] = Inr n"
| "parse_uint n (c # cs) =
     (case digit_val c of
        None \<Rightarrow> Inl ErrSyntax
      | Some d \<Rightarrow> if 2 ^ 64 \<le> n * 10 + d then Inl ErrRange else parse_uint (n * 10 + d) cs)"

definition ParseUint :: "string \<Rightarrow> num_error + nat" where
  "ParseUint s = (if s = [] then Inl ErrSyntax else parse_uint 0 s)"

text \<open>\<open>strconv.ParseInt(s, 10, 64)\<close>.\<close>

definition ParseInt :: "string \<Rightarrow> num_error + i64" where
  "ParseInt s =
     (let neg = (take 1 s = ''-'');
          s' = (if neg \<or> take 1 s = ''+'' then drop 1 s else s)
      in case ParseUint s' of
           Inl e \<Rightarrow> Inl e
         | Inr n \<Rightarrow>
             if \<not> neg \<and> 2 ^ 63 \<le> n then Inl ErrRange
             else if neg \<and> 2 ^ 63 < n then Inl ErrRange
             else Inr (if neg then - (of_nat n) else of_nat n))"

definition digit_char :: "nat \<Rightarrow> char" where
  "digit_char d = char_of (48 + d)"

fun show_nat :: "nat \<Rightarrow> string" where
  "show_nat n = (if n < 10 then [digit_char n] else show_nat (n div 10) @ [digit_char (n mod 10)])"

declare show_nat.simps [simp del]

text \<open>\<open>fmt\<close>'s verbs \<open>%d\<close> and \<open>%02d\<close> on an \<open>int64\<close>.\<close>

definition fmt_d :: "i64 \<Rightarrow> string" where
  "fmt_d x = (if sint x < 0 then ''-'' @ show_nat (nat (- sint x)) else show_nat (nat (sint x)))"

definition fmt_02d :: "i64 \<Rightarrow> string" where
  "fmt_02d x = (let s = fmt_d x in if length s < 2 then ''0'' @ s else s)"

fun digits_value :: "nat \<Rightarrow> string \<Rightarrow> nat" where
  "digits_value n [] = n"
| "digits_value n (c # cs) = digits_value (n * 10 + (byte c - 48)) cs"

lemma digits_value_ge: "n \<le> digits_value n s"
proof (induction s arbitrary: n)
  case (Cons c cs)
  have "n \<le> n * 10 + (byte c - 48)" by simp
  then show ?case using Cons.IH [of "n * 10 + (byte c - 48)"] by simp
qed simp

lemma digits_value_append: "digits_value n (s @ t) = digits_value (digits_value n s) t"
  by (induction s arbitrary: n) simp_all

lemma digits_value_shift: "digits_value n s = n * 10 ^ length s + digits_value 0 s"
proof (induction s arbitrary: n)
  case (Cons c cs)
  show ?case
    using Cons.IH [of "n * 10 + (byte c - 48)"] Cons.IH [of "byte c - 48"]
    by (simp add: algebra_simps)
qed simp

lemma parse_uint_digits:
  "list_all is_digit s \<Longrightarrow> n < 2 ^ 64 \<Longrightarrow>
   parse_uint n s = (if digits_value n s < 2 ^ 64 then Inr (digits_value n s) else Inl ErrRange)"
proof (induction s arbitrary: n)
  case Nil
  then show ?case by simp
next
  case (Cons c cs)
  define m where "m = n * 10 + (byte c - 48)"
  have "is_digit c" and cs: "list_all is_digit cs" using Cons.prems(1) by simp_all
  then have d: "digit_val c = Some (byte c - 48)" by (simp add: digit_val_def is_digit_def)
  show ?case
  proof (cases "m < 2 ^ 64")
    case True
    then show ?thesis using Cons.IH [OF cs True] d by (simp add: m_def)
  next
    case False
    then have "\<not> digits_value m cs < 2 ^ 64" using digits_value_ge [of m cs] by simp
    then show ?thesis using False d by (simp add: m_def)
  qed
qed

lemma digit_char_properties [simp]:
  "d < 10 \<Longrightarrow> byte (digit_char d) = 48 + d" "d < 10 \<Longrightarrow> is_digit (digit_char d)"
  by (simp_all add: byte_def digit_char_def is_digit_def byte_in_def)

lemma is_digit_not_sign: "is_digit c \<Longrightarrow> c \<noteq> CHR ''-'' \<and> c \<noteq> CHR ''+'' \<and> c \<noteq> CHR ''.''"
  by (auto simp: is_digit_def byte_in_def byte_def)

lemma show_nat_digits [simp]: "list_all is_digit (show_nat n)"
proof (induction n rule: show_nat.induct)
  case (1 n)
  then show ?case by (subst show_nat.simps) simp
qed

lemma show_nat_nonempty [simp]: "show_nat n \<noteq> []"
  by (subst show_nat.simps) simp

lemma digits_value_show_nat [simp]: "digits_value 0 (show_nat n) = n"
proof (induction n rule: show_nat.induct)
  case (1 n)
  then show ?case by (subst show_nat.simps) (simp add: digits_value_append)
qed

text \<open>A digit string parses to its value when that fits, and fails on the range otherwise.\<close>

lemma ParseInt_digits:
  assumes "s \<noteq> []" and "list_all is_digit s"
  shows "ParseInt s =
    (if digits_value 0 s < 2 ^ 63 then Inr (of_nat (digits_value 0 s)) else Inl ErrRange)"
proof -
  obtain c cs where s: "s = c # cs" using assms(1) by (cases s) simp_all
  have "is_digit c" using assms(2) s by simp
  then have sign: "take 1 s \<noteq> ''-''" "take 1 s \<noteq> ''+''"
    using is_digit_not_sign by (auto simp: s)
  have p: "parse_uint 0 s =
      (if digits_value 0 s < 2 ^ 64 then Inr (digits_value 0 s) else Inl ErrRange)"
    using parse_uint_digits [OF assms(2)] by simp
  show ?thesis
    using sign assms(1) by (simp add: ParseInt_def Let_def ParseUint_def p)
qed

section \<open>JSON strings\<close>

text \<open>
  The string literal \<open>json.Marshal\<close> writes (with HTML escaping on, its default), and the members
  of an object.
\<close>

definition quote_char :: char where
  "quote_char = CHR 0x22"

definition backslash_char :: char where
  "backslash_char = CHR 0x5C"

definition hex_digit :: "nat \<Rightarrow> char" where
  "hex_digit d = (if d < 10 then char_of (48 + d) else char_of (87 + d))"

definition json_escape_byte :: "char \<Rightarrow> string" where
  "json_escape_byte c =
     (if c = quote_char \<or> c = backslash_char then [backslash_char, c]
      else if byte c = 8 then [backslash_char, CHR ''b'']
      else if byte c = 12 then [backslash_char, CHR ''f'']
      else if byte c = 10 then [backslash_char, CHR ''n'']
      else if byte c = 13 then [backslash_char, CHR ''r'']
      else if byte c = 9 then [backslash_char, CHR ''t'']
      else if byte c < 32 \<or> c = CHR ''<'' \<or> c = CHR ''>'' \<or> c = CHR ''&''
        then [backslash_char, CHR ''u'', CHR ''0'', CHR ''0'', hex_digit (byte c div 16), hex_digit (byte c mod 16)]
      else [c])"

fun json_string_body :: "string \<Rightarrow> string" where
  "json_string_body [] = []"
| "json_string_body (c # r) =
     (case rune_width (c # r) of
        None \<Rightarrow> backslash_char # ''ufffd'' @ json_string_body r
      | Some w \<Rightarrow>
          (if w = 1 then json_escape_byte c
           else if map byte (take w (c # r)) = [226, 128, 168] then backslash_char # ''u2028''
           else if map byte (take w (c # r)) = [226, 128, 169] then backslash_char # ''u2029''
           else take w (c # r)) @ json_string_body (drop (w - 1) r))"

definition json_string :: "string \<Rightarrow> string" where
  "json_string s = quote_char # json_string_body s @ [quote_char]"

definition json_member :: "string \<Rightarrow> string \<Rightarrow> string" where
  "json_member name v = json_string name @ '':'' @ v"

fun json_members :: "string list \<Rightarrow> string" where
  "json_members [] = []"
| "json_members [m] = m"
| "json_members (m # ms) = m @ '','' @ json_members ms"

definition json_object :: "string list \<Rightarrow> string" where
  "json_object ms = ''{'' @ json_members ms @ ''}''"

end
