(* ===== verification/GoJson.thy ===== *)
theory GoJson
  imports GoText
begin

text \<open>
  What the program uses of the decoder of \<open>encoding/json\<close>: the scanner, one byte at a time with its stack of open
  arrays and objects, the unquoting of strings, and the storing of a value into strings, pointers and
  structs. A string and a key are kept as the bytes between their quotes, because \<open>time.Time\<close> reads those.
\<close>

datatype json =
    JNull
  | JBool bool
  | JNumber string
  | JString string
  | JArray "json list"
  | JObject "(string \<times> json) list"

section \<open>The scanner\<close>

text \<open>The values of the open arrays and objects, the last first; an open object holds the key read last.\<close>

datatype frame =
    InArray "json list"
  | InObject "(string \<times> json) list" string

datatype number_state = NumNeg | NumZero | NumInt | NumDot | NumFrac | NumE | NumESign | NumExp

datatype mode =
    BeginValue
  | BeginValueOrEmpty
  | BeginString
  | BeginStringOrEmpty
  | EndKey
  | EndValue
  | InString bool string
  | InEscape bool string
  | InHex bool nat string
  | InLiteral string json
  | InNumber number_state string

datatype step =
    Fail
  | Continue mode "frame list"
  | Finished json
  | FinishedBefore json

definition json_space :: "char \<Rightarrow> bool" where
  "json_space c \<longleftrightarrow> byte c \<in> {9, 10, 13, 32}"

definition is_hex :: "char \<Rightarrow> bool" where
  "is_hex c \<longleftrightarrow> byte_in 48 57 c \<or> byte_in 65 70 c \<or> byte_in 97 102 c"

definition max_nesting :: nat where
  "max_nesting = 10000"

text \<open>A value is complete: it belongs to the innermost open frame.\<close>

fun complete :: "json \<Rightarrow> frame list \<Rightarrow> step" where
  "complete v [] = Finished v"
| "complete v (InArray vs # st) = Continue EndValue (InArray (v # vs) # st)"
| "complete v (InObject ms k # st) = Continue EndValue (InObject ((k, v) # ms) [] # st)"

definition push :: "mode \<Rightarrow> frame \<Rightarrow> frame list \<Rightarrow> step" where
  "push m f st = (if length st < max_nesting then Continue m (f # st) else Fail)"

definition begin_value :: "char \<Rightarrow> frame list \<Rightarrow> step" where
  "begin_value c st =
     (if json_space c then Continue BeginValue st
      else if c = CHR ''{'' then push BeginStringOrEmpty (InObject [] []) st
      else if c = CHR ''['' then push BeginValueOrEmpty (InArray []) st
      else if c = quote_char then Continue (InString False []) st
      else if c = CHR ''-'' then Continue (InNumber NumNeg [c]) st
      else if c = CHR ''0'' then Continue (InNumber NumZero [c]) st
      else if c = CHR ''t'' then Continue (InLiteral ''rue'' (JBool True)) st
      else if c = CHR ''f'' then Continue (InLiteral ''alse'' (JBool False)) st
      else if c = CHR ''n'' then Continue (InLiteral ''ull'' JNull) st
      else if is_digit c then Continue (InNumber NumInt [c]) st
      else Fail)"

definition end_value :: "char \<Rightarrow> frame list \<Rightarrow> step" where
  "end_value c st =
     (if json_space c then Continue EndValue st
      else (case st of
              [] \<Rightarrow> Fail
            | InArray vs # st' \<Rightarrow>
                if c = CHR '','' then Continue BeginValue st
                else if c = CHR '']'' then complete (JArray (rev vs)) st' else Fail
            | InObject ms k # st' \<Rightarrow>
                if c = CHR '','' then Continue BeginString st
                else if c = CHR ''}'' then complete (JObject (rev ms)) st' else Fail))"

definition end_string :: "bool \<Rightarrow> string \<Rightarrow> frame list \<Rightarrow> step" where
  "end_string key acc st =
     (if key then (case st of InObject ms k # st' \<Rightarrow> Continue EndKey (InObject ms (rev acc) # st') | _ \<Rightarrow> Fail)
      else complete (JString (rev acc)) st)"

text \<open>What a number does with one more byte: it goes on, or it is over.\<close>

fun number_step :: "number_state \<Rightarrow> char \<Rightarrow> number_state option" where
  "number_step NumNeg c = (if c = CHR ''0'' then Some NumZero else if is_digit c then Some NumInt else None)"
| "number_step NumZero c =
     (if c = CHR ''.'' then Some NumDot else if c = CHR ''e'' \<or> c = CHR ''E'' then Some NumE else None)"
| "number_step NumInt c =
     (if is_digit c then Some NumInt else if c = CHR ''.'' then Some NumDot
      else if c = CHR ''e'' \<or> c = CHR ''E'' then Some NumE else None)"
| "number_step NumDot c = (if is_digit c then Some NumFrac else None)"
| "number_step NumFrac c =
     (if is_digit c then Some NumFrac else if c = CHR ''e'' \<or> c = CHR ''E'' then Some NumE else None)"
| "number_step NumE c =
     (if c = CHR ''+'' \<or> c = CHR ''-'' then Some NumESign else if is_digit c then Some NumExp else None)"
| "number_step NumESign c = (if is_digit c then Some NumExp else None)"
| "number_step NumExp c = (if is_digit c then Some NumExp else None)"

definition number_complete :: "number_state \<Rightarrow> bool" where
  "number_complete n \<longleftrightarrow> n \<in> {NumZero, NumInt, NumFrac, NumExp}"

fun scan_step :: "mode \<Rightarrow> frame list \<Rightarrow> char \<Rightarrow> step" where
  "scan_step BeginValue st c = begin_value c st"
| "scan_step BeginValueOrEmpty st c =
     (if json_space c then Continue BeginValueOrEmpty st
      else if c = CHR '']'' then end_value c st else begin_value c st)"
| "scan_step BeginString st c =
     (if json_space c then Continue BeginString st
      else if c = quote_char then Continue (InString True []) st else Fail)"
| "scan_step BeginStringOrEmpty st c =
     (if json_space c then Continue BeginStringOrEmpty st
      else if c = CHR ''}'' then end_value c st
      else if c = quote_char then Continue (InString True []) st else Fail)"
| "scan_step EndKey st c =
     (if json_space c then Continue EndKey st
      else if c = CHR '':'' then Continue BeginValue st else Fail)"
| "scan_step EndValue st c = end_value c st"
| "scan_step (InString key acc) st c =
     (if c = quote_char then end_string key acc st
      else if c = backslash_char then Continue (InEscape key (c # acc)) st
      else if byte c < 32 then Fail
      else Continue (InString key (c # acc)) st)"
| "scan_step (InEscape key acc) st c =
     (if c \<in> set ''bfnrt/'' \<or> c = quote_char \<or> c = backslash_char then Continue (InString key (c # acc)) st
      else if c = CHR ''u'' then Continue (InHex key 4 (c # acc)) st
      else Fail)"
| "scan_step (InHex key n acc) st c =
     (if \<not> is_hex c then Fail
      else if n \<le> 1 then Continue (InString key (c # acc)) st
      else Continue (InHex key (n - 1) (c # acc)) st)"
| "scan_step (InLiteral rest v) st c =
     (case rest of
        [] \<Rightarrow> Fail
      | x # xs \<Rightarrow> if c \<noteq> x then Fail else if xs = [] then complete v st else Continue (InLiteral xs v) st)"
| "scan_step (InNumber n acc) st c =
     (case number_step n c of
        Some n' \<Rightarrow> Continue (InNumber n' (c # acc)) st
      | None \<Rightarrow>
          if \<not> number_complete n then Fail
          else (case complete (JNumber (rev acc)) st of
                  Continue m st' \<Rightarrow> end_value c st'
                | Finished v \<Rightarrow> FinishedBefore v
                | s \<Rightarrow> s))"

text \<open>The value and what follows it; at the end of the input only a number can still be complete.\<close>

fun scan :: "mode \<Rightarrow> frame list \<Rightarrow> string \<Rightarrow> (json \<times> string) option" where
  "scan m st [] =
     (case m of
        InNumber n acc \<Rightarrow> if st = [] \<and> number_complete n then Some (JNumber (rev acc), []) else None
      | _ \<Rightarrow> None)"
| "scan m st (c # cs) =
     (case scan_step m st c of
        Fail \<Rightarrow> None
      | Continue m' st' \<Rightarrow> scan m' st' cs
      | Finished v \<Rightarrow> Some (v, cs)
      | FinishedBefore v \<Rightarrow> Some (v, c # cs))"

text \<open>
  \<open>Decoder.Decode\<close> reads the next value; at the end of the input, white space aside, it answers \<open>io.EOF\<close>.
  \<open>json.Unmarshal\<close> wants one value and nothing else.
\<close>

definition at_EOF :: "string \<Rightarrow> bool" where
  "at_EOF s \<longleftrightarrow> list_all json_space s"

definition decode_value :: "string \<Rightarrow> (json \<times> string) option" where
  "decode_value s = scan BeginValue [] s"

definition unmarshal_value :: "string \<Rightarrow> json option" where
  "unmarshal_value s =
     (case decode_value s of None \<Rightarrow> None | Some (v, rest) \<Rightarrow> if at_EOF rest then Some v else None)"

section \<open>Strings\<close>

definition hex_value :: "char \<Rightarrow> nat" where
  "hex_value c = (if byte_in 48 57 c then byte c - 48 else if byte_in 65 70 c then byte c - 55 else byte c - 87)"

fun utf16_value :: "string \<Rightarrow> nat" where
  "utf16_value [] = 0"
| "utf16_value (c # cs) = hex_value c * 16 ^ length cs + utf16_value cs"

text \<open>\<open>utf8.EncodeRune\<close>.\<close>

definition utf8_encode :: "nat \<Rightarrow> string" where
  "utf8_encode n =
     (if n < 128 then [char_of n]
      else if n < 2048 then [char_of (192 + n div 64), char_of (128 + n mod 64)]
      else if 55296 \<le> n \<and> n \<le> 57343 \<or> 1114111 < n then replacement_rune
      else if n < 65536 then [char_of (224 + n div 4096), char_of (128 + n div 64 mod 64), char_of (128 + n mod 64)]
      else [char_of (240 + n div 262144), char_of (128 + n div 4096 mod 64), char_of (128 + n div 64 mod 64),
            char_of (128 + n mod 64)])"

definition is_surrogate :: "nat \<Rightarrow> bool" where
  "is_surrogate n \<longleftrightarrow> 55296 \<le> n \<and> n \<le> 57343"

text \<open>The unit that a low surrogate escape at the head of \<open>s\<close> completes.\<close>

definition surrogate_pair :: "nat \<Rightarrow> string \<Rightarrow> nat option" where
  "surrogate_pair hi s =
     (if take 2 s = [backslash_char, CHR ''u''] \<and> length s \<ge> 6 then
        let lo = utf16_value (take 4 (drop 2 s))
        in if hi \<le> 56319 \<and> 56320 \<le> lo \<and> lo \<le> 57343 then Some ((hi - 55296) * 1024 + (lo - 56320) + 65536) else None
      else None)"

definition unescape_byte :: "char \<Rightarrow> char" where
  "unescape_byte c =
     (if c = CHR ''b'' then char_of (8 :: nat) else if c = CHR ''f'' then char_of (12 :: nat)
      else if c = CHR ''n'' then char_of (10 :: nat) else if c = CHR ''r'' then char_of (13 :: nat)
      else if c = CHR ''t'' then char_of (9 :: nat) else c)"

text \<open>The string that scanned bytes denote; \<open>skip\<close> is what remains of an escape read ahead.\<close>

fun json_unquote :: "nat \<Rightarrow> string \<Rightarrow> string" where
  "json_unquote skip [] = []"
| "json_unquote (Suc skip) (c # cs) = json_unquote skip cs"
| "json_unquote 0 (c # cs) =
     (if c = backslash_char then
        (case cs of
           [] \<Rightarrow> []
         | e # es \<Rightarrow>
             if e \<noteq> CHR ''u'' then unescape_byte e # json_unquote 1 cs
             else
               let n = utf16_value (take 4 es)
               in if is_surrogate n then
                    (case surrogate_pair n (drop 4 es) of
                       Some u \<Rightarrow> utf8_encode u @ json_unquote 11 cs
                     | None \<Rightarrow> replacement_rune @ json_unquote 5 cs)
                  else utf8_encode n @ json_unquote 5 cs)
      else
        (case rune_width (c # cs) of
           None \<Rightarrow> replacement_rune @ json_unquote 0 cs
         | Some w \<Rightarrow> take w (c # cs) @ json_unquote (w - 1) cs))"

definition unquote :: "string \<Rightarrow> string" where
  "unquote raw = json_unquote 0 raw"

section \<open>Storing a value\<close>

text \<open>
  A decoder takes the value stored so far, because \<open>null\<close> leaves most of them as they are and a key may come
  twice. \<open>None\<close> is an error.
\<close>

definition store_string :: "json \<Rightarrow> string \<Rightarrow> string option" where
  "store_string v old =
     (case v of JString raw \<Rightarrow> Some (unquote raw) | JNull \<Rightarrow> Some old | _ \<Rightarrow> None)"

definition store_string_pointer :: "json \<Rightarrow> string option \<Rightarrow> string option option" where
  "store_string_pointer v old =
     (case v of JString raw \<Rightarrow> Some (Some (unquote raw)) | JNull \<Rightarrow> Some None | _ \<Rightarrow> None)"

text \<open>A type with \<open>UnmarshalText\<close>, given as what it makes of a text.\<close>

definition store_text :: "(string \<Rightarrow> 'a option) \<Rightarrow> json \<Rightarrow> 'a \<Rightarrow> 'a option" where
  "store_text parse v old =
     (case v of JString raw \<Rightarrow> parse (unquote raw) | JNull \<Rightarrow> Some old | _ \<Rightarrow> None)"

text \<open>
  The field of a key: the one of that name, or else of that name with the letters folded. Beyond ASCII only the
  long s and the Kelvin sign fold to a letter of a field name.
\<close>

fun fold_name :: "string \<Rightarrow> string" where
  "fold_name [] = []"
| "fold_name (c # cs) =
     (if byte_in 97 122 c then char_of (byte c - 32) # fold_name cs
      else if map byte (take 2 (c # cs)) = [197, 191] then CHR ''S'' # fold_name (drop 1 cs)
      else if map byte (take 3 (c # cs)) = [226, 132, 170] then CHR ''K'' # fold_name (drop 2 cs)
      else c # fold_name cs)"

definition field_of :: "(string \<times> 'f) list \<Rightarrow> string \<Rightarrow> 'f option" where
  "field_of fields key =
     (case map_of fields key of
        Some f \<Rightarrow> Some f
      | None \<Rightarrow> map_option snd (find (\<lambda>(name, f). fold_name name = fold_name key) fields))"

fun store_members ::
  "bool \<Rightarrow> (string \<times> (json \<Rightarrow> 'r \<Rightarrow> 'r option)) list \<Rightarrow> (string \<times> json) list \<Rightarrow> 'r \<Rightarrow> 'r option" where
  "store_members known_only fields [] r = Some r"
| "store_members known_only fields ((k, v) # ms) r =
     (case field_of fields (unquote k) of
        None \<Rightarrow> if known_only then None else store_members known_only fields ms r
      | Some store \<Rightarrow>
          (case store v r of None \<Rightarrow> None | Some r' \<Rightarrow> store_members known_only fields ms r'))"

text \<open>\<open>known_only\<close> is \<open>DisallowUnknownFields\<close>.\<close>

definition store_struct ::
  "bool \<Rightarrow> (string \<times> (json \<Rightarrow> 'r \<Rightarrow> 'r option)) list \<Rightarrow> json \<Rightarrow> 'r \<Rightarrow> 'r option" where
  "store_struct known_only fields v r =
     (case v of JObject ms \<Rightarrow> store_members known_only fields ms r | JNull \<Rightarrow> Some r | _ \<Rightarrow> None)"

section \<open>Reading what was written\<close>

text \<open>Bytes that the scanner, the writer and the reader of a string leave as they are.\<close>

definition plain_char :: "char \<Rightarrow> bool" where
  "plain_char c \<longleftrightarrow>
     32 \<le> byte c \<and> byte c < 128 \<and> c \<noteq> quote_char \<and> c \<noteq> backslash_char \<and> c \<notin> set ''<>&''"

abbreviation plain :: "string \<Rightarrow> bool" where
  "plain \<equiv> list_all plain_char"

lemma rune_width_ascii: "byte c < 128 \<Longrightarrow> rune_width (c # r) = Some 1"
  by (simp add: rune_width_def)

lemma json_string_plain: "plain s \<Longrightarrow> json_string s = quote_char # s @ [quote_char]"
proof -
  assume "plain s"
  then have "json_string_body s = s"
    by (induction s) (auto simp: plain_char_def rune_width_ascii json_escape_byte_def)
  then show ?thesis by (simp add: json_string_def)
qed

lemma unquote_plain: "plain s \<Longrightarrow> unquote s = s"
  unfolding unquote_def by (induction s) (simp_all add: plain_char_def rune_width_ascii)

text \<open>The scanner after a step.\<close>

definition resume :: "step \<Rightarrow> string \<Rightarrow> (json \<times> string) option" where
  "resume s r =
     (case s of
        Fail \<Rightarrow> None | Continue m st \<Rightarrow> scan m st r | Finished v \<Rightarrow> Some (v, r) | FinishedBefore v \<Rightarrow> None)"

lemma resume_simps [simp]:
  "resume (Continue m st) r = scan m st r" "resume (Finished v) r = Some (v, r)"
  by (simp_all add: resume_def)

lemma complete_not_before [simp]: "complete v st \<noteq> FinishedBefore u"
  by (cases "(v, st)" rule: complete.cases) simp_all

lemma scan_plain:
  assumes "plain s"
  shows "scan (InString key acc) st (s @ quote_char # r) = resume (end_string key (rev s @ acc) st) r"
  using assms
proof (induction s arbitrary: acc)
  case Nil
  have "end_string key acc st \<noteq> FinishedBefore v" for v
    by (auto simp: end_string_def split: list.split frame.split)
  then show ?case by (auto simp: resume_def split: step.split)
qed (simp add: plain_char_def)

text \<open>A text that the scanner takes for one string.\<close>

definition scannable :: "string \<Rightarrow> bool" where
  "scannable s \<longleftrightarrow>
     (\<forall>key acc st r. scan (InString key acc) st (s @ quote_char # r) = resume (end_string key (rev s @ acc) st) r)"

lemma plain_scannable: "plain s \<Longrightarrow> scannable s"
  by (simp add: scannable_def scan_plain)

text \<open>The objects of strings and objects, to a depth, and their text.\<close>

fun text_json :: "nat \<Rightarrow> json \<Rightarrow> bool" where
  "text_json d (JString s) = scannable s"
| "text_json (Suc d) (JObject ms) = (ms \<noteq> [] \<and> list_all (\<lambda>(k, v). plain k \<and> text_json d v) ms)"
| "text_json d v = False"

fun json_text :: "nat \<Rightarrow> json \<Rightarrow> string" where
  "json_text d (JString s) = quote_char # s @ [quote_char]"
| "json_text (Suc d) (JObject ms) = json_object (map (\<lambda>(k, v). json_member k (json_text d v)) ms)"
| "json_text d v = []"

lemma structure_chars:
  "\<not> json_space quote_char" "\<not> json_space (CHR '':'')" "\<not> json_space (CHR '','')" "\<not> json_space (CHR ''{'')"
  "\<not> json_space (CHR ''}'')" "quote_char \<noteq> CHR ''}''" "quote_char \<noteq> CHR ''{''" "quote_char \<noteq> CHR ''[''"
  by (simp_all add: json_space_def byte_def quote_char_def)

lemma scan_key:
  assumes "plain k"
  shows "scan BeginString (InObject ms [] # st) (json_member k v @ r) = scan BeginValue (InObject ms k # st) (v @ r)"
  using assms structure_chars by (simp add: json_member_def json_string_plain scan_plain end_string_def)

lemma scan_text:
  assumes "text_json d v" and "length st + d \<le> max_nesting"
  shows "scan BeginValue st (json_text d v @ r) = resume (complete v st) r"
  using assms
proof (induction d arbitrary: v st r)
  case 0
  then obtain s where s: "v = JString s" "scannable s" by (cases v) simp_all
  then show ?case using structure_chars by (simp add: begin_value_def scannable_def end_string_def)
next
  case (Suc d)
  show ?case
  proof (cases "\<exists>s. v = JString s")
    case True
    then show ?thesis using Suc.prems structure_chars by (auto simp: begin_value_def scannable_def end_string_def)
  next
    case False
    then obtain ms where v: "v = JObject ms" "ms \<noteq> []" and ms: "list_all (\<lambda>(k, v). plain k \<and> text_json d v) ms"
      using Suc.prems(1) by (cases v) auto
    let ?text = "\<lambda>(k, v). json_member k (json_text d v)"
    have member: "scan BeginValue (InObject acc k # st) (json_text d u @ q) = scan EndValue (InObject ((k, u) # acc) [] # st) q"
      if "text_json d u" for acc k u q
      using Suc.IH [OF that, of "InObject acc k # st" q] Suc.prems(2) by simp
    have members: "scan BeginString (InObject acc [] # st) (json_members (map ?text ns) @ CHR ''}'' # r) =
        resume (complete (JObject (rev acc @ ns)) st) r"
      if "ns \<noteq> []" "list_all (\<lambda>(k, v). plain k \<and> text_json d v) ns" for ns acc
      using that
    proof (induction ns arbitrary: acc)
      case (Cons n ns)
      obtain k u where n: "n = (k, u)" by force
      show ?case
      proof (cases ns)
        case Nil
        then show ?thesis
          using Cons.prems(2) structure_chars
          by (auto simp: n scan_key member end_value_def resume_def split: step.split)
      next
        case (Cons m ms')
        have "scan BeginString (InObject acc [] # st) (json_members (map ?text (n # ns)) @ CHR ''}'' # r) =
            scan BeginString (InObject ((k, u) # acc) [] # st) (json_members (map ?text ns) @ CHR ''}'' # r)"
          using \<open>list_all _ (n # ns)\<close> structure_chars by (simp add: n Cons scan_key member end_value_def)
        then show ?thesis
          using Cons.IH [of "(k, u) # acc"] \<open>list_all _ (n # ns)\<close> Cons by (simp add: n)
      qed
    qed simp
    have "scan BeginStringOrEmpty (InObject [] [] # st) (json_members (map ?text ms) @ CHR ''}'' # r) =
        scan BeginString (InObject [] [] # st) (json_members (map ?text ms) @ CHR ''}'' # r)"
    proof -
      obtain k u ns where n: "ms = (k, u) # ns" using v(2) by (cases ms) auto
      have "plain k" using ms n by simp
      then obtain q where "json_members (map ?text ms) @ CHR ''}'' # r = quote_char # q"
        by (cases ns) (simp_all add: n json_member_def json_string_plain)
      then show ?thesis using structure_chars by simp
    qed
    then show ?thesis
      using members [OF v(2) ms, of "[]"] Suc.prems(2) structure_chars
      by (simp add: v(1) json_object_def begin_value_def push_def)
  qed
qed

lemma decode_text:
  assumes "text_json d v" and "d \<le> max_nesting"
  shows "decode_value (json_text d v @ r) = Some (v, r)"
  using scan_text [OF assms(1), of "[]" r] assms(2) by (simp add: decode_value_def)

section \<open>Escaped strings\<close>

text \<open>Whatever the string, what \<open>json.Marshal\<close> writes of it is scanned as one string.\<close>

lemma scannable_Nil: "scannable []"
  by (rule plain_scannable) simp

lemma scannable_append: 
  assumes "\<And>key acc st r. scan (InString key acc) st (s @ r) = scan (InString key (rev s @ acc)) st r" and "scannable t"
  shows "scannable (s @ t)"
  using assms by (simp add: scannable_def)

lemma byte_constants [simp]: "byte quote_char = 34" "byte backslash_char = 92"
  by (simp_all add: byte_def quote_char_def backslash_char_def)

lemma scan_raw:
  "\<forall>c \<in> set s. 32 \<le> byte c \<and> c \<noteq> quote_char \<and> c \<noteq> backslash_char \<Longrightarrow>
   scan (InString key acc) st (s @ r) = scan (InString key (rev s @ acc)) st r"
  by (induction s arbitrary: acc) simp_all

lemma scan_unicode:
  "is_hex a \<Longrightarrow> is_hex b \<Longrightarrow> is_hex c \<Longrightarrow> is_hex d \<Longrightarrow>
   scan (InString key acc) st (backslash_char # CHR ''u'' # a # b # c # d # r) =
   scan (InString key (rev (backslash_char # ''u'' @ [a, b, c, d]) @ acc)) st r"
  by (simp add: quote_char_def backslash_char_def)

lemma is_hex_digit: "d < 16 \<Longrightarrow> is_hex (hex_digit d)"
  by (auto simp: is_hex_def hex_digit_def byte_in_def byte_def)

lemma scan_escaped:
  "scan (InString key acc) st (json_escape_byte c @ r) = scan (InString key (rev (json_escape_byte c) @ acc)) st r"
proof -
  have h: "is_hex (CHR ''0'')" by (simp add: is_hex_def byte_in_def byte_def)
  have "byte c < 256" by (simp add: byte_def)
  then have d: "is_hex (hex_digit (byte c div 16))" "is_hex (hex_digit (byte c mod 16))"
    by (intro is_hex_digit; simp add: less_mult_imp_div_less)+
  show ?thesis
    unfolding json_escape_byte_def
    using scan_unicode [OF h h d] scan_raw [of "[c]" key acc st r]
    by (auto simp: quote_char_def backslash_char_def)
qed

lemma continuation_bytes:
  assumes "continuation n lo hi r" and "128 \<le> lo"
  shows "\<forall>c \<in> set (take n r). 128 \<le> byte c"
  using assms by (induction n lo hi r rule: continuation.induct) (auto simp: byte_in_def)

lemma rune_bytes:
  assumes "rune_width (c # r) = Some w" and "w \<noteq> 1"
  shows "\<forall>b \<in> set (take w (c # r)). 128 \<le> byte b"
  using assms continuation_bytes
  by (auto simp: rune_width_def byte_in_def take_Cons' split: if_splits)

lemma scannable_body: "scannable (json_string_body s)"
proof (induction s rule: json_string_body.induct)
  case 1
  then show ?case by (simp add: scannable_Nil)
next
  case (2 c r)
  have hex: "is_hex (CHR ''f'')" "is_hex (CHR ''d'')" "is_hex (CHR ''2'')" "is_hex (CHR ''0'')" "is_hex (CHR ''8'')" "is_hex (CHR ''9'')"
    by (simp_all add: is_hex_def byte_in_def byte_def)
  show ?case
  proof (cases "rune_width (c # r)")
    case None
    show ?thesis
      using scannable_append [of "backslash_char # ''ufffd''" "json_string_body r"] scan_unicode hex 2(1) [OF None]
      by (simp add: None)
  next
    case (Some w)
    show ?thesis
    proof (cases "w = 1")
      case True
      then show ?thesis using scannable_append [OF scan_escaped] 2(2) [OF Some] by (simp add: Some)
    next
      case False
      have raw: "\<forall>b \<in> set (take w (c # r)). 32 \<le> byte b \<and> b \<noteq> quote_char \<and> b \<noteq> backslash_char"
        using rune_bytes [OF Some False] by force
      have u: "scannable (backslash_char # ''u2028'' @ t)" "scannable (backslash_char # ''u2029'' @ t)" if "scannable t" for t
        using scannable_append [of "backslash_char # ''u2028''" t] scannable_append [of "backslash_char # ''u2029''" t]
          scan_unicode hex that by simp_all
      have "w \<noteq> Suc 0" using False by simp
      then show ?thesis
        using scannable_append [OF scan_raw [OF raw]] u 2(2) [OF Some] by (simp add: Some del: take_Suc_Cons)
    qed
  qed
qed

text \<open>And it is read back, when the string was valid UTF-8.\<close>

lemma json_unquote_skip: "length s = n \<Longrightarrow> json_unquote n (s @ r) = json_unquote 0 r"
  by (induction s arbitrary: n) auto

lemma unquote_simple_escape:
  "e \<noteq> CHR ''u'' \<Longrightarrow> json_unquote 0 (backslash_char # e # r) = unescape_byte e # json_unquote 0 r"
  by simp

lemma unquote_unicode_escape:
  assumes "\<not> is_surrogate (utf16_value [a, b, c, d])"
  shows "json_unquote 0 (backslash_char # CHR ''u'' # a # b # c # d # r) = utf8_encode (utf16_value [a, b, c, d]) @ json_unquote 0 r"
  using assms json_unquote_skip [of "[CHR ''u'', a, b, c, d]" 5 r] by simp

lemma hex_value_digit: "d < 16 \<Longrightarrow> hex_value (hex_digit d) = d"
  by (auto simp: hex_value_def hex_digit_def byte_in_def byte_def)

lemma unquote_short_escape:
  "c \<in> {quote_char, backslash_char} \<or> byte c \<in> {8, 9, 10, 12, 13} \<Longrightarrow>
    json_unquote 0 (json_escape_byte c @ r) = c # json_unquote 0 r"
  by (auto simp: json_escape_byte_def unescape_byte_def quote_char_def backslash_char_def byte_def char_of_eq_iff)

lemma unquote_hex_escape:
  assumes "byte c < 128"
  shows "json_unquote 0 (backslash_char # CHR ''u'' # CHR ''0'' # CHR ''0'' # hex_digit (byte c div 16) # hex_digit (byte c mod 16) # r) =
    c # json_unquote 0 r"
proof -
  have v: "utf16_value [CHR ''0'', CHR ''0'', hex_digit (byte c div 16), hex_digit (byte c mod 16)] = byte c"
    using assms by (simp add: hex_value_digit hex_value_def [of "CHR ''0''"] byte_in_def byte_def [of "CHR ''0''"])
  have "utf8_encode (byte c) = [c]" using assms by (simp add: utf8_encode_def byte_def)
  moreover have "\<not> is_surrogate (byte c)" using assms by (simp add: is_surrogate_def)
  ultimately show ?thesis
    using unquote_unicode_escape [of "CHR ''0''" "CHR ''0''" "hex_digit (byte c div 16)" "hex_digit (byte c mod 16)" r]
    by (simp only: v simp_thms append_Cons append_Nil)
qed

lemma escape_byte_cases:
  obtains (short) "c \<in> {quote_char, backslash_char} \<or> byte c \<in> {8, 9, 10, 12, 13}"
  | (hex) "json_escape_byte c = [backslash_char, CHR ''u'', CHR ''0'', CHR ''0'', hex_digit (byte c div 16), hex_digit (byte c mod 16)]"
  | (raw) "c \<noteq> backslash_char" "json_escape_byte c = [c]"
proof (cases "c \<in> {quote_char, backslash_char} \<or> byte c \<in> {8, 9, 10, 12, 13}")
  case False
  then show ?thesis
    using hex raw by (cases "byte c < 32 \<or> c = CHR ''<'' \<or> c = CHR ''>'' \<or> c = CHR ''&''") (simp_all add: json_escape_byte_def)
qed (use short in blast)

lemma unquote_escaped:
  assumes "byte c < 128"
  shows "json_unquote 0 (json_escape_byte c @ r) = c # json_unquote 0 r"
proof (cases c rule: escape_byte_cases)
  case short
  then show ?thesis by (rule unquote_short_escape)
next
  case hex
  show ?thesis by (simp only: hex append_Cons append_Nil unquote_hex_escape [OF assms])
next
  case raw
  then show ?thesis using assms by (simp add: rune_width_ascii)
qed

lemma continuation_take:
  "continuation n lo hi r \<Longrightarrow> continuation n lo hi (take n r @ q) \<and> n \<le> length r"
  by (induction n lo hi r rule: continuation.induct) auto

text \<open>The width of a rune depends on its own bytes only.\<close>

lemma rune_width_if:
  assumes "rune_width (c # r) = Some w"
    and "\<And>x. rune_width (c # x) = (if continuation (n - 1) lo hi x then Some n else None)"
  shows "\<exists>lo hi. continuation (w - 1) lo hi r \<and>
    (\<forall>r'. continuation (w - 1) lo hi r' \<longrightarrow> rune_width (c # r') = Some w)"
  using assms by (intro exI [of _ lo] exI [of _ hi]) (auto split: if_splits)

lemma rune_width_continuation:
  assumes "rune_width (c # r) = Some w"
  shows "\<exists>lo hi. continuation (w - 1) lo hi r \<and>
    (\<forall>r'. continuation (w - 1) lo hi r' \<longrightarrow> rune_width (c # r') = Some w)"
proof -
  consider "byte c < 128" | "byte_in 194 223 c" | "byte c = 224" | "byte c = 237" | "byte_in 225 239 c" "byte c \<noteq> 237"
    | "byte c = 240" | "byte_in 241 243 c" | "byte c = 244"
    | "\<And>x. rune_width (c # x) = None"
    by (force simp: rune_width_def)
  then show ?thesis
  proof cases
    case 1
    then show ?thesis using assms by (auto simp: rune_width_ascii)
  next
    case 2
    then show ?thesis
      by (intro rune_width_if [OF assms, of 2 128 191]) (auto simp: rune_width_def byte_in_def)
  next
    case 3
    then show ?thesis
      by (intro rune_width_if [OF assms, of 3 160 191]) (auto simp: rune_width_def byte_in_def)
  next
    case 4
    then show ?thesis
      by (intro rune_width_if [OF assms, of 3 128 159]) (auto simp: rune_width_def byte_in_def)
  next
    case 5
    then show ?thesis
      by (intro rune_width_if [OF assms, of 3 "if byte c = 224 then 160 else 128" 191]) (auto simp: rune_width_def byte_in_def)
  next
    case 6
    then show ?thesis
      by (intro rune_width_if [OF assms, of 4 144 191]) (auto simp: rune_width_def byte_in_def)
  next
    case 7
    then show ?thesis
      by (intro rune_width_if [OF assms, of 4 128 191]) (auto simp: rune_width_def byte_in_def)
  next
    case 8
    then show ?thesis
      by (intro rune_width_if [OF assms, of 4 128 143]) (auto simp: rune_width_def byte_in_def)
  next
    case 9
    then show ?thesis using assms by simp
  qed
qed

lemma rune_width_take:
  assumes "rune_width (c # r) = Some w"
  shows "rune_width (take w (c # r) @ q) = Some w" and "w \<le> length (c # r)"
proof -
  obtain v where w: "w = Suc v" using rune_width_pos [OF assms] gr0_implies_Suc by blast
  obtain lo hi where "continuation v lo hi r" "\<forall>r'. continuation v lo hi r' \<longrightarrow> rune_width (c # r') = Some w"
    using rune_width_continuation [OF assms] w by auto
  then show "rune_width (take w (c # r) @ q) = Some w" "w \<le> length (c # r)"
    using continuation_take [of v lo hi r q] by (simp_all add: w)
qed

lemma unquote_rune:
  assumes "rune_width (c # r) = Some w" and "c \<noteq> backslash_char"
  shows "json_unquote 0 (take w (c # r) @ q) = take w (c # r) @ json_unquote 0 q"
proof -
  obtain v where w: "w = Suc v" using rune_width_pos [OF assms(1)] gr0_implies_Suc by blast
  note width = rune_width_take(1) [OF assms(1), of q] rune_width_take(2) [OF assms(1)]
  then have "json_unquote 0 (take w (c # r) @ q) = take w (take w (c # r) @ q) @ json_unquote v (take v r @ q)"
    using assms(2) by (simp add: w)
  moreover have "length (take v r) = v" using width(2) by (simp add: w)
  ultimately show ?thesis using json_unquote_skip [of "take v r" v q] width(2) by (simp add: w)
qed

lemma unquote_body: "utf8_ValidString s \<Longrightarrow> unquote (json_string_body s) = s"
  unfolding unquote_def
proof (induction s rule: json_string_body.induct)
  case (2 c r)
  from "2.prems" obtain w where w: "rune_width (c # r) = Some w" "utf8_ValidString (drop (w - 1) r)"
    by (auto split: option.splits)
  then have rest: "json_unquote 0 (json_string_body (drop (w - 1) r)) = drop (w - 1) r" using 2(2) by blast
  show ?case
  proof (cases "w = 1")
    case True
    then have "byte c < 128" using w(1) by (auto simp: rune_width_def split: if_splits)
    then show ?thesis using rest True by (simp add: w(1) unquote_escaped)
  next
    case False
    obtain v where v: "w = Suc v" using rune_width_pos [OF w(1)] gr0_implies_Suc by blast
    have split: "take w (c # r) @ drop (w - 1) r = c # r" by (simp add: v)
    have high: "\<forall>b \<in> set (take w (c # r)). 128 \<le> byte b" by (rule rune_bytes [OF w(1) False])
    then have "c \<noteq> backslash_char" by (auto simp: v)
    note rune = unquote_rune [OF w(1) this]
    have u: "json_unquote 0 (backslash_char # ''u2028'' @ q) = map char_of [226 :: nat, 128, 168] @ json_unquote 0 q"
      "json_unquote 0 (backslash_char # ''u2029'' @ q) = map char_of [226 :: nat, 128, 169] @ json_unquote 0 q" for q
      using unquote_unicode_escape [of "CHR ''2''" "CHR ''0''" "CHR ''2''" "CHR ''8''" q]
        unquote_unicode_escape [of "CHR ''2''" "CHR ''0''" "CHR ''2''" "CHR ''9''" q]
      by (simp_all add: hex_value_def byte_in_def byte_def is_surrogate_def utf8_encode_def)
    have bytes: "map char_of (map byte s) = s" for s by (simp add: byte_def comp_def)
    show ?thesis
      using rest rune [of "json_string_body (drop (w - 1) r)"] split u [of "json_string_body (drop (w - 1) r)"]
        bytes [of "take w (c # r)"] False
      by (auto simp: w(1) simp del: take_Suc_Cons)
  qed
qed simp

text \<open>What is written is valid UTF-8.\<close>

lemma utf8_append: "utf8_ValidString s \<Longrightarrow> utf8_ValidString t \<Longrightarrow> utf8_ValidString (s @ t)"
proof (induction s rule: utf8_ValidString.induct)
  case (2 c r)
  from "2.prems"(1) obtain w where w: "rune_width (c # r) = Some w" "utf8_ValidString (drop (w - 1) r)"
    by (auto split: option.splits)
  obtain v where v: "w = Suc v" using rune_width_pos [OF w(1)] gr0_implies_Suc by blast
  have "take w (c # r) @ drop v r @ t = c # r @ t" by (simp add: v)
  then have "rune_width (c # r @ t) = Some w" using rune_width_take(1) [OF w(1), of "drop v r @ t"] by (simp only:)
  moreover have "v \<le> length r" using rune_width_take(2) [OF w(1)] by (simp add: v)
  moreover have "utf8_ValidString (drop v r @ t)" using "2.IH" [OF w(1)] w(2) "2.prems"(2) by (simp add: v)
  ultimately show ?case by (simp add: v)
qed simp

lemma utf8_ascii: "\<forall>c \<in> set s. byte c < 128 \<Longrightarrow> utf8_ValidString s"
  by (induction s) (simp_all add: rune_width_ascii)

lemma utf8_plain: "plain s \<Longrightarrow> utf8_ValidString s"
  by (rule utf8_ascii) (simp add: list_all_iff plain_char_def)

lemma hex_digit_ascii: "d < 16 \<Longrightarrow> byte (hex_digit d) < 128"
  by (auto simp: hex_digit_def byte_def)

lemma escape_byte_ascii: "byte c < 128 \<Longrightarrow> \<forall>b \<in> set (json_escape_byte c). byte b < 128"
  using hex_digit_ascii [of "byte c div 16"] hex_digit_ascii [of "byte c mod 16"]
  by (simp add: json_escape_byte_def) (simp add: byte_def)

lemma utf8_body: "utf8_ValidString (json_string_body s)"
proof (induction s rule: json_string_body.induct)
  case (2 c r)
  have ascii: "utf8_ValidString (backslash_char # ''ufffd'')" "utf8_ValidString (backslash_char # ''u2028'')"
    "utf8_ValidString (backslash_char # ''u2029'')"
    by (intro utf8_ascii; simp add: byte_def backslash_char_def)+
  show ?case
  proof (cases "rune_width (c # r)")
    case None
    then show ?thesis using utf8_append [OF ascii(1) 2(1) [OF None]] by simp
  next
    case (Some w)
    note rest = 2(2) [OF Some]
    have "utf8_ValidString (take w (c # r))"
    proof -
      have "rune_width (take w (c # r)) = Some w" using rune_width_take(1) [OF Some, of "[]"] by simp
      moreover obtain v where "w = Suc v" using rune_width_pos [OF Some] gr0_implies_Suc by blast
      ultimately show ?thesis using rune_width_take(2) [OF Some] by simp
    qed
    moreover have "byte c < 128" if "w = 1"
      using Some that by (auto simp: rune_width_def split: if_splits)
    moreover have "utf8_ValidString (json_escape_byte c @ json_string_body (drop (w - 1) r))" if "w = 1"
      using utf8_append [OF utf8_ascii [OF escape_byte_ascii] rest] calculation(2) that by blast
    ultimately show ?thesis
      using utf8_append [OF ascii(2) rest] utf8_append [OF ascii(3) rest]
        utf8_append [OF _ rest, of "take w (c # r)"]
      by (simp add: Some del: take_Cons' utf8_ValidString.simps)
  qed
qed simp

text \<open>The values whose strings are valid UTF-8.\<close>

fun utf8_json :: "nat \<Rightarrow> json \<Rightarrow> bool" where
  "utf8_json d (JString s) = utf8_ValidString s"
| "utf8_json (Suc d) (JObject ms) = list_all (\<lambda>(k, v). plain k \<and> utf8_json d v) ms"
| "utf8_json d v = False"

lemma utf8_members: "\<forall>m \<in> set ms. utf8_ValidString m \<Longrightarrow> utf8_ValidString (json_members ms)"
proof (induction ms rule: json_members.induct)
  case (3 m m' ms)
  have "utf8_ValidString '',''" by (rule utf8_ascii) (simp add: byte_def)
  then have "utf8_ValidString ('','' @ json_members (m' # ms))" using 3 by (intro utf8_append) simp_all
  then show ?case using 3 utf8_append by simp
qed simp_all

lemma utf8_text: "utf8_json d v \<Longrightarrow> utf8_ValidString (json_text d v)"
proof (induction d v rule: utf8_json.induct)
  case (1 d s)
  have "utf8_ValidString [quote_char]" by (rule utf8_ascii) simp
  then show ?case
    using 1 utf8_append [of s "[quote_char]"] utf8_append [of "[quote_char]" "s @ [quote_char]"] by simp
next
  case (2 d ms)
  have sep: "utf8_ValidString ''{''" "utf8_ValidString ''}''" "utf8_ValidString '':''" "utf8_ValidString [quote_char]"
    by (intro utf8_ascii; simp add: byte_def quote_char_def)+
  have "utf8_ValidString (json_member k (json_text d v))" if "(k, v) \<in> set ms" for k v
  proof -
    have "plain k" "utf8_json d v" using 2(2) that by (auto simp: list_all_iff)
    then have "utf8_ValidString k" "utf8_ValidString (json_text d v)" using 2(1) that utf8_plain by auto
    then show ?thesis
      using utf8_append [OF sep(4) utf8_append [OF \<open>utf8_ValidString k\<close> utf8_append [OF sep(4)
            utf8_append [OF sep(3) \<open>utf8_ValidString (json_text d v)\<close>]]]]
      by (simp add: json_member_def json_string_plain [OF \<open>plain k\<close>])
  qed
  then have "utf8_ValidString (json_members (map (\<lambda>(k, v). json_member k (json_text d v)) ms))"
    by (intro utf8_members) auto
  then show ?case using utf8_append [OF sep(1) utf8_append [OF _ sep(2)]] by (simp add: json_object_def)
qed simp_all

end
