(* ===== verification/Errors.thy ===== *)
theory Errors
  imports GoText
begin

text \<open>
  How the outside of the service classifies the errors of the use cases: the answers of the API
  (\<open>internal/infrastructure/httpapi/json.go\<close>), and the permanent errors and the metric labels of the consumer
  (\<open>internal/infrastructure/messaging/sqs_consumer.go\<close>).
\<close>

section \<open>The tree of an error\<close>

text \<open>What \<open>errors.As\<close> walks through: the failures that an error wraps, in order.\<close>

fun wrapped_failures :: "error \<Rightarrow> infra_error list" where
  "wrapped_failures (Infra i) = [i]"
| "wrapped_failures (Joined a b) = wrapped_failures a @ wrapped_failures b"
| "wrapped_failures _ = []"

definition is_any :: "error list \<Rightarrow> error \<Rightarrow> bool" where
  "is_any targets e \<longleftrightarrow> list_ex (errors_Is e) targets"

text \<open>\<open>context.DeadlineExceeded\<close> is a \<open>net.Error\<close> too.\<close>

definition as_net_error :: "error \<Rightarrow> bool" where
  "as_net_error e \<longleftrightarrow> NetworkError \<in> set (wrapped_failures e) \<or> DeadlineExceeded \<in> set (wrapped_failures e)"

fun first_pg_code :: "infra_error list \<Rightarrow> string option" where
  "first_pg_code [] = None"
| "first_pg_code (PgError code # is) = Some code"
| "first_pg_code (_ # is) = first_pg_code is"

definition as_pg_error :: "error \<Rightarrow> string option" where
  "as_pg_error e = first_pg_code (wrapped_failures e)"

definition HasPrefix :: "string \<Rightarrow> string \<Rightarrow> bool" where
  "HasPrefix s p \<longleftrightarrow> take (length p) s = p"

section \<open>The answers of the API\<close>

definition invalid_request_errors :: "error list" where
  "invalid_request_errors =
     [ErrInvalidMoney, ErrMoneyOverflow, ErrInvalidWallet, ErrInvalidWagerTransaction, ErrInvalidWagerKind,
      ErrInvalidWagerMoney, ErrReferenceRequired, ErrInvalidWagerReference, ErrExternalOpening]"

definition unavailable_code :: "string \<Rightarrow> bool" where
  "unavailable_code code \<longleftrightarrow>
     HasPrefix code ''08'' \<or> HasPrefix code ''53'' \<or> HasPrefix code ''57P'' \<or> code = ''40001'' \<or> code = ''40P01''"

definition errorResponse :: "error \<Rightarrow> nat \<times> string" where
  "errorResponse e =
     (if errors_Is e ErrInvalidFinancialState then (500, ''INVALID_FINANCIAL_STATE'')
      else if errors_Is e ErrInvalidLedgerPage then (400, ''INVALID_LEDGER_PAGE'')
      else if errors_Is e ErrProviderNotAuthorized then (403, ''FORBIDDEN'')
      else if errors_Is e ErrIdempotencyConflict then (409, ''IDEMPOTENCY_CONFLICT'')
      else if errors_Is e ErrWalletConflict then (409, ''WALLET_ALREADY_EXISTS'')
      else if errors_Is e ErrWalletNotFound \<or> errors_Is e ErrWagerNotFound then (404, ''NOT_FOUND'')
      else if errors_Is e ErrWalletIdentityMismatch then (400, ''WALLET_IDENTITY_MISMATCH'')
      else if is_any invalid_request_errors e then (400, ''INVALID_REQUEST'')
      else if errors_Is e (Infra DeadlineExceeded) \<or> errors_Is e (Infra ContextCanceled) \<or>
              errors_Is e ErrWalletConcurrentUpdate \<or> errors_Is e (Infra EOF) then (503, ''DEPENDENCY_UNAVAILABLE'')
      else if as_net_error e then (503, ''DEPENDENCY_UNAVAILABLE'')
      else
        (case as_pg_error e of
           Some code \<Rightarrow> if unavailable_code code then (503, ''DEPENDENCY_UNAVAILABLE'') else (500, ''INTERNAL_ERROR'')
         | None \<Rightarrow> (500, ''INTERNAL_ERROR'')))"

section \<open>The consumer\<close>

definition permanent_errors :: "error list" where
  "permanent_errors =
     [ErrInvalidMessage, ErrProviderNotAuthorized, ErrIdempotencyConflict, ErrWalletIdentityMismatch, ErrInboxConflict,
      ErrInvalidMoney, ErrMoneyOverflow, ErrInvalidWagerKind, ErrInvalidWagerTransaction, ErrInvalidWagerMoney,
      ErrReferenceRequired, ErrExternalOpening, ErrInvalidWagerReference]"

definition permanentMessageError :: "error \<Rightarrow> bool" where
  "permanentMessageError e \<longleftrightarrow> is_any permanent_errors e"

definition errorMetricReason :: "error \<Rightarrow> string" where
  "errorMetricReason e =
     (if errors_Is e ErrInvalidMessage then ''invalid_message''
      else if errors_Is e ErrProviderNotAuthorized then ''provider_not_authorized''
      else if errors_Is e ErrIdempotencyConflict then ''idempotency_conflict''
      else if errors_Is e ErrWalletIdentityMismatch then ''wallet_identity_mismatch''
      else if errors_Is e ErrInboxConflict then ''inbox_conflict''
      else if errors_Is e ErrInboxIncomplete then ''inbox_incomplete''
      else ''processing_error'')"

section \<open>The two views agree\<close>

text \<open>Every failure of the infrastructure is temporary for the consumer and never the client's fault for the API.\<close>

lemma infra_is_temporary: "\<not> permanentMessageError (Infra i)"
  by (simp add: permanentMessageError_def is_any_def permanent_errors_def)

lemma infra_is_server_error: "500 \<le> fst (errorResponse (Infra i))"
  by (simp add: errorResponse_def is_any_def invalid_request_errors_def split: option.split)

lemma permanent_iff:
  "permanentMessageError e \<longleftrightarrow> (\<exists>t \<in> set permanent_errors. errors_Is e t)"
  by (simp add: permanentMessageError_def is_any_def list_ex_iff)

end
