(* ===== verification/Metrics.thy ===== *)
theory Metrics
  imports Errors
begin

text \<open>
  \<open>internal/observability/metrics.go\<close>: the counters of the service. Every method runs under the mutex, so it is one
  step. The counters are \<open>uint64\<close>; a map without a key counts zero for it. The clock and \<open>fmt.Sprintf\<close> of an
  attempt are evaluated by the caller's arguments. The text that \<open>ServeHTTP\<close> prints is input and output.
\<close>

type_synonym u64 = "64 word"
type_synonym counters = "string \<Rightarrow> u64 option"

record durationSummary =
  ds_count :: u64
  ds_sum :: u64
  ds_max :: u64

record metrics =
  mt_reconciliationDivergences :: u64
  mt_processingLatency :: durationSummary
  mt_outboxLag :: durationSummary
  mt_wagerResults :: counters
  mt_duplicateMessages :: counters
  mt_messageRetries :: counters
  mt_deadLetterMessages :: counters
  mt_concurrencyConflicts :: counters
  mt_outboxPublishResults :: counters
  mt_outboxPublishRetries :: counters
  mt_outboxClaimFailures :: u64
  mt_dlqDepth :: i64
  mt_dlqDepthKnown :: bool

definition zero_summary :: durationSummary where
  "zero_summary = \<lparr>ds_count = 0, ds_sum = 0, ds_max = 0\<rparr>"

definition NewMetrics :: metrics where
  "NewMetrics =
     \<lparr>mt_reconciliationDivergences = 0, mt_processingLatency = zero_summary, mt_outboxLag = zero_summary,
      mt_wagerResults = Map.empty, mt_duplicateMessages = Map.empty, mt_messageRetries = Map.empty,
      mt_deadLetterMessages = Map.empty, mt_concurrencyConflicts = Map.empty, mt_outboxPublishResults = Map.empty,
      mt_outboxPublishRetries = Map.empty, mt_outboxClaimFailures = 0, mt_dlqDepth = 0, mt_dlqDepthKnown = False\<rparr>"

definition counter :: "counters \<Rightarrow> string \<Rightarrow> u64" where
  "counter m k = (case m k of None \<Rightarrow> 0 | Some n \<Rightarrow> n)"

definition increment :: "string \<Rightarrow> counters \<Rightarrow> counters" where
  "increment k m = m(k \<mapsto> counter m k + 1)"

section \<open>Labels\<close>

text \<open>
  \<open>strings.ToLower\<close> up to what \<open>label\<close> can tell apart: ASCII letters, and the two runes beyond ASCII whose lower case
  is an ASCII letter, the Kelvin sign and the dotted capital I. Every other rune beyond ASCII becomes an underscore
  below, in either case; a byte that is no UTF-8 becomes the replacement rune.
\<close>

fun label_ToLower :: "nat \<Rightarrow> string \<Rightarrow> string" where
  "label_ToLower skip [] = []"
| "label_ToLower (Suc skip) (c # r) = label_ToLower skip r"
| "label_ToLower 0 (c # r) =
     (if byte_in 65 90 c then char_of (byte c + 32) # label_ToLower 0 r
      else if map byte (take 3 (c # r)) = [226, 132, 170] then CHR ''k'' # label_ToLower 2 r
      else if map byte (take 2 (c # r)) = [196, 176] then CHR ''i'' # label_ToLower 1 r
      else (case rune_width (c # r) of
              None \<Rightarrow> replacement_rune @ label_ToLower 0 r
            | Some w \<Rightarrow> take w (c # r) @ label_ToLower (w - 1) r))"

definition label_char :: "char \<Rightarrow> bool" where
  "label_char c \<longleftrightarrow> byte_in 97 122 c \<or> byte_in 48 57 c \<or> c = CHR ''_'' \<or> c = CHR ''-''"

fun label_runes :: "nat \<Rightarrow> string \<Rightarrow> string" where
  "label_runes skip [] = []"
| "label_runes (Suc skip) (c # r) = label_runes skip r"
| "label_runes 0 (c # r) =
     (if label_char c then c # label_runes 0 r
      else CHR ''_'' # label_runes (case rune_width (c # r) of None \<Rightarrow> 0 | Some w \<Rightarrow> w - 1) r)"

fun trim_left :: "nat \<Rightarrow> string \<Rightarrow> string" where
  "trim_left skip [] = []"
| "trim_left (Suc skip) (c # r) = trim_left skip r"
| "trim_left 0 (c # r) =
     (case rune_width (c # r) of
        None \<Rightarrow> c # r
      | Some w \<Rightarrow> if rune_is_space (map byte (take w (c # r))) then trim_left (w - 1) r else c # r)"

fun trim_right :: "nat \<Rightarrow> string \<Rightarrow> string" where
  "trim_right skip [] = []"
| "trim_right (Suc skip) (c # r) = c # trim_right skip r"
| "trim_right 0 (c # r) =
     (if TrimSpace_is_empty (c # r) then []
      else c # trim_right (case rune_width (c # r) of None \<Rightarrow> 0 | Some w \<Rightarrow> w - 1) r)"

definition label :: "string \<Rightarrow> string" where
  "label value =
     (let v = trim_right 0 (trim_left 0 (label_ToLower 0 value))
      in if v = [] then ''unknown'' else label_runes 0 v)"

section \<open>Observations\<close>

text \<open>\<open>value.Microseconds()\<close> of a duration that is not negative.\<close>

definition observe_duration :: "duration \<Rightarrow> durationSummary \<Rightarrow> durationSummary" where
  "observe_duration value s =
     (let micros = (quot64 (if value <s 0 then 0 else value) 1000 :: u64)
      in \<lparr>ds_count = ds_count s + 1, ds_sum = ds_sum s + micros, ds_max = max (ds_max s) micros\<rparr>)"

definition ObserveWagerResult :: "string \<Rightarrow> bool \<Rightarrow> duration \<Rightarrow> metrics \<Rightarrow> metrics" where
  "ObserveWagerResult status replay latency m =
     m\<lparr>mt_wagerResults := increment (label status) (mt_wagerResults m),
       mt_duplicateMessages := (if replay then increment ''idempotent_replay'' else (\<lambda>c. c)) (mt_duplicateMessages m),
       mt_processingLatency := observe_duration latency (mt_processingLatency m)\<rparr>"

definition ObserveDuplicateMessage :: "string \<Rightarrow> metrics \<Rightarrow> metrics" where
  "ObserveDuplicateMessage source m =
     m\<lparr>mt_duplicateMessages := increment (label source) (mt_duplicateMessages m)\<rparr>"

definition ObserveMessageRetry :: "string \<Rightarrow> metrics \<Rightarrow> metrics" where
  "ObserveMessageRetry reason m = m\<lparr>mt_messageRetries := increment (label reason) (mt_messageRetries m)\<rparr>"

definition ObserveDeadLetter :: "string \<Rightarrow> metrics \<Rightarrow> metrics" where
  "ObserveDeadLetter reason m = m\<lparr>mt_deadLetterMessages := increment (label reason) (mt_deadLetterMessages m)\<rparr>"

definition SetDLQDepth :: "i64 \<Rightarrow> metrics \<Rightarrow> metrics" where
  "SetDLQDepth depth m = m\<lparr>mt_dlqDepth := depth, mt_dlqDepthKnown := True\<rparr>"

definition conflict_scope :: "error \<Rightarrow> string" where
  "conflict_scope e =
     (if errors_Is e ErrIdempotencyConflict then ''idempotency_conflict''
      else if errors_Is e ErrInboxConflict then ''inbox_conflict''
      else if errors_Is e ErrInboxIncomplete then ''inbox_incomplete''
      else if errors_Is e ErrWalletConcurrentUpdate then ''wallet_version''
      else (case as_pg_error e of
              Some code \<Rightarrow> if code = ''40001'' \<or> code = ''40P01'' then ''database_conflict'' else []
            | None \<Rightarrow> []))"

definition ObserveProcessingError :: "error \<Rightarrow> duration \<Rightarrow> metrics \<Rightarrow> metrics" where
  "ObserveProcessingError e latency m =
     (let m' = m\<lparr>mt_processingLatency := observe_duration latency (mt_processingLatency m)\<rparr>; scope = conflict_scope e
      in if scope = [] then m'
         else m'\<lparr>mt_concurrencyConflicts := increment scope (mt_concurrencyConflicts m')\<rparr>)"

definition ObserveConcurrencyConflict :: "string \<Rightarrow> metrics \<Rightarrow> metrics" where
  "ObserveConcurrencyConflict scope m =
     m\<lparr>mt_concurrencyConflicts := increment (label scope) (mt_concurrencyConflicts m)\<rparr>"

definition ObserveOutboxPublish :: "string \<Rightarrow> i64 \<Rightarrow> time \<Rightarrow> duration \<Rightarrow> metrics \<Rightarrow> metrics" where
  "ObserveOutboxPublish result attempts occurredAt since m =
     m\<lparr>mt_outboxPublishResults := increment (label result) (mt_outboxPublishResults m),
       mt_outboxPublishRetries :=
         (if result = ''retry'' then increment (label (''attempt_'' @ fmt_d attempts)) else (\<lambda>c. c))
           (mt_outboxPublishRetries m),
       mt_outboxLag := (if Time_IsZero occurredAt then mt_outboxLag m else observe_duration since (mt_outboxLag m))\<rparr>"

definition ObserveOutboxClaimFailure :: "metrics \<Rightarrow> metrics" where
  "ObserveOutboxClaimFailure m = m\<lparr>mt_outboxClaimFailures := mt_outboxClaimFailures m + 1\<rparr>"

definition AddReconciliationDivergence :: "metrics \<Rightarrow> metrics" where
  "AddReconciliationDivergence m = m\<lparr>mt_reconciliationDivergences := mt_reconciliationDivergences m + 1\<rparr>"

section \<open>Labels are safe\<close>

lemma label_runes_chars: "list_all label_char (label_runes n s)"
proof (induction n s rule: label_runes.induct)
  case (3 c r)
  have "label_char (CHR ''_'')" by (simp add: label_char_def)
  then show ?case using 3 by simp
qed simp_all

lemma label_runes_nonempty [simp]: "label_runes 0 (c # r) \<noteq> []"
  by simp

text \<open>A label is never empty and never carries a character that would break the exposition format.\<close>

lemma label_safe: "label s \<noteq> [] \<and> list_all label_char (label s)"
proof -
  define v where "v = trim_right 0 (trim_left 0 (label_ToLower 0 s))"
  have "list_all label_char ''unknown''" by (simp add: label_char_def byte_in_def byte_def)
  then show ?thesis
    unfolding label_def Let_def v_def [symmetric] using label_runes_chars by (cases v) (simp_all del: label_runes.simps)
qed

lemma counter_increment: "counter (increment k m) j = (if j = k then counter m k + 1 else counter m j)"
  by (simp add: counter_def increment_def)

lemma observe_duration_max:
  "ds_max s \<le> ds_max (observe_duration d s)" "ds_count (observe_duration d s) = ds_count s + 1"
  by (simp_all add: observe_duration_def Let_def)

end
