(* ===== verification/Money.thy ===== *)
theory Money
  imports GoText
begin

text \<open>
  \<open>internal/domain/money.go\<close>: an amount of minor units (\<open>int64\<close>) in one of two currencies, its
  checked arithmetic, the parser of decimal strings and the printer.
\<close>

section \<open>The type and its guards\<close>

record money =
  amount :: i64
  currency :: string

definition validCurrency :: "string \<Rightarrow> bool" where
  "validCurrency c \<longleftrightarrow> c = ''BRL'' \<or> c = ''USD''"

definition Money_Validate :: "money \<Rightarrow> error option" where
  "Money_Validate m = (if \<not> validCurrency (currency m) then Some ErrInvalidMoney else None)"

definition MoneyFromMinorUnits :: "i64 \<Rightarrow> string \<Rightarrow> error + money" where
  "MoneyFromMinorUnits a c =
     (if \<not> validCurrency c then Inl ErrInvalidMoney else Inr \<lparr>amount = a, currency = c\<rparr>)"

definition ZeroMoney :: "string \<Rightarrow> error + money" where
  "ZeroMoney c = MoneyFromMinorUnits 0 c"

definition Money_compatible :: "money \<Rightarrow> money \<Rightarrow> error option" where
  "Money_compatible m other =
     (if Money_Validate m \<noteq> None \<or> Money_Validate other \<noteq> None then Some ErrInvalidMoney
      else if currency m \<noteq> currency other then Some ErrCurrencyMismatch
      else None)"

section \<open>Parsing\<close>

text \<open>The regular expression \<^verbatim>\<open>^\d+(\.\d{1,2})?$\<close>.\<close>

definition moneyPattern :: "string \<Rightarrow> bool" where
  "moneyPattern v \<longleftrightarrow>
     takeWhile is_digit v \<noteq> [] \<and>
     (case dropWhile is_digit v of
        [] \<Rightarrow> True
      | c # ds \<Rightarrow> c = CHR ''.'' \<and> (length ds = 1 \<or> length ds = 2) \<and> list_all is_digit ds)"

text \<open>\<open>strings.Split(value, ".")\<close>.\<close>

fun split_on :: "char \<Rightarrow> string \<Rightarrow> string list" where
  "split_on sep [] = [[]]"
| "split_on sep (c # cs) =
     (if c = sep then [] # split_on sep cs
      else (case split_on sep cs of [] \<Rightarrow> [[c]] | p # ps \<Rightarrow> (c # p) # ps))"

definition NewMoney :: "string \<Rightarrow> string \<Rightarrow> error + money" where
  "NewMoney value c =
     (if \<not> validCurrency c then Inl ErrInvalidMoney
      else if \<not> moneyPattern value then Inl ErrInvalidMoney
      else
        let parts = split_on (CHR ''.'') value
        in case ParseInt (hd parts) of
             Inl _ \<Rightarrow> Inl ErrMoneyOverflow
           | Inr whole \<Rightarrow>
               (case (if length parts = 2
                      then ParseInt (let decimal = parts ! 1
                                     in if length decimal = 1 then decimal @ ''0'' else decimal)
                      else Inr 0) of
                  Inl _ \<Rightarrow> Inl ErrInvalidMoney
                | Inr cents \<Rightarrow>
                    if quot64 (MaxInt64 - cents) 100 <s whole then Inl ErrMoneyOverflow
                    else Inr \<lparr>amount = whole * 100 + cents, currency = c\<rparr>))"

section \<open>Arithmetic and comparisons\<close>

definition Money_Add :: "money \<Rightarrow> money \<Rightarrow> error + money" where
  "Money_Add m other =
     (case Money_compatible m other of
        Some e \<Rightarrow> Inl e
      | None \<Rightarrow>
          if 0 <s amount other \<and> MaxInt64 - amount other <s amount m then Inl ErrMoneyOverflow
          else if amount other <s 0 \<and> amount m <s MinInt64 - amount other then Inl ErrMoneyOverflow
          else Inr \<lparr>amount = amount m + amount other, currency = currency m\<rparr>)"

definition Money_Sub :: "money \<Rightarrow> money \<Rightarrow> error + money" where
  "Money_Sub m other =
     (case Money_compatible m other of
        Some e \<Rightarrow> Inl e
      | None \<Rightarrow>
          if 0 <s amount other \<and> amount m <s MinInt64 + amount other then Inl ErrMoneyOverflow
          else if amount other <s 0 \<and> MaxInt64 + amount other <s amount m then Inl ErrMoneyOverflow
          else Inr \<lparr>amount = amount m - amount other, currency = currency m\<rparr>)"

definition Money_IsZero :: "money \<Rightarrow> bool" where
  "Money_IsZero m \<longleftrightarrow> Money_Validate m = None \<and> amount m = 0"

definition Money_IsPositive :: "money \<Rightarrow> bool" where
  "Money_IsPositive m \<longleftrightarrow> Money_Validate m = None \<and> 0 <s amount m"

definition Money_LessThan :: "money \<Rightarrow> money \<Rightarrow> error + bool" where
  "Money_LessThan m other =
     (case Money_compatible m other of
        Some e \<Rightarrow> Inl e
      | None \<Rightarrow> Inr (amount m <s amount other))"

definition Money_Negate :: "money \<Rightarrow> error + money" where
  "Money_Negate m =
     (case Money_Validate m of
        Some e \<Rightarrow> Inl e
      | None \<Rightarrow>
          if amount m = MinInt64 then Inl ErrMoneyOverflow
          else Inr \<lparr>amount = - amount m, currency = currency m\<rparr>)"

section \<open>Printing\<close>

definition Money_String :: "money \<Rightarrow> string" where
  "Money_String m =
     (let whole = quot64 (amount m) 100; cents = rem64 (amount m) 100
      in if amount m <s 0 then ''-'' @ fmt_d (- whole) @ ''.'' @ fmt_02d (- cents)
         else fmt_d whole @ ''.'' @ fmt_02d cents)"

definition Money_MarshalJSON :: "money \<Rightarrow> error + string" where
  "Money_MarshalJSON m =
     (case Money_Validate m of
        Some e \<Rightarrow> Inl e
      | None \<Rightarrow>
          Inr (json_object [json_member ''amount'' (json_string (Money_String m)),
                            json_member ''currency'' (json_string (currency m))]))"

section \<open>Reference definitions\<close>

text \<open>The integer a money value denotes, and the value in minor units of a decimal string.\<close>

abbreviation cents_of :: "money \<Rightarrow> int" where
  "cents_of m \<equiv> sint (amount m)"

definition decimal_cents :: "string \<Rightarrow> nat" where
  "decimal_cents v =
     (let w = takeWhile is_digit v; f = drop 1 (dropWhile is_digit v)
      in digits_value 0 w * 100 + (if length f = 1 then digits_value 0 f * 10 else digits_value 0 f))"

section \<open>Facts about the guards\<close>

lemma Money_Validate_eq_None [simp]: "Money_Validate m = None \<longleftrightarrow> validCurrency (currency m)"
  by (simp add: Money_Validate_def)

lemma Money_Validate_invalid [simp]: "\<not> validCurrency (currency m) \<Longrightarrow> Money_Validate m = Some ErrInvalidMoney"
  by (simp add: Money_Validate_def)

lemma MoneyFromMinorUnits_ok [simp]:
  "MoneyFromMinorUnits a c = Inr m \<longleftrightarrow> validCurrency c \<and> m = \<lparr>amount = a, currency = c\<rparr>"
  by (auto simp: MoneyFromMinorUnits_def)

lemma Money_IsPositive_iff: "Money_IsPositive m \<longleftrightarrow> validCurrency (currency m) \<and> 0 < cents_of m"
  by (simp add: Money_IsPositive_def word_sless_alt)

lemma Money_IsZero_iff: "Money_IsZero m \<longleftrightarrow> validCurrency (currency m) \<and> cents_of m = 0"
  by (simp add: Money_IsZero_def)

lemma money_eq_iff: "m = n \<longleftrightarrow> cents_of m = cents_of n \<and> currency m = currency (n :: money)"
  by (metis money.equality old.unit.exhaust signed_word_eqI)

section \<open>Checked arithmetic is exact\<close>

text \<open>
  Addition, subtraction and negation return the integer result whenever it fits an \<open>int64\<close>, and the
  overflow error exactly otherwise.
\<close>

definition money_of :: "int \<Rightarrow> string \<Rightarrow> error + money" where
  "money_of x c =
     (if in_i64 x then Inr \<lparr>amount = word_of_int x, currency = c\<rparr> else Inl ErrMoneyOverflow)"

lemma money_of_ok [simp]:
  "money_of x c = Inr r \<longleftrightarrow> in_i64 x \<and> cents_of r = x \<and> currency r = c"
  by (auto simp: money_of_def money_eq_iff)

lemma money_of_Inl [simp]: "money_of x c = Inl e \<longleftrightarrow> \<not> in_i64 x \<and> e = ErrMoneyOverflow"
  by (auto simp: money_of_def)

definition on_operands :: "money \<Rightarrow> money \<Rightarrow> error + 'a \<Rightarrow> error + 'a" where
  "on_operands m n r =
     (if \<not> validCurrency (currency m) \<or> \<not> validCurrency (currency n) then Inl ErrInvalidMoney
      else if currency m \<noteq> currency n then Inl ErrCurrencyMismatch else r)"

lemma on_operands_ok [simp]:
  "on_operands m n r = Inr x \<longleftrightarrow> validCurrency (currency m) \<and> currency n = currency m \<and> r = Inr x"
  by (auto simp: on_operands_def)

lemma Money_compatible_case:
  "(case Money_compatible m n of Some e \<Rightarrow> Inl e | None \<Rightarrow> r) = on_operands m n r"
  by (simp add: Money_compatible_def on_operands_def)

lemma sint_MaxInt64_minus: "0 < sint a \<Longrightarrow> sint (MaxInt64 - a) = 9223372036854775807 - sint a"
  using sint_bounds_i64 [of a] by (simp add: sint_sub_i64 in_i64_def)

lemma sint_MaxInt64_plus: "sint a < 0 \<Longrightarrow> sint (MaxInt64 + a) = 9223372036854775807 + sint a"
  using sint_bounds_i64 [of a] by (simp add: sint_add_i64 in_i64_def)

lemma sint_MinInt64_minus: "sint a < 0 \<Longrightarrow> sint (MinInt64 - a) = - 9223372036854775808 - sint a"
  using sint_bounds_i64 [of a] by (simp add: sint_sub_i64 in_i64_def)

lemma sint_MinInt64_plus: "0 < sint a \<Longrightarrow> sint (MinInt64 + a) = - 9223372036854775808 + sint a"
  using sint_bounds_i64 [of a] by (simp add: sint_add_i64 in_i64_def)

lemmas sint_limits = sint_MaxInt64_minus sint_MaxInt64_plus sint_MinInt64_minus sint_MinInt64_plus

lemma Money_Add_eq:
  "Money_Add m n = on_operands m n (money_of (cents_of m + cents_of n) (currency m))"
proof -
  have "(if 0 <s amount n \<and> MaxInt64 - amount n <s amount m then Inl ErrMoneyOverflow
      else if amount n <s 0 \<and> amount m <s MinInt64 - amount n then Inl ErrMoneyOverflow
      else Inr \<lparr>amount = amount m + amount n, currency = currency m\<rparr>)
    = money_of (cents_of m + cents_of n) (currency m)"
    using sint_bounds_i64 [of "amount m"] sint_bounds_i64 [of "amount n"]
    by (auto simp: word_sless_alt sint_limits money_of_def in_i64_def)
  then show ?thesis unfolding Money_Add_def Money_compatible_case by simp
qed

lemma Money_Sub_eq:
  "Money_Sub m n = on_operands m n (money_of (cents_of m - cents_of n) (currency m))"
proof -
  have "(if 0 <s amount n \<and> amount m <s MinInt64 + amount n then Inl ErrMoneyOverflow
      else if amount n <s 0 \<and> MaxInt64 + amount n <s amount m then Inl ErrMoneyOverflow
      else Inr \<lparr>amount = amount m - amount n, currency = currency m\<rparr>)
    = money_of (cents_of m - cents_of n) (currency m)"
    using sint_bounds_i64 [of "amount m"] sint_bounds_i64 [of "amount n"]
    by (auto simp: word_sless_alt sint_limits money_of_def in_i64_def)
  then show ?thesis unfolding Money_Sub_def Money_compatible_case by simp
qed

lemma Money_LessThan_eq: "Money_LessThan m n = on_operands m n (Inr (cents_of m < cents_of n))"
  unfolding Money_LessThan_def Money_compatible_case by (simp add: word_sless_alt)

lemma eq_MinInt64_iff: "x = MinInt64 \<longleftrightarrow> sint x = - 9223372036854775808"
proof
  assume "sint x = - 9223372036854775808"
  then have "sint x = sint MinInt64" by simp
  then show "x = MinInt64" by (rule signed_word_eqI)
qed simp

lemma Money_Negate_eq:
  "Money_Negate m =
    (if validCurrency (currency m) then money_of (- cents_of m) (currency m) else Inl ErrInvalidMoney)"
  using sint_bounds_i64 [of "amount m"]
  by (auto simp: Money_Negate_def eq_MinInt64_iff money_of_def in_i64_def Money_Validate_def)

section \<open>Printing and parsing\<close>

lemma sint_100 [simp]: "sint (100 :: i64) = 100"
  by simp

lemma length_show_nat: "n < 100 \<Longrightarrow> length (show_nat n) = (if n < 10 then 1 else 2)"
proof -
  assume "n < 100"
  then have "n div 10 < 10" by arith
  then show ?thesis by (simp add: show_nat.simps [of n] show_nat.simps [of "n div 10"])
qed

lemma fmt_02d_digits:
  assumes "0 \<le> sint x" and "sint x < 100"
  shows "length (fmt_02d x) = 2" and "list_all is_digit (fmt_02d x)"
    and "digits_value 0 (fmt_02d x) = nat (sint x)"
  using assms length_show_nat [of "nat (sint x)"]
  by (auto simp: fmt_02d_def fmt_d_def Let_def is_digit_def byte_in_def byte_def
      intro: digits_value_show_nat split: if_splits)

lemma split_on_absent: "sep \<notin> set s \<Longrightarrow> split_on sep s = [s]"
  by (induction s) auto

lemma split_on_mid: "sep \<notin> set a \<Longrightarrow> split_on sep (a @ sep # b) = a # split_on sep b"
  by (induction a) auto

lemma digits_no_dot: "list_all is_digit s \<Longrightarrow> CHR ''.'' \<notin> set s"
  using is_digit_not_sign by (auto simp: list_all_iff)

lemma takeWhile_digits [simp]:
  "list_all is_digit w \<Longrightarrow> \<not> is_digit c \<Longrightarrow> takeWhile is_digit (w @ c # f) = w"
  "list_all is_digit w \<Longrightarrow> \<not> is_digit c \<Longrightarrow> dropWhile is_digit (w @ c # f) = c # f"
  "list_all is_digit w \<Longrightarrow> takeWhile is_digit w = w"
  "list_all is_digit w \<Longrightarrow> dropWhile is_digit w = []"
  by (induction w) auto

lemma not_digit_dot [simp]: "\<not> is_digit (CHR ''.'')" "\<not> is_digit (CHR ''-'')"
  by (simp_all add: is_digit_def byte_in_def byte_def)


lemma moneyPattern_cases:
  assumes "moneyPattern v"
  obtains (whole) "list_all is_digit v" "v \<noteq> []"
  | (decimal) w f where "v = w @ CHR ''.'' # f" "list_all is_digit w" "w \<noteq> []"
      "list_all is_digit f" "length f = 1 \<or> length f = 2"
proof (cases "dropWhile is_digit v")
  case Nil
  then have "list_all is_digit v" by (simp add: list_all_iff)
  moreover have "v \<noteq> []" using assms by (auto simp: moneyPattern_def)
  ultimately show thesis by (rule whole)
next
  case (Cons c f)
  have v: "v = takeWhile is_digit v @ c # f" using takeWhile_dropWhile_id [of is_digit v] Cons by simp
  show thesis
    by (rule decimal [of "takeWhile is_digit v" f])
      (use assms Cons v in \<open>auto simp: moneyPattern_def list_all_iff dest: set_takeWhileD\<close>)
qed

lemma quot64_limit:
  assumes "0 \<le> sint c" and "sint c < 100" and "0 \<le> sint w"
  shows "quot64 (MaxInt64 - c) 100 <s w \<longleftrightarrow> \<not> in_i64 (sint w * 100 + sint c)"
proof -
  have "sint (MaxInt64 - c) = 9223372036854775807 - sint c"
    using assms by (simp add: sint_sub_i64 in_i64_def)
  then have "sint (quot64 (MaxInt64 - c) 100) = (9223372036854775807 - sint c) div 100"
    using assms by (simp add: quot64_nonneg)
  then show ?thesis using assms by (auto simp: word_sless_alt in_i64_def)
qed

text \<open>The last step of the parser, on the two numbers it has read.\<close>

lemma NewMoney_amount:
  assumes "sint whole = int w" and "sint cents = int c" and "c < 100"
  shows "(if quot64 (MaxInt64 - cents) 100 <s whole then Inl ErrMoneyOverflow
          else Inr \<lparr>amount = whole * 100 + cents, currency = cur\<rparr>) = money_of (int (w * 100 + c)) cur"
proof -
  have "quot64 (MaxInt64 - cents) 100 <s whole \<longleftrightarrow> \<not> in_i64 (int (w * 100 + c))"
    using assms by (subst quot64_limit) simp_all
  moreover have "whole * 100 + cents = word_of_int (int (w * 100 + c))"
  proof -
    have "whole = word_of_int (sint whole)" "cents = word_of_int (sint cents)" by simp_all
    then have "whole = word_of_int (int w)" "cents = word_of_int (int c)" using assms(1,2) by argo+
    then show ?thesis by simp
  qed
  ultimately show ?thesis by (simp add: money_of_def)
qed

lemma sint_of_nat_i64: "n < 2 ^ 63 \<Longrightarrow> sint (of_nat n :: i64) = int n"
  using sint_of_int_i64 [of "int n"] by (simp add: in_i64_def)

lemma NewMoney_parts:
  assumes v: "moneyPattern v" and c: "validCurrency c"
    and p: "split_on (CHR ''.'') v = w # fs" and w: "list_all is_digit w" "w \<noteq> []"
    and fs: "fs = [] \<and> n = 0 \<or>
      (\<exists>f. fs = [f] \<and> f \<noteq> [] \<and> list_all is_digit f \<and> n < 100 \<and>
           n = digits_value 0 (if length f = 1 then f @ ''0'' else f))"
  shows "NewMoney v c = money_of (int (digits_value 0 w * 100 + n)) c"
proof (cases "digits_value 0 w < 2 ^ 63")
  case False
  then have "\<not> in_i64 (int (digits_value 0 w * 100 + n))" by (simp add: in_i64_def)
  then show ?thesis using False v c p w by (simp add: NewMoney_def Let_def ParseInt_digits money_of_def)
next
  case True
  have z: "list_all is_digit ''0''" by (simp add: is_digit_def byte_in_def byte_def)
  have "n < 100" using fs by auto
  have frac: "ParseInt (if length f = 1 then f @ ''0'' else f) = Inr (of_nat n)"
    if "fs = [f]" "n \<noteq> 0 \<or> fs \<noteq> []" for f
  proof -
    let ?g = "if length f = 1 then f @ ''0'' else f"
    have "?g \<noteq> []" "list_all is_digit ?g" "digits_value 0 ?g = n"
      using fs that z by auto
    then show ?thesis using \<open>n < 100\<close> ParseInt_digits [of ?g] by simp
  qed
  have amt: "(if quot64 (MaxInt64 - of_nat n) 100 <s of_nat (digits_value 0 w) then Inl ErrMoneyOverflow
          else Inr \<lparr>amount = of_nat (digits_value 0 w) * 100 + of_nat n, currency = c\<rparr>)
        = money_of (int (digits_value 0 w * 100 + n)) c"
    using True \<open>n < 100\<close> by (intro NewMoney_amount) (simp_all add: sint_of_nat_i64)
  show ?thesis
  proof (cases fs)
    case Nil
    then have "n = 0" using fs by simp
    have "sint (of_nat (digits_value 0 w) :: i64) = int (digits_value 0 w)"
      using True by (simp add: sint_of_nat_i64)
    note amt0 = NewMoney_amount [OF this, of 0 0 c]
    show ?thesis
      using True v c p w amt0 Nil \<open>n = 0\<close> by (simp add: NewMoney_def Let_def ParseInt_digits split del: if_split)
  next
    case (Cons f fs')
    then have "fs = [f]" using fs by auto
    then show ?thesis
      using True v c p w amt frac [of f]
      by (simp add: NewMoney_def Let_def ParseInt_digits split del: if_split)
  qed
qed

lemma digits_value_bound: "list_all is_digit f \<Longrightarrow> digits_value 0 f < 10 ^ length f"
proof (induction f)
  case (Cons a f)
  have "byte a - 48 \<le> 9" using Cons.prems by (auto simp: is_digit_def byte_in_def)
  then have "(byte a - 48) * 10 ^ length f \<le> 9 * 10 ^ length f" by (rule mult_le_mono1)
  moreover have "digits_value 0 f < 10 ^ length f" using Cons by simp
  ultimately have "(byte a - 48) * 10 ^ length f + digits_value 0 f < 10 * 10 ^ length f" by linarith
  then show ?case using digits_value_shift [of "byte a - 48" f] by simp
qed simp

lemma two_digits:
  assumes "list_all is_digit f" and "length f = 1 \<or> length f = 2"
  shows "(if length f = 1 then digits_value 0 f * 10 else digits_value 0 f) < 100"
  using digits_value_bound [OF assms(1)] assms(2) by auto

lemma NewMoney_eq:
  "NewMoney v c =
     (if validCurrency c \<and> moneyPattern v then money_of (int (decimal_cents v)) c else Inl ErrInvalidMoney)"
proof (cases "validCurrency c \<and> moneyPattern v")
  case False
  then show ?thesis by (auto simp: NewMoney_def)
next
  case True
  then have c: "validCurrency c" and v: "moneyPattern v" by simp_all
  from v show ?thesis
  proof (cases rule: moneyPattern_cases)
    case whole
    then have "NewMoney v c = money_of (int (digits_value 0 v * 100 + 0)) c"
      by (intro NewMoney_parts [OF v c, of v "[]" 0]) (simp_all add: split_on_absent digits_no_dot)
    then show ?thesis using True whole by (simp add: decimal_cents_def)
  next
    case (decimal w f)
    define n where "n = digits_value 0 (if length f = 1 then f @ ''0'' else f)"
    have n: "n = (if length f = 1 then digits_value 0 f * 10 else digits_value 0 f)"
      by (simp add: n_def digits_value_append byte_def)
    have "n < 100" using two_digits [OF decimal(4,5)] unfolding n by simp
    moreover have "split_on (CHR ''.'') v = w # [f]"
      using decimal by (simp add: split_on_mid split_on_absent digits_no_dot)
    moreover have "f \<noteq> []" using decimal(5) by auto
    ultimately have "NewMoney v c = money_of (int (digits_value 0 w * 100 + n)) c"
      using decimal by (intro NewMoney_parts [OF v c, of w "[f]"] disjI2 exI [of _ f]) (simp_all add: n_def)
    then show ?thesis using True decimal n by (simp add: decimal_cents_def Let_def)
  qed
qed

lemma Money_String_nonneg:
  assumes "0 \<le> cents_of m"
  obtains w f where "Money_String m = w @ CHR ''.'' # f"
    and "list_all is_digit w" "w \<noteq> []" "list_all is_digit f" "length f = 2"
    and "int (digits_value 0 w * 100 + digits_value 0 f) = cents_of m"
proof
  let ?q = "quot64 (amount m) 100" and ?r = "rem64 (amount m) 100"
  have q: "sint ?q = cents_of m div 100" and r: "sint ?r = cents_of m mod 100"
    using assms by (simp_all add: quot64_nonneg rem64_nonneg)
  have f: "length (fmt_02d ?r) = 2" "list_all is_digit (fmt_02d ?r)"
    "digits_value 0 (fmt_02d ?r) = nat (sint ?r)"
    using r by (intro fmt_02d_digits; simp)+
  show "Money_String m = fmt_d ?q @ CHR ''.'' # fmt_02d ?r"
    using assms by (simp add: Money_String_def Let_def word_sless_alt)
  show "list_all is_digit (fmt_d ?q)" "fmt_d ?q \<noteq> []"
    using q assms by (simp_all add: fmt_d_def pos_imp_zdiv_neg_iff)
  show "list_all is_digit (fmt_02d ?r)" "length (fmt_02d ?r) = 2" using f by simp_all
  show "int (digits_value 0 (fmt_d ?q) * 100 + digits_value 0 (fmt_02d ?r)) = cents_of m"
    using q r f assms by (simp add: fmt_d_def pos_imp_zdiv_neg_iff pos_imp_zdiv_nonneg_iff)
qed

lemma NewMoney_String:
  assumes "validCurrency (currency m)" and "0 \<le> cents_of m"
  shows "NewMoney (Money_String m) (currency m) = Inr m"
proof -
  obtain w f where s: "Money_String m = w @ CHR ''.'' # f" and w: "list_all is_digit w" "w \<noteq> []"
    and f: "list_all is_digit f" "length f = 2"
    and v: "int (digits_value 0 w * 100 + digits_value 0 f) = cents_of m"
    using Money_String_nonneg [OF assms(2)] .
  have "moneyPattern (Money_String m)" using s w f by (simp add: moneyPattern_def)
  moreover have "int (decimal_cents (Money_String m)) = cents_of m"
    using s w f v by (simp add: decimal_cents_def Let_def)
  ultimately show ?thesis using assms(1) by (simp add: NewMoney_eq)
qed

lemma NewMoney_String_negative:
  assumes "cents_of m < 0"
  shows "NewMoney (Money_String m) c = Inl ErrInvalidMoney"
  using assms by (simp add: NewMoney_eq moneyPattern_def Money_String_def Let_def word_sless_alt)

lemma NewMoney_ok_nonneg:
  "NewMoney v c = Inr m \<Longrightarrow> validCurrency (currency m) \<and> 0 \<le> cents_of m \<and> currency m = c"
  by (auto simp: NewMoney_eq split: if_splits)

section \<open>Properties\<close>

text \<open>C36: \<open>Add\<close>, \<open>Sub\<close>, \<open>Negate\<close> and \<open>LessThan\<close> compute on the integers: the result is exact when it fits an
  \<open>int64\<close>, the overflow error is reported exactly when it does not, operands without a known
  currency or with different ones are refused, and the wrap-around of the machine never shows.\<close>

theorem Money_arithmetic_exact:
  "Money_Add m n = on_operands m n (money_of (cents_of m + cents_of n) (currency m)) \<and>
   Money_Sub m n = on_operands m n (money_of (cents_of m - cents_of n) (currency m)) \<and>
   Money_Negate m = (if validCurrency (currency m) then money_of (- cents_of m) (currency m)
                     else Inl ErrInvalidMoney) \<and>
   Money_LessThan m n = on_operands m n (Inr (cents_of m < cents_of n))"
  by (simp add: Money_Add_eq Money_Sub_eq Money_Negate_eq Money_LessThan_eq)

text \<open>C37: \<open>NewMoney\<close> accepts exactly the decimals of its pattern in a known currency and returns the number of
  cents they denote; a decimal beyond \<open>int64\<close> is an overflow error and never a wrapped amount.\<close>

theorem NewMoney_exact:
  "NewMoney v c =
     (if validCurrency c \<and> moneyPattern v then money_of (int (decimal_cents v)) c else Inl ErrInvalidMoney)"
  by (rule NewMoney_eq)

text \<open>C38: Printing and parsing a non-negative amount gives the amount back.\<close>

theorem Money_String_roundtrip:
  assumes "validCurrency (currency m)" and "0 \<le> cents_of m"
  shows "NewMoney (Money_String m) (currency m) = Inr m"
  using assms by (rule NewMoney_String)

theorem Money_String_roundtrip_witness:
  "NewMoney (Money_String \<lparr>amount = 12345, currency = ''BRL''\<rparr>) ''BRL'' = Inr \<lparr>amount = 12345, currency = ''BRL''\<rparr>"
  using Money_String_roundtrip [of "\<lparr>amount = 12345, currency = ''BRL''\<rparr>"] by (simp add: validCurrency_def)

end
