(* ===== verification/GoHttp.thy ===== *)
theory GoHttp
  imports GoJson Metrics Money
begin

text \<open>
  What the API uses of Go's \<open>strings\<close>, \<open>mime\<close>, \<open>net/url\<close> and \<open>net/http\<close>: words of a header, media types, query
  strings, and a body of bounded size read as JSON. The request is what \<open>net/http\<close> hands over: the values of each
  canonical header, the values of the wildcards of the matched pattern, and the bytes of the body up to the end of
  the stream or to its failure.
\<close>

section \<open>Words\<close>

text \<open>\<open>strings.TrimSpace\<close>, and \<open>strings.ToLower\<close> for a text that is then compared with ASCII.\<close>

definition TrimSpace :: "string \<Rightarrow> string" where
  "TrimSpace s = trim_right 0 (trim_left 0 s)"

definition ToLower :: "string \<Rightarrow> string" where
  "ToLower s = label_ToLower 0 s"

text \<open>\<open>strings.Fields\<close>, with the word read so far.\<close>

fun fields_loop :: "string \<Rightarrow> string \<Rightarrow> string list" where
  "fields_loop w [] = (if w = [] then [] else [w])"
| "fields_loop w (c # r) =
     (case rune_width (c # r) of
        None \<Rightarrow> fields_loop (w @ [c]) r
      | Some n \<Rightarrow>
          if rune_is_space (map byte (take n (c # r)))
          then (if w = [] then [] else [w]) @ fields_loop [] (drop (n - 1) r)
          else fields_loop (w @ take n (c # r)) (drop (n - 1) r))"

definition Fields :: "string \<Rightarrow> string list" where
  "Fields s = fields_loop [] s"

text \<open>\<open>strings.EqualFold\<close> with a word of ASCII that has no k and no s, the letters with a fold beyond ASCII.\<close>

definition ascii_lower :: "char \<Rightarrow> char" where
  "ascii_lower c = (if byte_in 65 90 c then char_of (byte c + 32) else c)"

definition EqualFold :: "string \<Rightarrow> string \<Rightarrow> bool" where
  "EqualFold s t \<longleftrightarrow> map ascii_lower s = map ascii_lower t"

text \<open>A text in double quotes.\<close>

definition quoted :: "string \<Rightarrow> string" where
  "quoted s = quote_char # s @ [quote_char]"

section \<open>Media types\<close>

definition tspecial :: "char \<Rightarrow> bool" where
  "tspecial c \<longleftrightarrow> byte c \<in> {34, 40, 41, 44, 47, 58, 59, 60, 61, 62, 63, 64, 91, 92, 93}"

definition token_char :: "char \<Rightarrow> bool" where
  "token_char c \<longleftrightarrow> byte_in 33 126 c \<and> \<not> tspecial c"

definition media_type_valid :: "string \<Rightarrow> bool" where
  "media_type_valid s \<longleftrightarrow>
     (let rest = dropWhile token_char s in
      takeWhile token_char s \<noteq> [] \<and>
      (rest = [] \<or> take 1 rest = ''/'' \<and> drop 1 rest \<noteq> [] \<and> list_all token_char (drop 1 rest)))"

text \<open>A quoted value after its first quote, with what follows the last one.\<close>

fun quoted_value :: "string \<Rightarrow> (string \<times> string) option" where
  "quoted_value [] = None"
| "quoted_value [c] =
     (if c = quote_char then Some ([], []) else None)"
| "quoted_value (c # d # r) =
     (if c = quote_char then Some ([], d # r)
      else if c = backslash_char \<and> tspecial d then map_option (\<lambda>(v, s). (d # v, s)) (quoted_value r)
      else if byte c \<in> {10, 13} then None
      else map_option (\<lambda>(v, s). (c # v, s)) (quoted_value (d # r)))"

definition consume_value :: "string \<Rightarrow> (string \<times> string) option" where
  "consume_value v =
     (if take 1 v = [quote_char] then quoted_value (drop 1 v)
      else if takeWhile token_char v = [] then None
      else Some (takeWhile token_char v, dropWhile token_char v))"

text \<open>One parameter: the lower-case name, the value, and the rest.\<close>

definition consume_media_param :: "string \<Rightarrow> (string \<times> string \<times> string) option" where
  "consume_media_param v =
     (let a = trim_left 0 v in
      if take 1 a \<noteq> '';'' then None
      else
        let b = trim_left 0 (drop 1 a); param = takeWhile token_char b; c = trim_left 0 (dropWhile token_char b) in
        if param = [] \<or> take 1 c \<noteq> ''='' then None
        else
          (case consume_value (trim_left 0 (drop 1 c)) of
             None \<Rightarrow> None
           | Some (value, rest) \<Rightarrow> Some (map ascii_lower param, value, rest)))"

lemma length_trim_left: "length (trim_left n s) \<le> length s"
  by (induction n s rule: trim_left.induct) (auto split: option.split intro: le_SucI)

lemma length_quoted_value: "quoted_value s = Some (v, r) \<Longrightarrow> length r < length s"
  by (induction s arbitrary: v rule: quoted_value.induct) (fastforce split: if_splits)+

lemma length_consume_value: "consume_value s = Some (v, r) \<Longrightarrow> length r \<le> length s"
  using length_quoted_value [of "drop 1 s"] length_dropWhile_le [of token_char s]
  by (fastforce simp: consume_value_def split: if_splits)

lemma length_consume_media_param:
  assumes "consume_media_param v = Some (k, x, rest)"
  shows "length rest < length v"
proof -
  define a where "a = trim_left 0 v"
  define b where "b = trim_left 0 (drop 1 a)"
  define c where "c = trim_left 0 (dropWhile token_char b)"
  from assms have "take 1 a = '';''" "consume_value (trim_left 0 (drop 1 c)) = Some (x, rest)"
    unfolding consume_media_param_def Let_def a_def [symmetric] b_def [symmetric] c_def [symmetric]
    by (auto split: if_splits option.splits)
  moreover from this(1) have "a \<noteq> []" by auto
  ultimately show ?thesis
    using length_consume_value [of "trim_left 0 (drop 1 c)" x rest] length_trim_left [of 0 v] length_trim_left [of 0 "drop 1 a"]
      length_trim_left [of 0 "drop 1 c"] length_trim_left [of 0 "dropWhile token_char b"] length_dropWhile_le [of token_char b]
    unfolding a_def [symmetric] b_def [symmetric] c_def [symmetric] by (cases a) auto
qed

text \<open>The parameters of a media type: a name may come twice with one value; a last semicolon is ignored.\<close>

function media_params :: "(string \<times> string) list \<Rightarrow> string \<Rightarrow> bool" where
  "media_params seen v =
     (let v' = trim_left 0 v in
      if v' = [] then True
      else
        (case consume_media_param v' of
           None \<Rightarrow> TrimSpace v' = '';''
         | Some (k, x, rest) \<Rightarrow>
             (case map_of seen k of
                None \<Rightarrow> media_params ((k, x) # seen) rest
              | Some y \<Rightarrow> y = x \<and> media_params seen rest)))"
  by pat_completeness auto

termination
  by (relation "measure (\<lambda>(seen, v). length v)")
    (auto dest!: length_consume_media_param intro: less_le_trans length_trim_left)

declare media_params.simps [simp del]

definition ParseMediaType :: "string \<Rightarrow> string option" where
  "ParseMediaType v =
     (let base = takeWhile (\<lambda>c. c \<noteq> CHR '';'') v; mediatype = TrimSpace (ToLower base)
      in if media_type_valid mediatype \<and> media_params [] (drop (length base) v) then Some mediatype else None)"

section \<open>Query strings\<close>

fun QueryUnescape :: "string \<Rightarrow> string option" where
  "QueryUnescape [] = Some []"
| "QueryUnescape (c # r) =
     (if c = CHR ''%'' then
        (case r of
           a # b # r' \<Rightarrow>
             if is_hex a \<and> is_hex b
             then map_option ((#) (char_of (hex_value a * 16 + hex_value b))) (QueryUnescape r') else None
         | _ \<Rightarrow> None)
      else map_option ((#) (if c = CHR ''+'' then CHR '' '' else c)) (QueryUnescape r))"

definition max_query_params :: nat where
  "max_query_params = 10000"

text \<open>
  \<open>url.ParseQuery\<close>: the pairs in order, \<open>None\<close> where it reports an error, which is when a piece between ampersands has
  a semicolon or an escape that is not hexadecimal, or there are too many of them.
\<close>

fun query_pairs :: "string list \<Rightarrow> (string \<times> string) list option" where
  "query_pairs [] = Some []"
| "query_pairs (p # ps) =
     (if CHR '';'' \<in> set p then None
      else if p = [] then query_pairs ps
      else
        (case (QueryUnescape (takeWhile (\<lambda>c. c \<noteq> CHR ''='') p), QueryUnescape (drop 1 (dropWhile (\<lambda>c. c \<noteq> CHR ''='') p)),
               query_pairs ps) of
           (Some k, Some v, Some pairs) \<Rightarrow> Some ((k, v) # pairs)
         | _ \<Rightarrow> None))"

definition ParseQuery :: "string \<Rightarrow> (string \<times> string) list option" where
  "ParseQuery query =
     (let pieces = split_on (CHR ''&'') query
      in if max_query_params < length pieces then None else query_pairs pieces)"

definition query_values :: "(string \<times> string) list \<Rightarrow> string \<Rightarrow> string list" where
  "query_values pairs key = map snd (filter (\<lambda>(k, v). k = key) pairs)"

definition Query_Get :: "(string \<times> string) list \<Rightarrow> string \<Rightarrow> string" where
  "Query_Get pairs key = (case query_values pairs key of [] \<Rightarrow> [] | v # _ \<Rightarrow> v)"

section \<open>Requests and their bodies\<close>

record http_request =
  rq_headers :: "string \<Rightarrow> string list"
  rq_path_value :: "string \<Rightarrow> string"
  rq_RawQuery :: string
  rq_body :: string
  rq_body_broken :: bool

definition Header_Get :: "http_request \<Rightarrow> string \<Rightarrow> string" where
  "Header_Get rq name = (case rq_headers rq name of [] \<Rightarrow> [] | v # _ \<Rightarrow> v)"

definition max_body :: nat where
  "max_body = 1048576"

text \<open>The scanner meets the end of its input before a value is complete.\<close>

fun runs_out :: "mode \<Rightarrow> frame list \<Rightarrow> string \<Rightarrow> bool" where
  "runs_out m st [] = True"
| "runs_out m st (c # cs) = (case scan_step m st c of Continue m' st' \<Rightarrow> runs_out m' st' cs | _ \<Rightarrow> False)"

fun is_composite :: "json \<Rightarrow> bool" where
  "is_composite (JObject _) = True"
| "is_composite (JArray _) = True"
| "is_composite _ = False"

text \<open>
  \<open>json.Decoder\<close> behind \<open>http.MaxBytesReader\<close> meets the limit: the input before the limit ends inside the value, or with a
  scalar, whose end the decoder only sees at the next byte.
\<close>

definition meets_limit :: "string \<Rightarrow> bool" where
  "meets_limit s \<longleftrightarrow>
     runs_out BeginValue [] s \<or> (case decode_value s of Some (v, rest) \<Rightarrow> rest = [] \<and> \<not> is_composite v | None \<Rightarrow> False)"

text \<open>A pointer to a struct: \<open>null\<close> leaves it nil, an object is stored into a new value.\<close>

definition store_pointer :: "(string \<times> (json \<Rightarrow> 'r \<Rightarrow> 'r option)) list \<Rightarrow> 'r \<Rightarrow> json \<Rightarrow> 'r option option" where
  "store_pointer fs zero v =
     (if v = JNull then Some None else map_option Some (store_struct True fs v zero))"

text \<open>The result of reading a body: the status and the code of the answer, or the target.\<close>

datatype 'r body_read = Unreadable nat string | ReadTarget "'r option"

definition readJSON :: "(string \<times> (json \<Rightarrow> 'r \<Rightarrow> 'r option)) list \<Rightarrow> 'r \<Rightarrow> http_request \<Rightarrow> 'r body_read" where
  "readJSON fs zero rq =
     (if ParseMediaType (Header_Get rq ''Content-Type'') \<noteq> Some ''application/json''
      then Unreadable 415 ''UNSUPPORTED_MEDIA_TYPE''
      else
        let body = take max_body (rq_body rq); over = (max_body < length (rq_body rq)) in
        if over \<and> meets_limit body then Unreadable 413 ''REQUEST_TOO_LARGE''
        else
          (case decode_value body of
             None \<Rightarrow> Unreadable 400 ''INVALID_REQUEST''
           | Some (v, rest) \<Rightarrow>
               (case store_pointer fs zero v of
                  None \<Rightarrow> Unreadable 400 ''INVALID_REQUEST''
                | Some target \<Rightarrow>
                    if over \<and> meets_limit rest then Unreadable 413 ''REQUEST_TOO_LARGE''
                    else if \<not> at_EOF rest \<or> rq_body_broken rq then Unreadable 400 ''INVALID_REQUEST''
                    else ReadTarget target)))"

lemma readJSON_codes:
  "readJSON fs zero rq = Unreadable status code \<Longrightarrow>
    (status, code) \<in> {(415, ''UNSUPPORTED_MEDIA_TYPE''), (413, ''REQUEST_TOO_LARGE''), (400, ''INVALID_REQUEST'')}"
  by (auto simp: readJSON_def Let_def split: if_splits option.splits)

end
