(* ===== verification/PathMatch.thy ===== *)
theory PathMatch
  imports GoHttp
begin

text \<open>
  Go's \<open>path.Match\<close>, which decides whether the pattern of an IAM action covers an action. Go matches greedily: it
  cuts the pattern at its stars and puts every piece at the first place where it fits. The reference is the
  meaning of a pattern by its splittings, and the two agree.
\<close>

section \<open>Runes and classes\<close>

fun rune_value :: "nat list \<Rightarrow> nat" where
  "rune_value [a] = a"
| "rune_value [a, b] = (a - 192) * 64 + (b - 128)"
| "rune_value [a, b, c] = (a - 224) * 4096 + (b - 128) * 64 + (c - 128)"
| "rune_value [a, b, c, d] = (a - 240) * 262144 + (b - 128) * 4096 + (c - 128) * 64 + (d - 128)"
| "rune_value _ = 0"

definition RuneError :: nat where
  "RuneError = 65533"

text \<open>\<open>utf8.DecodeRuneInString\<close>: the rune and its width.\<close>

definition decode_rune :: "string \<Rightarrow> nat \<times> nat" where
  "decode_rune s =
     (case rune_width s of
        None \<Rightarrow> (RuneError, if s = [] then 0 else 1)
      | Some w \<Rightarrow> (rune_value (map byte (take w s)), w))"

text \<open>A character of a class, possibly escaped, with what follows it; \<open>None\<close> is a malformed pattern.\<close>

definition getEsc :: "string \<Rightarrow> (nat \<times> string) option" where
  "getEsc chunk =
     (if chunk = [] \<or> take 1 chunk = ''-'' \<or> take 1 chunk = '']'' then None
      else
        let c = (if take 1 chunk = [backslash_char] then drop 1 chunk else chunk) in
        if c = [] then None
        else
          let (r, n) = decode_rune c
          in if r = RuneError \<and> n = 1 \<or> drop n c = [] then None else Some (r, drop n c))"

lemma length_getEsc: "getEsc chunk = Some (r, rest) \<Longrightarrow> length rest < length chunk"
proof -
  assume e: "getEsc chunk = Some (r, rest)"
  define c where "c = (if take 1 chunk = [backslash_char] then drop 1 chunk else chunk)"
  obtain n where n: "decode_rune c = (r, n)" "rest = drop n c" "c \<noteq> []"
    using e unfolding getEsc_def c_def [symmetric] Let_def by (auto split: if_splits prod.splits)
  have "length c \<le> length chunk" by (simp add: c_def)
  moreover have "0 < n" using n(1,3) rune_width_pos by (auto simp: decode_rune_def split: option.splits if_splits)
  ultimately show ?thesis using n by (cases c) auto
qed

text \<open>The ranges of a class up to its bracket: whether the rune is in one of them, and the rest of the chunk.\<close>

function class_ranges :: "nat \<Rightarrow> bool \<Rightarrow> bool \<Rightarrow> string \<Rightarrow> (bool \<times> string) option" where
  "class_ranges r found first chunk =
     (if take 1 chunk = '']'' \<and> \<not> first then Some (found, drop 1 chunk)
      else
        (case getEsc chunk of
           None \<Rightarrow> None
         | Some (lo, c1) \<Rightarrow>
             if take 1 c1 = ''-'' then
               (case getEsc (drop 1 c1) of
                  None \<Rightarrow> None
                | Some (hi, c2) \<Rightarrow> class_ranges r (found \<or> lo \<le> r \<and> r \<le> hi) False c2)
             else class_ranges r (found \<or> r = lo) False c1))"
  by pat_completeness auto

termination
proof (relation "measure (\<lambda>(r, found, first, chunk). length chunk)", goal_cases)
  case (2 r found first chunk x lo c1 y hi c2)
  then have "length c1 < length chunk" "length c2 < length (drop 1 c1)"
    using length_getEsc by blast+
  then show ?case by simp
qed (auto dest: length_getEsc)

declare class_ranges.simps [simp del]

lemma length_class_ranges: "class_ranges r found first chunk = Some (b, rest) \<Longrightarrow> length rest \<le> length chunk"
proof (induction r found first chunk rule: class_ranges.induct)
  case (1 r found first chunk)
  show ?case
  proof (cases "take 1 chunk = '']'' \<and> \<not> first")
    case True
    have "class_ranges r found first chunk = Some (found, drop 1 chunk)"
      by (subst class_ranges.simps) (rule if_P [OF True])
    then show ?thesis using 1(3) by simp
  next
    case False
    then obtain lo c1 where g: "getEsc chunk = Some (lo, c1)"
      using 1(3) by (auto simp: class_ranges.simps [of r found first chunk] split: option.splits)
    show ?thesis
    proof (cases "take 1 c1 = ''-''")
      case True
      then obtain hi c2 where h: "getEsc (drop 1 c1) = Some (hi, c2)"
        using 1(3) False g by (auto simp: class_ranges.simps [of r found first chunk] split: option.splits)
      have "length rest \<le> length c2"
        using 1(1) [OF False g refl True h refl] 1(3)
        by (subst (asm) class_ranges.simps, subst (asm) if_not_P [OF False]) (simp add: g h True del: One_nat_def)
      then show ?thesis using length_getEsc [OF g] length_getEsc [OF h] by simp
    next
      case not_range: False
      have "length rest \<le> length c1"
        using 1(2) [OF False g refl not_range] 1(3)
        by (subst (asm) class_ranges.simps, subst (asm) if_not_P [OF False]) (simp add: g not_range del: One_nat_def)
      then show ?thesis using length_getEsc [OF g] by simp
    qed
  qed
qed

section \<open>Chunks\<close>

datatype chunk_result = BadPattern | NoMatch | Rest string

text \<open>
  \<open>matchChunk\<close>: a chunk is matched from its first byte; once it failed the rest is only checked for its form.
\<close>

function match_chunk :: "bool \<Rightarrow> string \<Rightarrow> string \<Rightarrow> chunk_result" where
  "match_chunk failed [] s = (if failed then NoMatch else Rest s)"
| "match_chunk failed (c # cs) s =
     (let f = (failed \<or> s = []) in
      if c = CHR ''['' then
        (let (r, n) = (if f then (0, 0) else decode_rune s); negated = (take 1 cs = ''^'')
         in case class_ranges r False True (if negated then drop 1 cs else cs) of
              None \<Rightarrow> BadPattern
            | Some (found, rest) \<Rightarrow> match_chunk (f \<or> found = negated) rest (drop n s))
      else if c = CHR ''?'' then
        match_chunk (f \<or> hd s = CHR ''/'') cs (if f then s else drop (snd (decode_rune s)) s)
      else if c = backslash_char then
        (case cs of
           [] \<Rightarrow> BadPattern
         | e # es \<Rightarrow> match_chunk (f \<or> e \<noteq> hd s) es (drop 1 s))
      else match_chunk (f \<or> c \<noteq> hd s) cs (drop 1 s))"
  by pat_completeness auto

termination
proof (relation "measure (\<lambda>(failed, chunk, s). length chunk)", goal_cases)
  case (2 failed c cs s f p r n negated m found rest)
  then have "length rest \<le> length cs"
    using length_class_ranges [of r False True "if negated then drop 1 cs else cs" found rest] by (auto split: if_splits)
  then show ?case by simp
qed auto

text \<open>\<open>scanChunk\<close>: the length of the piece before the next star that is not in a class.\<close>

fun scan_end :: "bool \<Rightarrow> string \<Rightarrow> nat" where
  "scan_end inrange [] = 0"
| "scan_end inrange (c # r) =
     (if c = backslash_char then (case r of [] \<Rightarrow> 1 | _ # r' \<Rightarrow> 2 + scan_end inrange r')
      else if c = CHR ''['' then 1 + scan_end True r
      else if c = CHR '']'' then 1 + scan_end False r
      else if c = CHR ''*'' \<and> \<not> inrange then 0
      else 1 + scan_end inrange r)"

definition scanChunk :: "string \<Rightarrow> bool \<times> string \<times> string" where
  "scanChunk pattern =
     (let p = dropWhile (\<lambda>c. c = CHR ''*'') pattern; n = scan_end False p
      in (take 1 pattern = ''*'', take n p, drop n p))"

section \<open>Matching\<close>

text \<open>The first later place where a chunk fits: for the last chunk it has to reach the end.\<close>

fun skip_match :: "string \<Rightarrow> bool \<Rightarrow> string \<Rightarrow> string option" where
  "skip_match chunk last_chunk [] = None"
| "skip_match chunk last_chunk (c # name) =
     (if c = CHR ''/'' then None
      else
        (case match_chunk False chunk name of
           Rest t \<Rightarrow> if last_chunk \<and> t \<noteq> [] then skip_match chunk last_chunk name else Some t
         | NoMatch \<Rightarrow> skip_match chunk last_chunk name
         | BadPattern \<Rightarrow> None))"

lemma scan_end_pos: "p \<noteq> [] \<Longrightarrow> take 1 p \<noteq> ''*'' \<Longrightarrow> 0 < scan_end False p"
  by (cases p) (auto split: list.splits)

lemma scanChunk_shorter:
  assumes "pattern \<noteq> []" and "scanChunk pattern = (star, chunk, rest)"
  shows "length rest < length pattern"
proof (cases "take 1 pattern = ''*''")
  case True
  then have "length (dropWhile (\<lambda>c. c = CHR ''*'') pattern) < length pattern"
    by (cases pattern) (auto simp: le_imp_less_Suc length_dropWhile_le)
  then show ?thesis using assms by (auto simp: scanChunk_def Let_def)
next
  case False
  then have "dropWhile (\<lambda>c. c = CHR ''*'') pattern = pattern" by (cases pattern) auto
  then show ?thesis using assms scan_end_pos [OF assms(1) False] by (auto simp: scanChunk_def Let_def)
qed

text \<open>
  The first result of \<open>path.Match\<close>, which is \<open>false\<close> for a malformed pattern too. The checks of the form of what
  was not reached do not change it.
\<close>

function Match :: "string \<Rightarrow> string \<Rightarrow> bool" where
  "Match pattern name =
     (if pattern = [] then name = []
      else
        let (star, chunk, rest) = scanChunk pattern in
        if star \<and> chunk = [] then CHR ''/'' \<notin> set name
        else
          let later = (if star then skip_match chunk (rest = []) name else None) in
          (case match_chunk False chunk name of
             BadPattern \<Rightarrow> False
           | Rest t \<Rightarrow> if t = [] \<or> rest \<noteq> [] then Match rest t
                       else (case later of None \<Rightarrow> False | Some u \<Rightarrow> Match rest u)
           | NoMatch \<Rightarrow> (case later of None \<Rightarrow> False | Some u \<Rightarrow> Match rest u)))"
  by pat_completeness auto

termination
  by (relation "measure (\<lambda>(pattern, name). length pattern)") (auto dest: scanChunk_shorter [OF _ sym])

declare Match.simps [simp del]


section \<open>The meaning of a pattern\<close>

text \<open>A star stands for any text without a slash, a question mark for one character but a slash.\<close>

fun glob :: "string \<Rightarrow> string \<Rightarrow> bool" where
  "glob [] s = (s = [])"
| "glob (c # p) [] = (c = CHR ''*'' \<and> glob p [])"
| "glob (c # p) (d # s) =
     (if c = CHR ''*'' then glob p (d # s) \<or> d \<noteq> CHR ''/'' \<and> glob (c # p) s
      else if c = CHR ''?'' then d \<noteq> CHR ''/'' \<and> glob p s
      else c = d \<and> glob p s)"

text \<open>Patterns of stars, question marks and characters that stand for themselves; names like those of IAM actions.\<close>

definition simple_pattern :: "string \<Rightarrow> bool" where
  "simple_pattern p \<longleftrightarrow> CHR ''['' \<notin> set p \<and> backslash_char \<notin> set p"

definition simple_name :: "string \<Rightarrow> bool" where
  "simple_name s \<longleftrightarrow> (\<forall>c \<in> set s. byte c < 128 \<and> c \<noteq> CHR ''/'')"

lemma simple_drop [intro]: "simple_pattern p \<Longrightarrow> simple_pattern (drop n p)" "simple_name s \<Longrightarrow> simple_name (drop n s)"
  by (auto simp: simple_pattern_def simple_name_def dest: in_set_dropD)

text \<open>A piece without stars fits the beginning of a name.\<close>

fun fits :: "string \<Rightarrow> string \<Rightarrow> bool" where
  "fits [] s = True"
| "fits (c # p) [] = False"
| "fits (c # p) (d # s) = ((c = CHR ''?'' \<or> c = d) \<and> fits p s)"

lemma glob_piece:
  assumes "simple_name s" and "CHR ''*'' \<notin> set p"
  shows "glob (p @ rest) s \<longleftrightarrow> fits p s \<and> glob rest (drop (length p) s)"
  using assms by (induction p s rule: fits.induct) (auto simp: simple_name_def)

lemma glob_star:
  assumes "simple_name s"
  shows "glob (CHR ''*'' # p) s \<longleftrightarrow> (\<exists>k \<le> length s. glob p (drop k s))"
  using assms
proof (induction s)
  case (Cons d s)
  have "(\<exists>k \<le> length (d # s). glob p (drop k (d # s))) \<longleftrightarrow> glob p (d # s) \<or> (\<exists>k \<le> length s. glob p (drop k s))"
    using Ex_less_Suc2 [of "Suc (length s)" "\<lambda>k. glob p (drop k (d # s))"] by (simp add: less_Suc_eq_le)
  then show ?case using Cons by (simp add: simple_name_def)
qed simp

lemma glob_star_absorbs:
  assumes "simple_name s" and "glob (CHR ''*'' # p) (drop j s)" and "i \<le> j"
  shows "glob (CHR ''*'' # p) (drop i s)"
proof -
  obtain k where k: "k \<le> length (drop j s)" "glob p (drop k (drop j s))"
    using assms(1,2) glob_star [of "drop j s" p] by blast
  show ?thesis
  proof (cases "j \<le> length s")
    case True
    then have "k + j - i \<le> length (drop i s)" "drop (k + j - i) (drop i s) = drop k (drop j s)"
      using k(1) assms(3) by (auto simp: add.commute)
    then show ?thesis using k(2) glob_star [of "drop i s" p] assms(1) by (metis simple_drop(2))
  next
    case False
    then have "drop (length (drop i s)) (drop i s) = drop k (drop j s)" by simp
    then show ?thesis using k(2) glob_star [of "drop i s" p] assms(1) by (metis simple_drop(2) order_refl)
  qed
qed

lemma glob_stars: "glob (CHR ''*'' # CHR ''*'' # p) s \<longleftrightarrow> glob (CHR ''*'' # p) s"
  by (induction s) auto

lemma glob_drop_stars:
  assumes "take 1 p = ''*''"
  shows "glob p s \<longleftrightarrow> glob (CHR ''*'' # dropWhile (\<lambda>c. c = CHR ''*'') p) s"
  using assms
proof (induction p)
  case (Cons c p)
  show ?case
  proof (cases "take 1 p = ''*''")
    case True
    then obtain q where "p = CHR ''*'' # q" by (cases p) auto
    then show ?thesis using Cons glob_stars by auto
  next
    case False
    then have "dropWhile (\<lambda>c. c = CHR ''*'') p = p" by (cases p) auto
    then show ?thesis using Cons by simp
  qed
qed simp

section \<open>The greedy match finds a match\<close>

lemma match_chunk_fits:
  assumes "simple_pattern p" and "simple_name s"
  shows "match_chunk False p s = (if fits p s then Rest (drop (length p) s) else NoMatch)"
proof -
  have failed: "match_chunk True p s = NoMatch" if "simple_pattern p" for p s
    using that by (induction p arbitrary: s) (auto simp: simple_pattern_def Let_def)
  show ?thesis
    using assms
  proof (induction p s rule: fits.induct)
    case (2 c p)
    then have "simple_pattern p" "c \<noteq> CHR ''[''" "c \<noteq> backslash_char" by (auto simp: simple_pattern_def)
    then show ?case using failed by (simp add: Let_def)
  next
    case (3 c p d s)
    then have p: "simple_pattern p" "c \<noteq> CHR ''[''" "c \<noteq> backslash_char" by (auto simp: simple_pattern_def)
    have d: "byte d < 128" "d \<noteq> CHR ''/''" "simple_name s" using 3(3) by (auto simp: simple_name_def)
    then have "snd (decode_rune (d # s)) = 1" by (simp add: decode_rune_def rune_width_def)
    then show ?case using 3(1) p d failed by (cases "c = d"; cases "c = CHR ''?''") (simp_all add: Let_def)
  qed simp
qed

lemma first_fit:
  assumes "simple_name s" and "CHR ''*'' \<notin> set p" and "rest = [] \<or> take 1 rest = ''*''"
    and "rest = [] \<longrightarrow> drop (length p) s = []" and "glob (p @ rest) (drop k s)"
  shows "glob rest (drop (length p) s)"
proof (cases rest)
  case Nil
  then show ?thesis using assms(4) by simp
next
  case (Cons c q)
  then have c: "rest = CHR ''*'' # q" using assms(3) by auto
  have "glob rest (drop (length p + k) s)"
    using assms(5) glob_piece [OF simple_drop(2) [OF assms(1)] assms(2)] by auto
  then show ?thesis using glob_star_absorbs [OF assms(1)] unfolding c by auto
qed

lemma skip_match_simple: "skip_match p last_chunk s = Some u \<Longrightarrow> simple_pattern p \<Longrightarrow> simple_name s \<Longrightarrow> simple_name u"
proof (induction s)
  case (Cons d s)
  then have s: "simple_name s" by (simp add: simple_name_def)
  show ?case using Cons(2-) Cons.IH s simple_drop(2) [OF s]
    by (auto simp: match_chunk_fits [OF Cons(3) s] split: if_splits)
qed simp

lemma skip_match_glob:
  assumes "simple_pattern p" and "CHR ''*'' \<notin> set p" and "simple_name s" and "rest = [] \<or> take 1 rest = ''*''"
  shows "(case skip_match p (rest = []) s of None \<Rightarrow> False | Some t \<Rightarrow> glob rest t) \<longleftrightarrow>
    (\<exists>k. 1 \<le> k \<and> k \<le> length s \<and> glob (p @ rest) (drop k s))"
  using assms(3)
proof (induction s)
  case (Cons d s)
  have s: "simple_name s" "d \<noteq> CHR ''/''" using Cons(2) by (simp_all add: simple_name_def)
  have step: "(\<exists>k. 1 \<le> k \<and> k \<le> length (d # s) \<and> glob (p @ rest) (drop k (d # s))) \<longleftrightarrow>
    glob (p @ rest) s \<or> (\<exists>k. 1 \<le> k \<and> k \<le> length s \<and> glob (p @ rest) (drop k s))"
  proof -
    have "(\<exists>k. 1 \<le> k \<and> k \<le> length (d # s) \<and> glob (p @ rest) (drop k (d # s))) \<longleftrightarrow>
      (\<exists>j \<le> length s. glob (p @ rest) (drop j s))"
      by (metis One_nat_def Suc_le_D Suc_le_mono drop_Suc_Cons le0 length_Cons)
    then show ?thesis by (metis One_nat_def Suc_leI drop0 le0 not_gr_zero)
  qed
  have piece: "glob (p @ rest) u \<longleftrightarrow> fits p u \<and> glob rest (drop (length p) u)" if "simple_name u" for u
    by (rule glob_piece [OF that assms(2)])
  show ?case
  proof (cases "fits p s \<and> \<not> (rest = [] \<and> drop (length p) s \<noteq> [])")
    case False
    then have "\<not> glob (p @ rest) s" using piece [OF s(1)] by auto
    moreover have "skip_match p (rest = []) (d # s) = skip_match p (rest = []) s"
      using s False by (auto simp: match_chunk_fits [OF assms(1) s(1)])
    ultimately show ?thesis using Cons.IH [OF s(1)] step by simp
  next
    case True
    then have now: "skip_match p (rest = []) (d # s) = Some (drop (length p) s)"
      using s by (auto simp: match_chunk_fits [OF assms(1) s(1)])
    have "glob rest (drop (length p) s)" if "glob (p @ rest) (drop k s)" for k
      using first_fit [OF s(1) assms(2,4) _ that] True by auto
    then show ?thesis using now step piece [OF s(1)] True by auto
  qed
qed simp

lemma scan_end_simple:
  assumes "simple_pattern p"
  shows "CHR ''*'' \<notin> set (take (scan_end False p) p) \<and>
    (drop (scan_end False p) p = [] \<or> take 1 (drop (scan_end False p) p) = ''*'')"
  using assms by (induction p) (auto simp: simple_pattern_def)


text \<open>
  On a name without slashes \<open>path.Match\<close> succeeds for a simple pattern exactly when the name can be split so that every
  star takes any part of it and every other character one character.
\<close>

lemma Match_glob:
  assumes "simple_pattern pattern" and "simple_name name"
  shows "Match pattern name \<longleftrightarrow> glob pattern name"
  using assms
proof (induction "length pattern" arbitrary: pattern name rule: less_induct)
  case less
  define p where "p = dropWhile (\<lambda>c. c = CHR ''*'') pattern"
  obtain chunk rest star where scanned: "scanChunk pattern = (star, chunk, rest)" by (rule prod_cases3)
  then have star: "star = (take 1 pattern = ''*'')"
    and cut: "chunk = take (scan_end False p) p" "rest = drop (scan_end False p) p"
    by (auto simp: scanChunk_def Let_def p_def)
  then have p: "p = chunk @ rest" by simp
  have simple: "simple_pattern p" using less(2) set_dropWhileD unfolding p_def simple_pattern_def by metis
  then have parts: "simple_pattern chunk" "simple_pattern rest" "CHR ''*'' \<notin> set chunk" "rest = [] \<or> take 1 rest = ''*''"
    using scan_end_simple [OF simple] unfolding cut [symmetric] by (simp_all add: p simple_pattern_def)
  note fits = match_chunk_fits [OF parts(1) less(3)] and skip = skip_match_glob [OF parts(1,3) less(3) parts(4)]
    and piece = glob_piece [OF less(3) parts(3), of rest]
  have meaning: "glob pattern name \<longleftrightarrow>
    (if star then (\<exists>k \<le> length name. glob (chunk @ rest) (drop k name)) else glob (chunk @ rest) name)"
  proof (cases star)
    case True
    then show ?thesis
      using glob_drop_stars [of pattern name] glob_star [OF less(3), of p] p by (simp add: star p_def)
  next
    case False
    then have "p = pattern" by (cases pattern) (auto simp: star p_def)
    then show ?thesis using False p by simp
  qed
  show ?case
  proof (cases "pattern = [] \<or> star \<and> chunk = []")
    case True
    have "rest = []" if "chunk = []"
      using hd_dropWhile [of "\<lambda>c. c = CHR ''*''" pattern] parts(4) that unfolding p_def [symmetric] p by (cases rest) auto
    then have rest: "rest = []" if "pattern \<noteq> []" using True that by blast
    show ?thesis
    proof (cases "pattern = []")
      case False
      then have "Match pattern name" using True scanned less(3) by (subst Match.simps) (auto simp: simple_name_def)
      moreover have "glob (chunk @ rest) (drop (length name) name)" using True False rest by simp
      ultimately show ?thesis using meaning True False by auto
    qed (simp add: Match.simps)
  next
    case False
    have ih: "Match rest u \<longleftrightarrow> glob rest u" if "simple_name u" for u
      using less(1) scanChunk_shorter [OF _ scanned] False parts(2) that by blast
    show ?thesis
    proof (cases "fits chunk name \<and> (drop (length chunk) name = [] \<or> rest \<noteq> [])")
      case True
      then have "Match pattern name \<longleftrightarrow> glob rest (drop (length chunk) name)"
        using False scanned ih less(3) by (subst Match.simps) (auto simp: fits Let_def)
      moreover have "glob rest (drop (length chunk) name)" if "glob (chunk @ rest) (drop k name)" for k
        using first_fit [OF less(3) parts(3,4) _ that] True by auto
      ultimately show ?thesis using meaning piece True by (metis drop0 le0)
    next
      case no_fit: False
      have later: "Match rest u \<longleftrightarrow> glob rest u" if "skip_match chunk (rest = []) name = Some u" for u
        by (rule ih [OF skip_match_simple [OF that parts(1) less(3)]])
      have "Match pattern name \<longleftrightarrow> star \<and> (case skip_match chunk (rest = []) name of None \<Rightarrow> False | Some u \<Rightarrow> glob rest u)"
        using False no_fit scanned later
        by (subst Match.simps) (auto simp: fits Let_def split: option.split)
      moreover have "\<not> glob (chunk @ rest) name" using piece no_fit by auto
      ultimately show ?thesis unfolding skip meaning by (metis One_nat_def Suc_leI drop0 not_gr_zero)
    qed
  qed
qed

end
