(* ===== verification/Auth.thy ===== *)
theory Auth
  imports GoHttp
begin

text \<open>
  \<open>internal/infrastructure/auth\<close>: who may call the API. The token of a request is introspected by the identity
  provider, whose answer to a token is an argument; the claims of that answer and the settings decide the
  identity, and the side of the API decides which identities it admits.
\<close>

section \<open>The claims of a token\<close>

datatype auth_error = ErrUnauthenticated | ErrIdentityProviderUnavailable

record auth_Config =
  ac_IssuerURL :: string
  ac_Audience :: string
  ac_ClientID :: string
  ac_ClientSecret :: string

record Identity =
  id_Subject :: string
  id_ProviderID :: string
  id_provider :: bool
  id_internal :: bool

text \<open>A raw message is the scanned value; the resources are an association of each name with its roles.\<close>

record tokenClaims =
  tc_Active :: bool
  tc_Issuer :: string
  tc_Audience :: "json option"
  tc_Subject :: string
  tc_ExpiresAt :: i64
  tc_NotBefore :: i64
  tc_TokenType :: string
  tc_ProviderID :: string
  tc_ResourceAccess :: "string \<Rightarrow> string list option"

definition store_bool :: "json \<Rightarrow> bool \<Rightarrow> bool option" where
  "store_bool v old = (case v of JBool b \<Rightarrow> Some b | JNull \<Rightarrow> Some old | _ \<Rightarrow> None)"

definition store_int64 :: "json \<Rightarrow> i64 \<Rightarrow> i64 option" where
  "store_int64 v old =
     (case v of
        JNumber s \<Rightarrow> (case ParseInt s of Inr n \<Rightarrow> Some n | Inl _ \<Rightarrow> None)
      | JNull \<Rightarrow> Some old
      | _ \<Rightarrow> None)"

text \<open>A slice of strings: an element that is \<open>null\<close> keeps what the slice had at its place.\<close>

fun store_elements :: "json list \<Rightarrow> string list \<Rightarrow> string list option" where
  "store_elements [] old = Some []"
| "store_elements (v # vs) old =
     (case store_string v (case old of [] \<Rightarrow> [] | s # _ \<Rightarrow> s) of
        None \<Rightarrow> None
      | Some s \<Rightarrow> map_option ((#) s) (store_elements vs (drop 1 old)))"

definition store_strings :: "json \<Rightarrow> string list \<Rightarrow> string list option" where
  "store_strings v old =
     (case v of JArray vs \<Rightarrow> store_elements vs old | JNull \<Rightarrow> Some [] | _ \<Rightarrow> None)"

fun store_resources ::
  "(string \<times> json) list \<Rightarrow> (string \<Rightarrow> string list option) \<Rightarrow> (string \<Rightarrow> string list option) option" where
  "store_resources [] m = Some m"
| "store_resources ((k, v) # ms) m =
     (case store_struct False [(''roles'', store_strings)] v [] of
        None \<Rightarrow> None
      | Some roles \<Rightarrow> store_resources ms (m(unquote k \<mapsto> roles)))"

definition store_access :: "json \<Rightarrow> (string \<Rightarrow> string list option) \<Rightarrow> (string \<Rightarrow> string list option) option" where
  "store_access v old =
     (case v of JObject ms \<Rightarrow> store_resources ms old | JNull \<Rightarrow> Some Map.empty | _ \<Rightarrow> None)"

definition claim_fields :: "(string \<times> (json \<Rightarrow> tokenClaims \<Rightarrow> tokenClaims option)) list" where
  "claim_fields =
     [(''active'', \<lambda>v c. map_option (\<lambda>b. c\<lparr>tc_Active := b\<rparr>) (store_bool v (tc_Active c))),
      (''iss'', \<lambda>v c. map_option (\<lambda>s. c\<lparr>tc_Issuer := s\<rparr>) (store_string v (tc_Issuer c))),
      (''aud'', \<lambda>v c. Some (c\<lparr>tc_Audience := Some v\<rparr>)),
      (''sub'', \<lambda>v c. map_option (\<lambda>s. c\<lparr>tc_Subject := s\<rparr>) (store_string v (tc_Subject c))),
      (''exp'', \<lambda>v c. map_option (\<lambda>n. c\<lparr>tc_ExpiresAt := n\<rparr>) (store_int64 v (tc_ExpiresAt c))),
      (''nbf'', \<lambda>v c. map_option (\<lambda>n. c\<lparr>tc_NotBefore := n\<rparr>) (store_int64 v (tc_NotBefore c))),
      (''token_type'', \<lambda>v c. map_option (\<lambda>s. c\<lparr>tc_TokenType := s\<rparr>) (store_string v (tc_TokenType c))),
      (''providerId'', \<lambda>v c. map_option (\<lambda>s. c\<lparr>tc_ProviderID := s\<rparr>) (store_string v (tc_ProviderID c))),
      (''resource_access'', \<lambda>v c. map_option (\<lambda>m. c\<lparr>tc_ResourceAccess := m\<rparr>) (store_access v (tc_ResourceAccess c)))]"

definition zero_claims :: tokenClaims where
  "zero_claims =
     \<lparr>tc_Active = False, tc_Issuer = [], tc_Audience = None, tc_Subject = [], tc_ExpiresAt = 0, tc_NotBefore = 0,
      tc_TokenType = [], tc_ProviderID = [], tc_ResourceAccess = Map.empty\<rparr>"

section \<open>Introspection\<close>

text \<open>What the identity provider answers to a token: nothing, or a status and a body.\<close>

datatype idp_answer = IdpFailed | IdpAnswer nat string

text \<open>The decoder reads one value from at most a mebibyte of the body and ignores what follows it.\<close>

definition introspect :: "idp_answer \<Rightarrow> auth_error + tokenClaims" where
  "introspect answer =
     (case answer of
        IdpFailed \<Rightarrow> Inl ErrIdentityProviderUnavailable
      | IdpAnswer status body \<Rightarrow>
          if status \<noteq> 200 then Inl ErrIdentityProviderUnavailable
          else
            (case decode_value (take max_body body) of
               None \<Rightarrow> Inl ErrIdentityProviderUnavailable
             | Some (v, _) \<Rightarrow>
                 (case store_struct False claim_fields v zero_claims of
                    None \<Rightarrow> Inl ErrIdentityProviderUnavailable
                  | Some claims \<Rightarrow> Inr claims)))"

definition hasAudience :: "json option \<Rightarrow> string \<Rightarrow> bool" where
  "hasAudience raw expected =
     (case raw of
        None \<Rightarrow> False
      | Some v \<Rightarrow>
          (case store_string v [] of
             Some single \<Rightarrow> single = expected
           | None \<Rightarrow> (case store_strings v [] of Some multiple \<Rightarrow> expected \<in> set multiple | None \<Rightarrow> False)))"

text \<open>The time is the Unix time of the clock.\<close>

definition Authenticate ::
  "auth_Config \<Rightarrow> (string \<Rightarrow> idp_answer) \<Rightarrow> i64 \<Rightarrow> string \<Rightarrow> auth_error + Identity" where
  "Authenticate cfg idp now token =
     (if TrimSpace_is_empty token then Inl ErrUnauthenticated
      else
        (case introspect (idp token) of
           Inl e \<Rightarrow> Inl e
         | Inr claims \<Rightarrow>
             if \<not> tc_Active claims \<or> tc_Issuer claims \<noteq> ac_IssuerURL cfg \<or> tc_Subject claims = [] \<or>
                sint (tc_ExpiresAt claims) \<le> sint now \<or> sint now < sint (tc_NotBefore claims) \<or>
                \<not> EqualFold (tc_TokenType claims) ''Bearer'' \<or> \<not> hasAudience (tc_Audience claims) (ac_Audience cfg)
             then Inl ErrUnauthenticated
             else
               let roles = (case tc_ResourceAccess claims (ac_Audience cfg) of None \<Rightarrow> [] | Some rs \<Rightarrow> rs);
                   provider = tc_ProviderID claims;
                   named = (\<not> TrimSpace_is_empty provider \<and> utf8_ValidString provider \<and>
                            utf8_RuneCountInString provider \<le> 100)
               in Inr \<lparr>id_Subject = tc_Subject claims, id_ProviderID = provider,
                       id_provider = (''provider'' \<in> set roles \<and> named), id_internal = (''internal'' \<in> set roles)\<rparr>))"

section \<open>The guard of a route\<close>

text \<open>The identity that the handler finds in the context, or the status and the code of the answer.\<close>

definition authorize ::
  "auth_Config \<Rightarrow> (string \<Rightarrow> idp_answer) \<Rightarrow> i64 \<Rightarrow> bool \<Rightarrow> http_request \<Rightarrow> (nat \<times> string) + Identity" where
  "authorize cfg idp now internal rq =
     (case rq_headers rq ''Authorization'' of
        [value] \<Rightarrow>
          (case Fields value of
             [scheme, token] \<Rightarrow>
               if \<not> EqualFold scheme ''Bearer'' then Inl (401, ''UNAUTHENTICATED'')
               else
                 (case Authenticate cfg idp now token of
                    Inl ErrIdentityProviderUnavailable \<Rightarrow> Inl (503, ''IDENTITY_PROVIDER_UNAVAILABLE'')
                  | Inl ErrUnauthenticated \<Rightarrow> Inl (401, ''UNAUTHENTICATED'')
                  | Inr identity \<Rightarrow>
                      let allowed = (if internal
                                     then id_internal identity \<and> \<not> id_provider identity \<and> id_ProviderID identity = []
                                     else id_provider identity \<and> \<not> id_internal identity)
                      in if allowed then Inr identity else Inl (403, ''FORBIDDEN''))
           | _ \<Rightarrow> Inl (401, ''UNAUTHENTICATED''))
      | _ \<Rightarrow> Inl (401, ''UNAUTHENTICATED''))"

definition RequireProvider :: "auth_Config \<Rightarrow> (string \<Rightarrow> idp_answer) \<Rightarrow> i64 \<Rightarrow> http_request \<Rightarrow> (nat \<times> string) + Identity" where
  "RequireProvider cfg idp now rq = authorize cfg idp now False rq"

definition RequireInternal :: "auth_Config \<Rightarrow> (string \<Rightarrow> idp_answer) \<Rightarrow> i64 \<Rightarrow> http_request \<Rightarrow> (nat \<times> string) + Identity" where
  "RequireInternal cfg idp now rq = authorize cfg idp now True rq"

section \<open>Who is admitted\<close>

lemma Authenticate_ok:
  assumes "Authenticate cfg idp now token = Inr identity"
  obtains claims where "introspect (idp token) = Inr claims" and "tc_Active claims"
    and "tc_Issuer claims = ac_IssuerURL cfg" and "hasAudience (tc_Audience claims) (ac_Audience cfg)"
    and "sint (tc_NotBefore claims) \<le> sint now" and "sint now < sint (tc_ExpiresAt claims)"
    and "id_ProviderID identity = tc_ProviderID claims" and "id_Subject identity = tc_Subject claims"
    and "id_internal identity \<longleftrightarrow> (\<exists>roles. tc_ResourceAccess claims (ac_Audience cfg) = Some roles \<and> ''internal'' \<in> set roles)"
    and "id_provider identity \<longleftrightarrow> (\<exists>roles. tc_ResourceAccess claims (ac_Audience cfg) = Some roles \<and> ''provider'' \<in> set roles) \<and>
      \<not> TrimSpace_is_empty (id_ProviderID identity) \<and> utf8_ValidString (id_ProviderID identity) \<and>
      utf8_RuneCountInString (id_ProviderID identity) \<le> 100"
proof -
  have token: "\<not> TrimSpace_is_empty token" using assms by (auto simp: Authenticate_def)
  obtain claims where claims: "introspect (idp token) = Inr claims"
    using assms token by (auto simp: Authenticate_def split: sum.splits)
  have "tc_Active claims" "tc_Issuer claims = ac_IssuerURL cfg" "hasAudience (tc_Audience claims) (ac_Audience cfg)"
    "sint (tc_NotBefore claims) \<le> sint now" "sint now < sint (tc_ExpiresAt claims)"
    using assms token by (auto simp: Authenticate_def claims split: if_splits)
  moreover have "identity = (let roles = (case tc_ResourceAccess claims (ac_Audience cfg) of None \<Rightarrow> [] | Some rs \<Rightarrow> rs);
      provider = tc_ProviderID claims;
      named = (\<not> TrimSpace_is_empty provider \<and> utf8_ValidString provider \<and> utf8_RuneCountInString provider \<le> 100)
      in \<lparr>id_Subject = tc_Subject claims, id_ProviderID = provider,
          id_provider = (''provider'' \<in> set roles \<and> named), id_internal = (''internal'' \<in> set roles)\<rparr>)"
    using assms token by (simp add: Authenticate_def claims Let_def split: if_splits)
  ultimately show ?thesis
    using that [of claims] claims by (cases "tc_ResourceAccess claims (ac_Audience cfg)") (simp_all add: Let_def)
qed

lemma authorize_ok:
  assumes "authorize cfg idp now internal rq = Inr identity"
  obtains "value" scheme token where "rq_headers rq ''Authorization'' = [value]" and "Fields value = [scheme, token]"
    and "EqualFold scheme ''Bearer''" and "Authenticate cfg idp now token = Inr identity"
    and "if internal then id_internal identity \<and> \<not> id_provider identity \<and> id_ProviderID identity = []
         else id_provider identity \<and> \<not> id_internal identity"
  using assms
  by (auto simp: authorize_def Let_def split: list.splits if_splits sum.splits auth_error.splits)

text \<open>C20: The API is closed to everybody but the holder of a live token of the right kind: a request is admitted only when it
  carries one bearer token that the identity provider reports active, for this audience, from this issuer and within
  its time; the routes of the providers need the provider role and a usable provider identifier and refuse internal
  tokens, the internal routes need the internal role and refuse tokens that name a provider, so that no request
  opens both sides; and while the identity provider does not answer nobody is admitted.\<close>

theorem admitted_only_with_live_token:
  assumes "authorize cfg idp now internal rq = Inr identity"
  shows "\<exists>value scheme token claims roles.
    rq_headers rq ''Authorization'' = [value] \<and> Fields value = [scheme, token] \<and> EqualFold scheme ''Bearer'' \<and>
    introspect (idp token) = Inr claims \<and> tc_Active claims \<and> tc_Issuer claims = ac_IssuerURL cfg \<and>
    hasAudience (tc_Audience claims) (ac_Audience cfg) \<and>
    sint (tc_NotBefore claims) \<le> sint now \<and> sint now < sint (tc_ExpiresAt claims) \<and>
    id_ProviderID identity = tc_ProviderID claims \<and> tc_ResourceAccess claims (ac_Audience cfg) = Some roles \<and>
    (if internal then ''internal'' \<in> set roles \<and> tc_ProviderID claims = []
     else ''provider'' \<in> set roles \<and> ''internal'' \<notin> set roles \<and> \<not> TrimSpace_is_empty (tc_ProviderID claims) \<and>
       utf8_ValidString (tc_ProviderID claims) \<and> utf8_RuneCountInString (tc_ProviderID claims) \<le> 100) \<and>
    (\<forall>other. authorize cfg idp now (\<not> internal) rq \<noteq> Inr other)"
  using assms
proof (cases rule: authorize_ok)
  case (1 v scheme token)
  from 1(4) obtain claims where c: "introspect (idp token) = Inr claims" "tc_Active claims"
    "tc_Issuer claims = ac_IssuerURL cfg" "hasAudience (tc_Audience claims) (ac_Audience cfg)"
    "sint (tc_NotBefore claims) \<le> sint now" "sint now < sint (tc_ExpiresAt claims)"
    "id_ProviderID identity = tc_ProviderID claims"
    "id_internal identity \<longleftrightarrow> (\<exists>roles. tc_ResourceAccess claims (ac_Audience cfg) = Some roles \<and> ''internal'' \<in> set roles)"
    "id_provider identity \<longleftrightarrow> (\<exists>roles. tc_ResourceAccess claims (ac_Audience cfg) = Some roles \<and> ''provider'' \<in> set roles) \<and>
      \<not> TrimSpace_is_empty (id_ProviderID identity) \<and> utf8_ValidString (id_ProviderID identity) \<and>
      utf8_RuneCountInString (id_ProviderID identity) \<le> 100"
    by (rule Authenticate_ok)
  have "authorize cfg idp now (\<not> internal) rq \<noteq> Inr other" for other
  proof
    assume "authorize cfg idp now (\<not> internal) rq = Inr other"
    then show False
      by (cases rule: authorize_ok) (use 1 in \<open>auto split: if_splits\<close>)
  qed
  then show ?thesis
    using 1 c by (intro exI [of _ v] exI [of _ scheme] exI [of _ token] exI [of _ claims])
      (cases "tc_ResourceAccess claims (ac_Audience cfg)"; auto split: if_splits)
qed

text \<open>A token of a provider.\<close>

definition sample_settings :: auth_Config where
  "sample_settings = \<lparr>ac_IssuerURL = ''i'', ac_Audience = ''a'', ac_ClientID = ''c'', ac_ClientSecret = ''x''\<rparr>"

definition sample_claims_body :: string where
  "sample_claims_body =
     ''{'' @ quoted ''active'' @ '':true,'' @ quoted ''iss'' @ '':'' @ quoted ''i'' @ '','' @
     quoted ''aud'' @ '':'' @ quoted ''a'' @ '','' @ quoted ''sub'' @ '':'' @ quoted ''s'' @ '','' @
     quoted ''exp'' @ '':9,'' @ quoted ''token_type'' @ '':'' @ quoted ''Bearer'' @ '','' @
     quoted ''providerId'' @ '':'' @ quoted ''p'' @ '','' @
     quoted ''resource_access'' @ '':{'' @ quoted ''a'' @ '':{'' @ quoted ''roles'' @ '':['' @ quoted ''provider'' @ '']}}}''"

definition sample_claims_value :: json where
  "sample_claims_value =
     JObject [(''active'', JBool True), (''iss'', JString ''i''), (''aud'', JString ''a''), (''sub'', JString ''s''),
       (''exp'', JNumber ''9''), (''token_type'', JString ''Bearer''), (''providerId'', JString ''p''),
       (''resource_access'', JObject [(''a'', JObject [(''roles'', JArray [JString ''provider''])])])]"

lemma scan_quoted:
  "plain s \<Longrightarrow> scan BeginValue st (quoted s @ r) = resume (complete (JString s) st) r"
  "plain s \<Longrightarrow> scan BeginString (InObject ms k # st) (quoted s @ r) = scan EndKey (InObject ms s # st) r"
  "plain s \<Longrightarrow> scan BeginStringOrEmpty (InObject ms k # st) (quoted s @ r) = scan EndKey (InObject ms s # st) r"
  "plain s \<Longrightarrow> scan BeginValueOrEmpty st (quoted s @ r) = resume (complete (JString s) st) r"
proof -
  have "quote_char \<noteq> CHR '']''" by (simp add: quote_char_def)
  then show
    "plain s \<Longrightarrow> scan BeginValue st (quoted s @ r) = resume (complete (JString s) st) r"
    "plain s \<Longrightarrow> scan BeginString (InObject ms k # st) (quoted s @ r) = scan EndKey (InObject ms s # st) r"
    "plain s \<Longrightarrow> scan BeginStringOrEmpty (InObject ms k # st) (quoted s @ r) = scan EndKey (InObject ms s # st) r"
    "plain s \<Longrightarrow> scan BeginValueOrEmpty st (quoted s @ r) = resume (complete (JString s) st) r"
    by (simp_all add: quoted_def scan_plain end_string_def begin_value_def structure_chars)
qed

lemma sample_claims_scanned: "decode_value sample_claims_body = Some (sample_claims_value, [])"
proof -
  have names: "plain ''active''" "plain ''iss''" "plain ''i''" "plain ''aud''" "plain ''a''" "plain ''sub''" "plain ''s''"
    "plain ''exp''" "plain ''token_type''" "plain ''Bearer''" "plain ''providerId''" "plain ''p''" "plain ''resource_access''"
    "plain ''roles''" "plain ''provider''"
    by code_simp+
  have nine: "is_digit (CHR ''9'')" "\<not> is_digit (CHR '','')" by (simp_all add: is_digit_def byte_in_def byte_def)
  show ?thesis
    unfolding sample_claims_body_def sample_claims_value_def decode_value_def
    by (simp add: scan_quoted names begin_value_def end_value_def push_def json_space_def byte_def quote_char_def max_nesting_def
        nine number_complete_def del: list.pred_inject)
qed

definition sample_claims :: tokenClaims where
  "sample_claims =
     \<lparr>tc_Active = True, tc_Issuer = ''i'', tc_Audience = Some (JString ''a''), tc_Subject = ''s'', tc_ExpiresAt = 9,
      tc_NotBefore = 0, tc_TokenType = ''Bearer'', tc_ProviderID = ''p'', tc_ResourceAccess = [''a'' \<mapsto> [''provider'']]\<rparr>"

definition sample_idp :: "string \<Rightarrow> idp_answer" where
  "sample_idp token = IdpAnswer 200 sample_claims_body"

lemma sample_introspection: "introspect (sample_idp token) = Inr sample_claims"
proof -
  have "length sample_claims_body \<le> max_body"
    by (simp add: sample_claims_body_def quoted_def max_body_def)
  moreover have "store_struct False claim_fields sample_claims_value zero_claims = Some sample_claims"
  proof -
    have "unquote ''active'' = ''active''" "unquote ''iss'' = ''iss''" "unquote ''i'' = ''i''" "unquote ''aud'' = ''aud''"
      "unquote ''a'' = ''a''" "unquote ''sub'' = ''sub''" "unquote ''s'' = ''s''" "unquote ''exp'' = ''exp''"
      "unquote ''token_type'' = ''token_type''" "unquote ''Bearer'' = ''Bearer''" "unquote ''providerId'' = ''providerId''"
      "unquote ''p'' = ''p''" "unquote ''resource_access'' = ''resource_access''" "unquote ''roles'' = ''roles''"
      "unquote ''provider'' = ''provider''"
      by (intro unquote_plain; code_simp)+
    moreover have "ParseInt ''9'' = Inr 9"
      using ParseInt_digits [of "''9''"] by (simp add: is_digit_def byte_in_def byte_def)
    ultimately show ?thesis
      by (simp add: sample_claims_value_def store_struct_def claim_fields_def field_of_def store_bool_def store_string_def
          store_int64_def store_access_def store_strings_def zero_claims_def sample_claims_def)
  qed
  ultimately show ?thesis by (simp add: introspect_def sample_idp_def sample_claims_scanned)
qed

definition sample_http :: http_request where
  "sample_http =
     \<lparr>rq_headers = (\<lambda>h. if h = ''Authorization'' then [''bearer t''] else []), rq_path_value = (\<lambda>_. []), rq_RawQuery = [],
      rq_body = [], rq_body_broken = False\<rparr>"

lemma sample_authenticated:
  "Authenticate sample_settings sample_idp 5 ''t'' =
     Inr \<lparr>id_Subject = ''s'', id_ProviderID = ''p'', id_provider = True, id_internal = False\<rparr>"
proof -
  have "hasAudience (Some (JString ''a'')) ''a''" "EqualFold ''Bearer'' ''Bearer''" "\<not> TrimSpace_is_empty ''t''"
    "\<not> TrimSpace_is_empty ''p''" "utf8_ValidString ''p''" "utf8_RuneCountInString ''p'' \<le> 100"
    by code_simp+
  then show ?thesis
    by (simp add: Authenticate_def sample_introspection sample_claims_def sample_settings_def Let_def
        del: TrimSpace_is_empty.simps utf8_ValidString.simps utf8_RuneCountInString.simps)
qed

lemma sample_admitted:
  "RequireProvider sample_settings sample_idp 5 sample_http =
     Inr \<lparr>id_Subject = ''s'', id_ProviderID = ''p'', id_provider = True, id_internal = False\<rparr>"
proof -
  have "Fields ''bearer t'' = [''bearer'', ''t'']" "EqualFold ''bearer'' ''Bearer''" by code_simp+
  then show ?thesis by (simp add: RequireProvider_def authorize_def sample_http_def sample_authenticated)
qed

theorem admitted_only_with_live_token_witness:
  "\<exists>identity token claims roles.
     RequireProvider sample_settings sample_idp 5 sample_http = Inr identity \<and>
     introspect (sample_idp token) = Inr claims \<and> tc_ResourceAccess claims ''a'' = Some roles \<and> ''provider'' \<in> set roles"
  using admitted_only_with_live_token [OF sample_admitted [unfolded RequireProvider_def]] sample_admitted
  by (auto simp: sample_settings_def)

end
