(* ===== verification/IamPolicy.thy ===== *)
theory IamPolicy
  imports PathMatch Auth
begin

text \<open>
  \<open>internal/infrastructure/messaging/iam_policy.go\<close>: the checks of the policies of the queues, from the text of a policy.
  What they admit is stated over what a policy permits: an \<open>Allow\<close> statement permits the actions that its patterns cover
  to the principals that it names, and to everybody when it names the wildcard.
\<close>

section \<open>The shape of a policy\<close>

record queuePolicyPrincipal =
  qp_AWS :: "string list"

record queuePolicyStatement =
  qs_Effect :: string
  qs_Action :: "string list"
  qs_Principal :: queuePolicyPrincipal

text \<open>The statements, and what the array behind their slice still holds from an earlier member of that name.\<close>

record queuePolicy =
  pl_Statement :: "queuePolicyStatement list"
  pl_spare :: "queuePolicyStatement list"

text \<open>\<open>stringList\<close>: one text or an array of texts; \<open>null\<close> is read as one empty text.\<close>

definition store_stringList :: "json \<Rightarrow> string list \<Rightarrow> string list option" where
  "store_stringList v old =
     (case store_string v [] of
        Some single \<Rightarrow> Some [single]
      | None \<Rightarrow> store_strings v [])"

definition principal_fields :: "(string \<times> (json \<Rightarrow> queuePolicyPrincipal \<Rightarrow> queuePolicyPrincipal option)) list" where
  "principal_fields = [(''AWS'', \<lambda>v p. map_option (\<lambda>l. p\<lparr>qp_AWS := l\<rparr>) (store_stringList v (qp_AWS p)))]"

definition statement_fields :: "(string \<times> (json \<Rightarrow> queuePolicyStatement \<Rightarrow> queuePolicyStatement option)) list" where
  "statement_fields =
     [(''Effect'', \<lambda>v s. map_option (\<lambda>e. s\<lparr>qs_Effect := e\<rparr>) (store_string v (qs_Effect s))),
      (''Action'', \<lambda>v s. map_option (\<lambda>l. s\<lparr>qs_Action := l\<rparr>) (store_stringList v (qs_Action s))),
      (''Principal'', \<lambda>v s. map_option (\<lambda>p. s\<lparr>qs_Principal := p\<rparr>)
         (store_struct False principal_fields v (qs_Principal s)))]"

definition zero_statement :: queuePolicyStatement where
  "zero_statement = \<lparr>qs_Effect = [], qs_Action = [], qs_Principal = \<lparr>qp_AWS = []\<rparr>\<rparr>"

text \<open>The elements of an array are read over what the slice has at their places.\<close>

fun store_statements :: "json list \<Rightarrow> queuePolicyStatement list \<Rightarrow> queuePolicyStatement list option" where
  "store_statements [] old = Some []"
| "store_statements (v # vs) old =
     (case store_struct False statement_fields v (case old of [] \<Rightarrow> zero_statement | s # _ \<Rightarrow> s) of
        None \<Rightarrow> None
      | Some s \<Rightarrow> map_option ((#) s) (store_statements vs (drop 1 old)))"

definition store_policy_statements :: "json \<Rightarrow> queuePolicy \<Rightarrow> queuePolicy option" where
  "store_policy_statements v p =
     (let old = pl_Statement p @ pl_spare p in
      case v of
        JArray vs \<Rightarrow>
          map_option (\<lambda>ss. \<lparr>pl_Statement = ss, pl_spare = (if vs = [] then [] else drop (length vs) old)\<rparr>)
            (store_statements vs old)
      | JNull \<Rightarrow> Some \<lparr>pl_Statement = [], pl_spare = []\<rparr>
      | _ \<Rightarrow> None)"

definition policy_fields :: "(string \<times> (json \<Rightarrow> queuePolicy \<Rightarrow> queuePolicy option)) list" where
  "policy_fields = [(''Statement'', store_policy_statements)]"

text \<open>\<open>strings.TrimSpace\<close> and \<open>json.Unmarshal\<close> into a policy; \<open>None\<close> is an error.\<close>

definition read_policy :: "string \<Rightarrow> queuePolicy option" where
  "read_policy raw =
     (if TrimSpace_is_empty raw then None
      else
        (case unmarshal_value raw of
           None \<Rightarrow> None
         | Some v \<Rightarrow> store_struct False policy_fields v \<lparr>pl_Statement = [], pl_spare = []\<rparr>))"

section \<open>The checks\<close>

datatype policy_error =
    PolicyRequired | NoExplicitPrincipals | NotGranted | WildcardAdministration
  | RedriveRequired | RedriveNotByQueue | RedriveOtherSource

definition hasAction :: "string list \<Rightarrow> string \<Rightarrow> bool" where
  "hasAction actions required \<longleftrightarrow> list_ex (\<lambda>action. Match (ToLower action) (ToLower required)) actions"

definition validPrincipals :: "string list \<Rightarrow> bool" where
  "validPrincipals principals \<longleftrightarrow>
     list_all (\<lambda>principal. \<not> TrimSpace_is_empty principal \<and> principal \<noteq> ''*'') principals \<and> principals \<noteq> []"

definition hasWildcardPrincipal :: "string list \<Rightarrow> bool" where
  "hasWildcardPrincipal principals \<longleftrightarrow> list_ex (\<lambda>principal. principal = ''*'') principals"

text \<open>The loop over the statements, with whether one granted the action so far.\<close>

fun check_statements :: "queuePolicyStatement list \<Rightarrow> string \<Rightarrow> bool \<Rightarrow> policy_error option" where
  "check_statements [] requiredAction granted = (if granted then None else Some NotGranted)"
| "check_statements (statement # rest) requiredAction granted =
     (if \<not> EqualFold (qs_Effect statement) ''Allow'' \<or> \<not> hasAction (qs_Action statement) requiredAction
      then check_statements rest requiredAction granted
      else if \<not> validPrincipals (qp_AWS (qs_Principal statement)) then Some NoExplicitPrincipals
      else check_statements rest requiredAction True)"

definition validateQueuePolicy :: "string \<Rightarrow> string \<Rightarrow> policy_error option" where
  "validateQueuePolicy raw requiredAction =
     (case read_policy raw of
        None \<Rightarrow> Some PolicyRequired
      | Some policy \<Rightarrow> check_statements (pl_Statement policy) requiredAction False)"

definition administration_actions :: "string list" where
  "administration_actions =
     [''sqs:ReceiveMessage'', ''sqs:DeleteMessage'', ''sqs:ChangeMessageVisibility'', ''sqs:SetQueueAttributes'']"

fun check_wildcards :: "queuePolicyStatement list \<Rightarrow> policy_error option" where
  "check_wildcards [] = None"
| "check_wildcards (statement # rest) =
     (if \<not> EqualFold (qs_Effect statement) ''Allow'' \<or> \<not> hasWildcardPrincipal (qp_AWS (qs_Principal statement))
      then check_wildcards rest
      else if list_ex (hasAction (qs_Action statement)) administration_actions then Some WildcardAdministration
      else check_wildcards rest)"

definition validateNoWildcardAdministration :: "string \<Rightarrow> policy_error option" where
  "validateNoWildcardAdministration raw =
     (case read_policy raw of
        None \<Rightarrow> Some PolicyRequired
      | Some policy \<Rightarrow> check_wildcards (pl_Statement policy))"

record redrive_allow_policy =
  rd_RedrivePermission :: string
  rd_SourceQueueARNs :: "string list"

definition redrive_allow_fields :: "(string \<times> (json \<Rightarrow> redrive_allow_policy \<Rightarrow> redrive_allow_policy option)) list" where
  "redrive_allow_fields =
     [(''redrivePermission'', \<lambda>v p. map_option (\<lambda>s. p\<lparr>rd_RedrivePermission := s\<rparr>) (store_string v (rd_RedrivePermission p))),
      (''sourceQueueArns'', \<lambda>v p. map_option (\<lambda>l. p\<lparr>rd_SourceQueueARNs := l\<rparr>)
         (store_stringList v (rd_SourceQueueARNs p)))]"

definition validateRedriveAllowPolicy :: "string \<Rightarrow> string \<Rightarrow> policy_error option" where
  "validateRedriveAllowPolicy raw sourceARN =
     (if TrimSpace_is_empty raw then Some RedriveRequired
      else
        (case unmarshal_value raw of
           None \<Rightarrow> Some RedriveRequired
         | Some v \<Rightarrow>
             (case store_struct False redrive_allow_fields v \<lparr>rd_RedrivePermission = [], rd_SourceQueueARNs = []\<rparr> of
                None \<Rightarrow> Some RedriveRequired
              | Some policy \<Rightarrow>
                  if rd_RedrivePermission policy \<noteq> ''byQueue'' then Some RedriveNotByQueue
                  else if rd_SourceQueueARNs policy = [sourceARN] then None
                  else Some RedriveOtherSource)))"


section \<open>What an accepted policy permits\<close>

text \<open>The actions that the code asks about, and the patterns that policies are written with.\<close>

definition checked_actions :: "string list" where
  "checked_actions = ''sqs:SendMessage'' # administration_actions"

definition simple_policy :: "queuePolicy \<Rightarrow> bool" where
  "simple_policy policy \<longleftrightarrow> (\<forall>st \<in> set (pl_Statement policy). \<forall>a \<in> set (qs_Action st). simple_pattern a)"

text \<open>A statement covers an action when one of its patterns means it, whatever the case of the letters.\<close>

definition covers :: "queuePolicyStatement \<Rightarrow> string \<Rightarrow> bool" where
  "covers st action \<longleftrightarrow> (\<exists>pattern \<in> set (qs_Action st). glob (ToLower pattern) (ToLower action))"

definition permits :: "queuePolicy \<Rightarrow> string \<Rightarrow> string \<Rightarrow> bool" where
  "permits policy who action \<longleftrightarrow>
     (\<exists>st \<in> set (pl_Statement policy). EqualFold (qs_Effect st) ''Allow'' \<and> covers st action \<and>
        (who \<in> set (qp_AWS (qs_Principal st)) \<or> ''*'' \<in> set (qp_AWS (qs_Principal st))))"

definition names_principal :: "queuePolicy \<Rightarrow> string \<Rightarrow> bool" where
  "names_principal policy who \<longleftrightarrow>
     who \<noteq> ''*'' \<and> (\<exists>st \<in> set (pl_Statement policy). who \<in> set (qp_AWS (qs_Principal st)))"

lemma replacement_rune_bytes: "c \<in> set replacement_rune \<Longrightarrow> 128 \<le> byte c"
  by (auto simp: replacement_rune_def byte_def)

lemma ToLower_simple:
  assumes "simple_pattern s"
  shows "simple_pattern (ToLower s)"
proof -
  have "simple_pattern (label_ToLower n s)" for n
    using assms
  proof (induction n s rule: label_ToLower.induct)
    case (3 c r)
    have "CHR ''['' \<notin> set replacement_rune" "backslash_char \<notin> set replacement_rune"
      using replacement_rune_bytes by (force simp: byte_def backslash_char_def)+
    moreover have "char_of (byte c + 32) \<noteq> CHR ''[''" "char_of (byte c + 32) \<noteq> backslash_char" if "byte_in 65 90 c"
      using that by (auto simp: byte_in_def byte_def backslash_char_def dest!: arg_cong [where f = "of_char :: char \<Rightarrow> nat"])
    ultimately show ?case
      using 3 by (auto simp: simple_pattern_def backslash_char_def split: option.split dest!: in_set_takeD)
  qed (simp_all add: simple_pattern_def)
  then show ?thesis by (simp add: ToLower_def)
qed

lemma checked_action_simple: "action \<in> set checked_actions \<Longrightarrow> simple_name (ToLower action)"
proof -
  have "list_all (\<lambda>action. list_all (\<lambda>c. byte c < 128 \<and> c \<noteq> CHR ''/'') (ToLower action)) checked_actions"
    by code_simp
  then show "action \<in> set checked_actions \<Longrightarrow> simple_name (ToLower action)"
    unfolding simple_name_def list_all_iff by blast
qed

lemma hasAction_covers:
  assumes "\<forall>a \<in> set (qs_Action st). simple_pattern a" and "action \<in> set checked_actions"
  shows "hasAction (qs_Action st) action \<longleftrightarrow> covers st action"
  using assms(1) Match_glob [OF ToLower_simple checked_action_simple [OF assms(2)]]
  by (auto simp: hasAction_def covers_def list_ex_iff)

lemma check_statements_None:
  "check_statements sts action granted = None \<longleftrightarrow>
     (\<forall>st \<in> set sts. EqualFold (qs_Effect st) ''Allow'' \<and> hasAction (qs_Action st) action \<longrightarrow>
        validPrincipals (qp_AWS (qs_Principal st))) \<and>
     (granted \<or> (\<exists>st \<in> set sts. EqualFold (qs_Effect st) ''Allow'' \<and> hasAction (qs_Action st) action))"
  by (induction sts action granted rule: check_statements.induct) auto

lemma check_wildcards_None:
  "check_wildcards sts = None \<longleftrightarrow>
     (\<forall>st \<in> set sts. EqualFold (qs_Effect st) ''Allow'' \<and> ''*'' \<in> set (qp_AWS (qs_Principal st)) \<longrightarrow>
        (\<forall>action \<in> set administration_actions. \<not> hasAction (qs_Action st) action))"
  by (induction sts rule: check_wildcards.induct) (auto simp: hasWildcardPrincipal_def list_ex_iff)

text \<open>C28: The patterns of the actions of a policy are decided by their meaning: Go's greedy search finds a pattern of the list
  that covers an action of the queue, in any case of the letters, exactly when one of them matches it for some choice
  of what its stars stand for.\<close>

theorem hasAction_is_meaning:
  assumes "\<forall>a \<in> set actions. simple_pattern a" and "action \<in> set checked_actions"
  shows "hasAction actions action \<longleftrightarrow> (\<exists>pattern \<in> set actions. glob (ToLower pattern) (ToLower action))"
  using hasAction_covers [of "\<lparr>qs_Effect = [], qs_Action = actions, qs_Principal = \<lparr>qp_AWS = []\<rparr>\<rparr>", OF _ assms(2)] assms(1)
  by (simp add: covers_def)

theorem hasAction_is_meaning_witness:
  "hasAction [''SQS:Get*'', ''sqs:*Send??ss*''] ''sqs:SendMessage'' \<and> \<not> hasAction [''sqs:Sen?Mess''] ''sqs:SendMessage''"
proof -
  have "''sqs:SendMessage'' \<in> set checked_actions" by (simp add: checked_actions_def)
  note meaning = hasAction_is_meaning [OF _ this]
  have "glob (ToLower ''sqs:*Send??ss*'') (ToLower ''sqs:SendMessage'')" "\<not> glob (ToLower ''sqs:Sen?Mess'') (ToLower ''sqs:SendMessage'')"
    by code_simp+
  then show ?thesis
    using meaning [of "[''SQS:Get*'', ''sqs:*Send??ss*'']"] meaning [of "[''sqs:Sen?Mess'']"]
    by (simp add: simple_pattern_def backslash_char_def)
qed

text \<open>
  When the policy of a queue passes both checks, somebody who is named in it may send, and whoever may send, receive,
  delete, change the visibility or set the attributes is named in it.
\<close>

definition closed_to_strangers :: "queuePolicy \<Rightarrow> bool" where
  "closed_to_strangers policy \<longleftrightarrow>
     (\<exists>who. names_principal policy who \<and> permits policy who ''sqs:SendMessage'') \<and>
     (\<forall>who action. action \<in> set checked_actions \<and> who \<noteq> ''*'' \<and> permits policy who action \<longrightarrow>
        names_principal policy who)"

lemma accepted_policy_closed:
  assumes "validateQueuePolicy raw ''sqs:SendMessage'' = None" and "validateNoWildcardAdministration raw = None"
    and "read_policy raw = Some policy" and "simple_policy policy"
  shows "closed_to_strangers policy"
proof -
  have has: "hasAction (qs_Action st) action \<longleftrightarrow> covers st action"
    if "st \<in> set (pl_Statement policy)" "action \<in> set checked_actions" for st action
    using hasAction_covers that assms(4) unfolding simple_policy_def by blast
  have send: "''sqs:SendMessage'' \<in> set checked_actions" by (simp add: checked_actions_def)
  have sends: "check_statements (pl_Statement policy) ''sqs:SendMessage'' False = None"
    and admin: "check_wildcards (pl_Statement policy) = None"
    using assms(1-3) by (simp_all add: validateQueuePolicy_def validateNoWildcardAdministration_def)
  obtain st where st: "st \<in> set (pl_Statement policy)" "EqualFold (qs_Effect st) ''Allow''" "covers st ''sqs:SendMessage''"
    "validPrincipals (qp_AWS (qs_Principal st))"
    using sends has [OF _ send] unfolding check_statements_None by blast
  then obtain p where "p \<in> set (qp_AWS (qs_Principal st))" "p \<noteq> ''*''"
    by (cases "qp_AWS (qs_Principal st)") (auto simp: validPrincipals_def)
  then have "names_principal policy p \<and> permits policy p ''sqs:SendMessage''"
    using st unfolding names_principal_def permits_def by blast
  moreover have "''*'' \<notin> set (qp_AWS (qs_Principal st))"
    if "st \<in> set (pl_Statement policy)" "EqualFold (qs_Effect st) ''Allow''" "covers st action" "action \<in> set checked_actions"
    for st action
  proof (cases "action = ''sqs:SendMessage''")
    case True
    then show ?thesis
      using sends that has [OF that(1) send] unfolding check_statements_None by (auto simp: validPrincipals_def list_all_iff)
  next
    case False
    then show ?thesis
      using admin that has [OF that(1,4)] unfolding check_wildcards_None checked_actions_def by auto
  qed
  ultimately show ?thesis unfolding closed_to_strangers_def names_principal_def permits_def by blast
qed


section \<open>Two policies\<close>

text \<open>A policy of one statement, for one sender; and one that opens everything but the sending to everybody.\<close>

definition sample_policy_text :: string where
  "sample_policy_text =
     ''{'' @ quoted ''Statement'' @ '':[{'' @ quoted ''Effect'' @ '':'' @ quoted ''Allow'' @ '','' @ quoted ''Action'' @ '':'' @
     quoted ''sqs:Send*'' @ '','' @ quoted ''Principal'' @ '':{'' @ quoted ''AWS'' @ '':['' @ quoted ''arn'' @ '']}}]}''"

definition open_policy_text :: string where
  "open_policy_text =
     ''{'' @ quoted ''Statement'' @ '':[{'' @ quoted ''Effect'' @ '':'' @ quoted ''Allow'' @ '','' @ quoted ''NotAction'' @ '':'' @
     quoted ''sqs:Send*'' @ '','' @ quoted ''Principal'' @ '':{'' @ quoted ''AWS'' @ '':'' @ quoted ''*'' @ ''}}]}''"

lemmas scan_structure =
  scan_quoted begin_value_def end_value_def push_def json_space_def byte_def quote_char_def max_nesting_def

lemma policy_names:
  "plain ''Statement''" "plain ''Effect''" "plain ''Allow''" "plain ''Action''" "plain ''NotAction''" "plain ''sqs:Send*''"
  "plain ''Principal''" "plain ''AWS''" "plain ''arn''" "plain ''*''"
  by code_simp+

lemmas unquote_policy = policy_names [THEN unquote_plain]

lemmas store_policy = store_struct_def policy_fields_def statement_fields_def principal_fields_def field_of_def
  store_policy_statements_def store_string_def store_stringList_def store_strings_def zero_statement_def Let_def

definition sample_queue_policy :: queuePolicy where
  "sample_queue_policy =
     \<lparr>pl_Statement = [\<lparr>qs_Effect = ''Allow'', qs_Action = [''sqs:Send*''], qs_Principal = \<lparr>qp_AWS = [''arn'']\<rparr>\<rparr>], pl_spare = []\<rparr>"

lemma read_sample_policy: "read_policy sample_policy_text = Some sample_queue_policy"
proof -
  have "decode_value sample_policy_text =
      Some (JObject [(''Statement'', JArray [JObject [(''Effect'', JString ''Allow''), (''Action'', JString ''sqs:Send*''),
        (''Principal'', JObject [(''AWS'', JArray [JString ''arn''])])]])], [])"
    unfolding sample_policy_text_def decode_value_def
    by (simp add: policy_names scan_structure del: list.pred_inject)
  moreover have "\<not> TrimSpace_is_empty sample_policy_text"
    by (simp add: sample_policy_text_def rune_width_def byte_def rune_is_space_def)
  ultimately show ?thesis
    by (simp add: read_policy_def unmarshal_value_def at_EOF_def store_policy unquote_policy sample_queue_policy_def del: TrimSpace_is_empty.simps)
qed

lemma read_open_policy:
  "read_policy open_policy_text =
     Some \<lparr>pl_Statement = [\<lparr>qs_Effect = ''Allow'', qs_Action = [], qs_Principal = \<lparr>qp_AWS = [''*'']\<rparr>\<rparr>], pl_spare = []\<rparr>"
proof -
  have "decode_value open_policy_text =
      Some (JObject [(''Statement'', JArray [JObject [(''Effect'', JString ''Allow''), (''NotAction'', JString ''sqs:Send*''),
        (''Principal'', JObject [(''AWS'', JString ''*'')])]])], [])"
    unfolding open_policy_text_def decode_value_def
    by (simp add: policy_names scan_structure del: list.pred_inject)
  moreover have "\<not> TrimSpace_is_empty open_policy_text"
    by (simp add: open_policy_text_def rune_width_def byte_def rune_is_space_def)
  moreover have "fold_name ''NotAction'' \<noteq> fold_name ''Effect''" "fold_name ''NotAction'' \<noteq> fold_name ''Action''"
    "fold_name ''NotAction'' \<noteq> fold_name ''Principal''"
    by code_simp+
  ultimately show ?thesis
    by (simp add: read_policy_def unmarshal_value_def at_EOF_def store_policy unquote_policy
        del: TrimSpace_is_empty.simps fold_name.simps)
qed

lemma sample_covers: "hasAction [''sqs:Send*''] ''sqs:SendMessage''"
proof -
  have "simple_pattern ''sqs:Send*''" by (simp add: simple_pattern_def backslash_char_def)
  then have meaning: "hasAction [''sqs:Send*''] action \<longleftrightarrow> glob (ToLower ''sqs:Send*'') (ToLower action)"
    if "action \<in> set checked_actions" for action
    using Match_glob [OF ToLower_simple checked_action_simple [OF that]] by (simp add: hasAction_def)
  have "glob (ToLower ''sqs:Send*'') (ToLower ''sqs:SendMessage'')" by code_simp
  then show ?thesis using meaning by (simp add: checked_actions_def)
qed

text \<open>An \<open>Allow\<close> statement with \<open>NotAction\<close> permits every action but those; the checks do not see it.\<close>

lemma open_policy_passes: "validateNoWildcardAdministration open_policy_text = None"
  by (simp add: validateNoWildcardAdministration_def read_open_policy hasAction_def administration_actions_def)

lemma sample_policy_accepted:
  "validateQueuePolicy sample_policy_text ''sqs:SendMessage'' = None"
  "validateNoWildcardAdministration sample_policy_text = None"
proof -
  have "EqualFold ''Allow'' ''Allow''" "validPrincipals [''arn'']" by code_simp+
  then have "check_statements (pl_Statement sample_queue_policy) ''sqs:SendMessage'' False = None"
    using sample_covers by (simp add: sample_queue_policy_def)
  moreover have "\<not> hasWildcardPrincipal [''arn'']" by (simp add: hasWildcardPrincipal_def)
  then have "check_wildcards (pl_Statement sample_queue_policy) = None" by (simp add: sample_queue_policy_def)
  ultimately show "validateQueuePolicy sample_policy_text ''sqs:SendMessage'' = None"
      "validateNoWildcardAdministration sample_policy_text = None"
    by (simp_all add: validateQueuePolicy_def validateNoWildcardAdministration_def read_sample_policy)
qed

lemma sample_queue_policy_simple: "simple_policy sample_queue_policy"
  by (simp add: sample_queue_policy_def simple_policy_def simple_pattern_def backslash_char_def)

end
