(* ===== verification/Wallet.thy ===== *)
theory Wallet
  imports Money
begin

text \<open>
  \<open>internal/domain/wallet.go\<close>: a wallet with its balance and version, credits and debits. A pointer the code
  tests for \<open>nil\<close> is an \<open>option\<close>; the clock reading of \<open>time.Now()\<close> and the identifier of
  \<open>uuid.New()\<close> are arguments.
\<close>

section \<open>The type and its operations\<close>

record wallet =
  w_id :: uuid
  w_playerID :: uuid
  w_balance :: money
  w_version :: i64
  w_createdAt :: time
  w_updatedAt :: time

definition NewWallet :: "uuid \<Rightarrow> time \<Rightarrow> uuid \<Rightarrow> money \<Rightarrow> error + wallet" where
  "NewWallet fresh now playerID initialBalance =
     (if playerID = uuid_Nil then Inl ErrInvalidWallet
      else if Money_Validate initialBalance \<noteq> None then Inl ErrInvalidWallet
      else if amount initialBalance <s 0 then Inl ErrInvalidWallet
      else Inr \<lparr>w_id = fresh, w_playerID = playerID, w_balance = initialBalance, w_version = 1,
                w_createdAt = now, w_updatedAt = now\<rparr>)"

definition Wallet_validateMovement :: "wallet option \<Rightarrow> money \<Rightarrow> error option" where
  "Wallet_validateMovement ptr m =
     (case ptr of
        None \<Rightarrow> Some ErrInvalidWallet
      | Some w \<Rightarrow>
          if w_id w = uuid_Nil \<or> w_playerID w = uuid_Nil then Some ErrInvalidWallet
          else if Money_Validate (w_balance w) \<noteq> None \<or> amount (w_balance w) <s 0 then Some ErrInvalidWallet
          else if w_version w <s 1 \<or> w_version w = MaxInt64 then Some ErrInvalidWallet
          else if \<not> Money_IsPositive m then Some ErrInvalidMoney
          else None)"

definition Wallet_Credit :: "time \<Rightarrow> wallet \<Rightarrow> money \<Rightarrow> error + wallet" where
  "Wallet_Credit now w m =
     (case Wallet_validateMovement (Some w) m of
        Some e \<Rightarrow> Inl e
      | None \<Rightarrow>
          if currency m \<noteq> currency (w_balance w) then Inl ErrWalletCurrency
          else (case Money_Add (w_balance w) m of
                  Inl e \<Rightarrow> Inl e
                | Inr newBalance \<Rightarrow>
                    Inr (w\<lparr>w_balance := newBalance, w_version := w_version w + 1, w_updatedAt := now\<rparr>)))"

definition Wallet_Debit :: "time \<Rightarrow> wallet \<Rightarrow> money \<Rightarrow> error + wallet" where
  "Wallet_Debit now w m =
     (case Wallet_validateMovement (Some w) m of
        Some e \<Rightarrow> Inl e
      | None \<Rightarrow>
          if currency m \<noteq> currency (w_balance w) then Inl ErrWalletCurrency
          else (case Money_LessThan (w_balance w) m of
                  Inl e \<Rightarrow> Inl e
                | Inr insufficient \<Rightarrow>
                    if insufficient then Inl ErrInsufficientBalance
                    else (case Money_Sub (w_balance w) m of
                            Inl e \<Rightarrow> Inl e
                          | Inr newBalance \<Rightarrow>
                              Inr (w\<lparr>w_balance := newBalance, w_version := w_version w + 1,
                                     w_updatedAt := now\<rparr>))))"

definition RehydrateWallet :: "uuid \<Rightarrow> uuid \<Rightarrow> money \<Rightarrow> i64 \<Rightarrow> time \<Rightarrow> time \<Rightarrow> error + wallet" where
  "RehydrateWallet i playerID bal version createdAt updatedAt =
     (if i = uuid_Nil \<or> playerID = uuid_Nil then Inl ErrInvalidWallet
      else if version <s 1 then Inl ErrInvalidWallet
      else if Money_Validate bal \<noteq> None then Inl ErrInvalidWallet
      else if amount bal <s 0 then Inl ErrInvalidWallet
      else if Time_IsZero createdAt \<or> Time_Before updatedAt createdAt then Inl ErrInvalidWallet
      else Inr \<lparr>w_id = i, w_playerID = playerID, w_balance = bal, w_version = version,
                w_createdAt = createdAt, w_updatedAt = updatedAt\<rparr>)"

section \<open>Well-formed wallets\<close>

text \<open>What every wallet that a movement accepts satisfies: identities, currency, sign and version.\<close>

definition wallet_wf :: "wallet \<Rightarrow> bool" where
  "wallet_wf w \<longleftrightarrow>
     w_id w \<noteq> uuid_Nil \<and> w_playerID w \<noteq> uuid_Nil \<and> validCurrency (currency (w_balance w)) \<and>
     0 \<le> cents_of (w_balance w) \<and> 1 \<le> sint (w_version w)"

lemma validateMovement_None:
  "Wallet_validateMovement (Some w) m = None \<longleftrightarrow>
     wallet_wf w \<and> w_version w \<noteq> MaxInt64 \<and> validCurrency (currency m) \<and> 0 < cents_of m"
  by (auto simp: Wallet_validateMovement_def wallet_wf_def Money_IsPositive_iff word_sless_alt
      split: if_splits)

lemma validateMovement_errors:
  "Wallet_validateMovement p m = Some e \<Longrightarrow> e = ErrInvalidWallet \<or> e = ErrInvalidMoney"
  by (auto simp: Wallet_validateMovement_def split: if_splits option.splits)

lemma NewWallet_ok_iff:
  "NewWallet fresh now p b = Inr w \<longleftrightarrow>
     p \<noteq> uuid_Nil \<and> validCurrency (currency b) \<and> 0 \<le> cents_of b \<and>
     w = \<lparr>w_id = fresh, w_playerID = p, w_balance = b, w_version = 1, w_createdAt = now, w_updatedAt = now\<rparr>"
  by (auto simp: NewWallet_def word_sless_alt)

lemma NewWallet_wf: "NewWallet fresh now p b = Inr w \<Longrightarrow> fresh \<noteq> uuid_Nil \<Longrightarrow> wallet_wf w"
  by (auto simp: NewWallet_ok_iff wallet_wf_def)

lemma RehydrateWallet_ok_iff:
  "RehydrateWallet i p b v c u = Inr w \<longleftrightarrow>
     w = \<lparr>w_id = i, w_playerID = p, w_balance = b, w_version = v, w_createdAt = c, w_updatedAt = u\<rparr> \<and>
     wallet_wf w \<and> c \<noteq> 0 \<and> c \<le> u"
  by (auto simp: RehydrateWallet_def wallet_wf_def word_sless_alt Time_IsZero_def Time_Before_def)

text \<open>The version counts upwards without wrapping: the guard stops it below the largest \<open>int64\<close>.\<close>

lemma version_succ:
  "v \<noteq> MaxInt64 \<Longrightarrow> sint (v + 1) = sint (v :: i64) + 1"
proof -
  assume "v \<noteq> MaxInt64"
  then have "sint v \<noteq> sint MaxInt64" using signed_word_eqI by blast
  then show ?thesis
    using sint_bounds_i64 [of v] by (simp add: sint_add_i64 in_i64_def)
qed

section \<open>Movements\<close>

text \<open>A successful movement, as integers: the balance moves by the amount and the version by one.\<close>

definition moved :: "time \<Rightarrow> int \<Rightarrow> wallet \<Rightarrow> wallet \<Rightarrow> bool" where
  "moved now d w w' \<longleftrightarrow>
     cents_of (w_balance w') = cents_of (w_balance w) + d \<and>
     currency (w_balance w') = currency (w_balance w) \<and>
     sint (w_version w') = sint (w_version w) + 1 \<and>
     w_id w' = w_id w \<and> w_playerID w' = w_playerID w \<and>
     w_createdAt w' = w_createdAt w \<and> w_updatedAt w' = now"

definition movable :: "wallet \<Rightarrow> money \<Rightarrow> bool" where
  "movable w m \<longleftrightarrow>
     wallet_wf w \<and> w_version w \<noteq> MaxInt64 \<and> 0 < cents_of m \<and> currency m = currency (w_balance w)"

lemma wallet_eqI:
  "cents_of (w_balance w) = cents_of (w_balance w') \<Longrightarrow> currency (w_balance w) = currency (w_balance w') \<Longrightarrow>
   sint (w_version w) = sint (w_version w') \<Longrightarrow> w_id w = w_id w' \<Longrightarrow> w_playerID w = w_playerID w' \<Longrightarrow>
   w_createdAt w = w_createdAt w' \<Longrightarrow> w_updatedAt w = w_updatedAt w' \<Longrightarrow> w = (w' :: wallet)"
  using money_eq_iff [of "w_balance w" "w_balance w'"] signed_word_eqI [of "w_version w" "w_version w'"]
  by (cases w; cases w') simp

lemma moved_unique: "moved now d w w' \<Longrightarrow> moved now d w w'' \<Longrightarrow> w'' = w'"
  unfolding moved_def by (rule wallet_eqI) simp_all

lemma Credit_ok_iff:
  "Wallet_Credit now w m = Inr w' \<longleftrightarrow>
     movable w m \<and> in_i64 (cents_of (w_balance w) + cents_of m) \<and> moved now (cents_of m) w w'"
proof (cases "movable w m \<and> in_i64 (cents_of (w_balance w) + cents_of m)")
  case True
  let ?b = "\<lparr>amount = word_of_int (cents_of (w_balance w) + cents_of m), currency = currency (w_balance w)\<rparr>"
  let ?w = "w\<lparr>w_balance := ?b, w_version := w_version w + 1, w_updatedAt := now\<rparr>"
  have add: "Money_Add (w_balance w) m = Inr ?b"
    using True by (simp add: Money_Add_eq movable_def wallet_wf_def del: of_int_add)
  have "Wallet_validateMovement (Some w) m = None"
    using True by (auto simp: validateMovement_None movable_def wallet_wf_def)
  then have run: "Wallet_Credit now w m = Inr ?w"
    using True by (simp add: Wallet_Credit_def add movable_def del: of_int_add)
  have "moved now (cents_of m) w ?w"
    using True by (simp add: moved_def movable_def version_succ del: of_int_add)
  then show ?thesis using True run moved_unique by (metis sum.inject(2))
next
  case False
  then show ?thesis
    by (auto simp: Wallet_Credit_def validateMovement_None movable_def Money_Add_eq
        split: option.splits sum.splits if_splits)
qed

lemma Debit_ok_iff:
  "Wallet_Debit now w m = Inr w' \<longleftrightarrow>
     movable w m \<and> cents_of m \<le> cents_of (w_balance w) \<and> moved now (- cents_of m) w w'"
proof (cases "movable w m \<and> cents_of m \<le> cents_of (w_balance w)")
  case True
  let ?b = "\<lparr>amount = word_of_int (cents_of (w_balance w) - cents_of m), currency = currency (w_balance w)\<rparr>"
  let ?w = "w\<lparr>w_balance := ?b, w_version := w_version w + 1, w_updatedAt := now\<rparr>"
  have range: "in_i64 (cents_of (w_balance w) - cents_of m)"
    using True sint_bounds_i64 [of "amount (w_balance w)"] by (auto simp: in_i64_def movable_def)
  then have sub: "Money_Sub (w_balance w) m = Inr ?b"
    using True by (simp add: Money_Sub_eq movable_def wallet_wf_def del: of_int_diff)
  have "Wallet_validateMovement (Some w) m = None"
    using True by (auto simp: validateMovement_None movable_def wallet_wf_def)
  then have run: "Wallet_Debit now w m = Inr ?w"
    using True by (simp add: Wallet_Debit_def sub movable_def wallet_wf_def Money_LessThan_eq
        on_operands_def del: of_int_diff)
  have "moved now (- cents_of m) w ?w"
    using True range by (simp add: moved_def movable_def version_succ del: of_int_diff)
  then show ?thesis using True run moved_unique by (metis sum.inject(2))
next
  case False
  then show ?thesis
    by (auto simp: Wallet_Debit_def validateMovement_None movable_def Money_LessThan_eq
        split: option.splits sum.splits if_splits)
qed

lemma moved_wf:
  "moved now d w w' \<Longrightarrow> wallet_wf w \<Longrightarrow> 0 \<le> cents_of (w_balance w) + d \<Longrightarrow> wallet_wf w'"
  by (auto simp: moved_def wallet_wf_def)

lemma Credit_wf: "Wallet_Credit now w m = Inr w' \<Longrightarrow> wallet_wf w'"
  by (auto simp: Credit_ok_iff movable_def wallet_wf_def moved_def)

lemma Debit_wf: "Wallet_Debit now w m = Inr w' \<Longrightarrow> wallet_wf w'"
  by (auto simp: Debit_ok_iff movable_def wallet_wf_def moved_def)

text \<open>The error a movement of a movable wallet reports.\<close>

lemma movable_accepted: "movable w m \<Longrightarrow> Wallet_validateMovement (Some w) m = None"
  by (auto simp: validateMovement_None movable_def wallet_wf_def)

lemma Debit_insufficient:
  assumes "movable w m" and "cents_of (w_balance w) < cents_of m"
  shows "Wallet_Debit now w m = Inl ErrInsufficientBalance"
  using assms
  by (simp add: Wallet_Debit_def movable_accepted movable_def wallet_wf_def Money_LessThan_eq on_operands_def)

lemma Credit_overflow:
  assumes "movable w m" and "\<not> in_i64 (cents_of (w_balance w) + cents_of m)"
  shows "Wallet_Credit now w m = Inl ErrMoneyOverflow"
proof -
  have "Money_Add (w_balance w) m = Inl ErrMoneyOverflow"
    using assms by (simp add: Money_Add_eq on_operands_def movable_def wallet_wf_def)
  then show ?thesis
    using assms(1) movable_accepted [OF assms(1)] by (simp add: Wallet_Credit_def movable_def)
qed

lemma Debit_total:
  assumes "movable w m"
  shows "(\<exists>w'. Wallet_Debit now w m = Inr w') \<longleftrightarrow> cents_of m \<le> cents_of (w_balance w)"
proof
  assume le: "cents_of m \<le> cents_of (w_balance w)"
  have "in_i64 (cents_of (w_balance w) - cents_of m)"
    using assms le sint_bounds_i64 [of "amount (w_balance w)"] by (auto simp: in_i64_def movable_def)
  then obtain b where "Money_Sub (w_balance w) m = Inr b"
    using assms by (auto simp: Money_Sub_eq movable_def wallet_wf_def money_of_def)
  then show "\<exists>w'. Wallet_Debit now w m = Inr w'"
    using movable_accepted [OF assms] assms le
    by (simp add: Wallet_Debit_def movable_def wallet_wf_def Money_LessThan_eq on_operands_def)
qed (auto simp: Debit_ok_iff)

lemma Credit_total:
  assumes "movable w m"
  shows "(\<exists>w'. Wallet_Credit now w m = Inr w') \<longleftrightarrow> in_i64 (cents_of (w_balance w) + cents_of m)"
proof
  assume le: "in_i64 (cents_of (w_balance w) + cents_of m)"
  then obtain b where "Money_Add (w_balance w) m = Inr b"
    using assms by (auto simp: Money_Add_eq movable_def wallet_wf_def money_of_def on_operands_def)
  then show "\<exists>w'. Wallet_Credit now w m = Inr w'"
    using movable_accepted [OF assms] assms by (simp add: Wallet_Credit_def movable_def)
qed (auto simp: Credit_ok_iff)

section \<open>Properties\<close>

text \<open>C33: A credit or a debit succeeds exactly on a well-formed wallet, with a positive amount in its currency,
  a balance that can hold the result and a version that can grow; it then moves the balance by exactly
  the amount, the version by one, and nothing else but the date of the update.\<close>

theorem Wallet_movements_exact:
  "(Wallet_Credit now w m = Inr w' \<longleftrightarrow>
      movable w m \<and> in_i64 (cents_of (w_balance w) + cents_of m) \<and> moved now (cents_of m) w w') \<and>
   (Wallet_Debit now w m = Inr w' \<longleftrightarrow>
      movable w m \<and> cents_of m \<le> cents_of (w_balance w) \<and> moved now (- cents_of m) w w')"
  using Credit_ok_iff Debit_ok_iff by blast

text \<open>C34: On a wallet that a movement accepts, the only errors are the insufficient balance of a debit and the
  overflow of a credit, each reported exactly when the integers say so.\<close>

theorem Wallet_movement_errors:
  assumes "movable w m"
  shows "(Wallet_Debit now w m = Inl e \<longleftrightarrow> e = ErrInsufficientBalance \<and> cents_of (w_balance w) < cents_of m) \<and>
         (Wallet_Credit now w m = Inl e \<longleftrightarrow> e = ErrMoneyOverflow \<and> \<not> in_i64 (cents_of (w_balance w) + cents_of m))"
proof -
  have "(\<exists>w'. Wallet_Debit now w m = Inr w') \<longleftrightarrow> cents_of m \<le> cents_of (w_balance w)"
    using assms by (simp add: Debit_total)
  moreover have "(\<exists>w'. Wallet_Credit now w m = Inr w') \<longleftrightarrow> in_i64 (cents_of (w_balance w) + cents_of m)"
    using assms by (simp add: Credit_total)
  ultimately show ?thesis
    using Debit_insufficient [OF assms, of now] Credit_overflow [OF assms, of now]
    by (metis Inl_Inr_False linorder_not_le sum.inject(1))
qed

theorem Wallet_movement_errors_witness:
  "Wallet_Debit 7 \<lparr>w_id = 1, w_playerID = 2, w_balance = \<lparr>amount = 5, currency = ''BRL''\<rparr>, w_version = 1,
     w_createdAt = 5, w_updatedAt = 5\<rparr> \<lparr>amount = 6, currency = ''BRL''\<rparr> = Inl ErrInsufficientBalance"
  using Wallet_movement_errors [of "\<lparr>w_id = 1, w_playerID = 2, w_balance = \<lparr>amount = 5, currency = ''BRL''\<rparr>,
      w_version = 1, w_createdAt = 5, w_updatedAt = 5\<rparr>" "\<lparr>amount = 6, currency = ''BRL''\<rparr>" 7 ErrInsufficientBalance]
  by (simp add: movable_def wallet_wf_def validCurrency_def uuid_Nil_def MaxInt64_def)

text \<open>C35: A movement read by a clock behind the wallet's creation succeeds and writes a wallet that no later
  read accepts: \<open>Credit\<close> and \<open>Debit\<close> do not compare the new date with \<open>createdAt\<close>, \<open>RehydrateWallet\<close> does.\<close>

theorem movement_before_creation_unreadable:
  assumes "Wallet_Credit now w m = Inr w' \<or> Wallet_Debit now w m = Inr w'" and "now < w_createdAt w"
  shows "RehydrateWallet (w_id w') (w_playerID w') (w_balance w') (w_version w') (w_createdAt w') (w_updatedAt w')
    = Inl ErrInvalidWallet"
proof -
  have "w_createdAt w' = w_createdAt w" "w_updatedAt w' = now"
    using assms(1) by (auto simp: Credit_ok_iff Debit_ok_iff moved_def)
  then show ?thesis using assms(2) by (simp add: RehydrateWallet_def Time_Before_def)
qed

theorem movement_before_creation_unreadable_witness:
  "\<exists>w'. Wallet_Credit 4 \<lparr>w_id = 1, w_playerID = 2, w_balance = \<lparr>amount = 5, currency = ''BRL''\<rparr>, w_version = 1,
       w_createdAt = 5, w_updatedAt = 5\<rparr> \<lparr>amount = 6, currency = ''BRL''\<rparr> = Inr w' \<and>
     RehydrateWallet (w_id w') (w_playerID w') (w_balance w') (w_version w') (w_createdAt w') (w_updatedAt w')
     = Inl ErrInvalidWallet"
proof -
  let ?w = "\<lparr>w_id = 1, w_playerID = 2, w_balance = \<lparr>amount = 5, currency = ''BRL''\<rparr>, w_version = 1,
       w_createdAt = 5, w_updatedAt = 5\<rparr> :: wallet" and ?m = "\<lparr>amount = 6, currency = ''BRL''\<rparr> :: money"
  have "movable ?w ?m" by (simp add: movable_def wallet_wf_def validCurrency_def uuid_Nil_def MaxInt64_def)
  then obtain w' where "Wallet_Credit 4 ?w ?m = Inr w'"
    using Credit_total [of ?w ?m 4] by (auto simp: in_i64_def)
  then show ?thesis using movement_before_creation_unreadable [of 4 ?w ?m w'] by auto
qed

end
