(* ===== verification/WagerTransaction.thy ===== *)
theory WagerTransaction
  imports Wallet
begin

text \<open>
  \<open>internal/domain/wager_transaction.go\<close> and \<open>wager_transaction_state.go\<close>: the operation of a provider
  on a wallet, its validation, its state machine and the resolution of the operation it refers to.
\<close>

section \<open>Kinds, states and the record\<close>

datatype WagerKind =
    WagerKindOpening | WagerKindBet | WagerKindWin | WagerKindLoss | WagerKindRefund | WagerKindRollback
  | WagerKindOther string

datatype WagerStatus =
    WagerStatusPending | WagerStatusPendingReference | WagerStatusProcessed | WagerStatusRejected
  | WagerStatusFailed | WagerStatusOther string

record wager_transaction =
  t_id :: uuid
  t_externalTransactionID :: string
  t_providerID :: string
  t_idempotencyKey :: string
  t_payloadHash :: string
  t_walletID :: uuid
  t_playerID :: uuid
  t_roundID :: string
  t_gameID :: string
  t_kind :: WagerKind
  t_money :: money
  t_referenceExternalTransactionID :: "string option"
  t_referenceTransactionID :: "uuid option"
  t_status :: WagerStatus
  t_failureCode :: "string option"
  t_resultBalance :: "money option"
  t_createdAt :: time
  t_updatedAt :: time

text \<open>The Go constants are strings; \<open>WagerKindOther\<close> is any text that is none of the six.\<close>

definition WagerKind_text :: "WagerKind \<Rightarrow> string" where
  "WagerKind_text k =
     (case k of
        WagerKindOpening \<Rightarrow> ''OPENING'' | WagerKindBet \<Rightarrow> ''BET'' | WagerKindWin \<Rightarrow> ''WIN''
      | WagerKindLoss \<Rightarrow> ''LOSS'' | WagerKindRefund \<Rightarrow> ''REFUND'' | WagerKindRollback \<Rightarrow> ''ROLLBACK''
      | WagerKindOther s \<Rightarrow> s)"

definition WagerKind_IsValid :: "WagerKind \<Rightarrow> bool" where
  "WagerKind_IsValid k = (case k of WagerKindOther _ \<Rightarrow> False | _ \<Rightarrow> True)"

definition validateWagerMoney :: "WagerKind \<Rightarrow> money \<Rightarrow> string option \<Rightarrow> error option" where
  "validateWagerMoney kind m ref =
     (if Money_Validate m \<noteq> None then Some ErrInvalidWagerMoney
      else if ref \<noteq> None \<and> TrimSpace_is_empty (the ref) then Some ErrReferenceRequired
      else (case kind of
              WagerKindLoss \<Rightarrow> if \<not> Money_IsZero m then Some ErrInvalidWagerMoney else None
            | WagerKindOther _ \<Rightarrow> Some ErrInvalidWagerKind
            | k \<Rightarrow>
                if k = WagerKindRefund \<or> k = WagerKindRollback then
                  (if \<not> Money_IsPositive m then Some ErrInvalidWagerMoney
                   else if ref = None \<or> TrimSpace_is_empty (the ref) then Some ErrReferenceRequired
                   else None)
                else if \<not> Money_IsPositive m then Some ErrInvalidWagerMoney
                else None))"

definition needsReference :: "wager_transaction \<Rightarrow> bool" where
  "needsReference w \<longleftrightarrow>
     t_kind w = WagerKindRefund \<or> t_kind w = WagerKindRollback \<or>
     (t_kind w = WagerKindWin \<and> t_referenceExternalTransactionID w \<noteq> None)"

definition IsTerminal :: "wager_transaction \<Rightarrow> bool" where
  "IsTerminal w =
     (case t_status w of
        WagerStatusProcessed \<Rightarrow> True | WagerStatusRejected \<Rightarrow> True | WagerStatusFailed \<Rightarrow> True
      | _ \<Rightarrow> False)"

section \<open>Validation\<close>

definition validate_identity :: "wager_transaction \<Rightarrow> error option" where
  "validate_identity w =
     (if t_kind w = WagerKindOpening then
        (if t_providerID w \<noteq> '''' \<or> t_externalTransactionID w \<noteq> '''' \<or>
            t_idempotencyKey w \<noteq> '''' \<or> t_payloadHash w \<noteq> '''' then Some ErrInvalidWagerTransaction
         else if t_roundID w \<noteq> '''' \<or> t_gameID w \<noteq> '''' \<or>
            t_referenceExternalTransactionID w \<noteq> None \<or> t_referenceTransactionID w \<noteq> None
           then Some ErrInvalidWagerTransaction
         else None)
      else
        (if TrimSpace_is_empty (t_providerID w) \<or> TrimSpace_is_empty (t_externalTransactionID w)
           then Some ErrInvalidWagerTransaction
         else if TrimSpace_is_empty (t_idempotencyKey w) \<or> TrimSpace_is_empty (t_payloadHash w)
           then Some ErrInvalidWagerTransaction
         else if TrimSpace_is_empty (t_roundID w) \<or> TrimSpace_is_empty (t_gameID w)
           then Some ErrInvalidWagerTransaction
         else None))"

definition validate_reference_id :: "wager_transaction \<Rightarrow> error option" where
  "validate_reference_id w =
     (case t_referenceTransactionID w of
        None \<Rightarrow> None
      | Some r \<Rightarrow>
          if r = uuid_Nil \<or> r = t_id w \<or> \<not> needsReference w then Some ErrInvalidWagerReference else None)"

definition validate_result_balance :: "wager_transaction \<Rightarrow> error option" where
  "validate_result_balance w =
     (case t_resultBalance w of
        None \<Rightarrow> None
      | Some b \<Rightarrow>
          if Money_Validate b \<noteq> None \<or> amount b <s 0 then Some ErrInvalidWagerMoney
          else if currency b \<noteq> currency (t_money w) then Some ErrCurrencyMismatch
          else None)"

definition validate_status :: "wager_transaction \<Rightarrow> error option" where
  "validate_status w =
     (case t_status w of
        WagerStatusPending \<Rightarrow>
          if t_failureCode w \<noteq> None \<or> t_resultBalance w \<noteq> None then Some ErrInvalidWagerStatus else None
      | WagerStatusPendingReference \<Rightarrow>
          if t_failureCode w \<noteq> None \<or> t_resultBalance w \<noteq> None then Some ErrInvalidWagerStatus
          else if \<not> needsReference w then Some ErrInvalidWagerStatus
          else None
      | WagerStatusProcessed \<Rightarrow>
          if t_failureCode w \<noteq> None \<or> t_resultBalance w = None then Some ErrInvalidWagerStatus
          else if needsReference w \<and> t_referenceTransactionID w = None then Some ErrReferenceRequired
          else if t_kind w = WagerKindOpening \<and> t_resultBalance w \<noteq> Some (t_money w)
            then Some ErrInvalidWagerMoney
          else None
      | WagerStatusOther _ \<Rightarrow> Some ErrInvalidWagerStatus
      | _ \<Rightarrow>
          if t_failureCode w = None \<or> TrimSpace_is_empty (the (t_failureCode w)) \<or> t_resultBalance w \<noteq> None
            then Some ErrInvalidWagerStatus
          else None)"

text \<open>The receiver may be \<open>nil\<close>. The checks run in order and the first failure is reported.\<close>

definition first_error :: "error option list \<Rightarrow> error option" where
  "first_error es = (case filter (\<lambda>e. e \<noteq> None) es of [] \<Rightarrow> None | e # _ \<Rightarrow> e)"

definition Wager_validate :: "wager_transaction option \<Rightarrow> error option" where
  "Wager_validate ptr =
     (case ptr of
        None \<Rightarrow> Some ErrInvalidWagerTransaction
      | Some w \<Rightarrow>
          first_error
           [if t_id w = uuid_Nil \<or> t_walletID w = uuid_Nil \<or> t_playerID w = uuid_Nil
              then Some ErrInvalidWagerTransaction else None,
            if \<not> WagerKind_IsValid (t_kind w) then Some ErrInvalidWagerKind else None,
            if Time_IsZero (t_createdAt w) \<or> Time_Before (t_updatedAt w) (t_createdAt w)
              then Some ErrInvalidWagerTransaction else None,
            validateWagerMoney (t_kind w) (t_money w) (t_referenceExternalTransactionID w),
            validate_identity w,
            validate_reference_id w,
            validate_result_balance w,
            validate_status w])"

definition canChange :: "wager_transaction \<Rightarrow> error option" where
  "canChange w =
     (case Wager_validate (Some w) of
        Some e \<Rightarrow> Some e
      | None \<Rightarrow> if IsTerminal w then Some ErrTerminalTransaction else None)"

section \<open>Construction\<close>

definition NewWagerTransaction ::
  "uuid \<Rightarrow> time \<Rightarrow> string \<Rightarrow> string \<Rightarrow> string \<Rightarrow> string \<Rightarrow> uuid \<Rightarrow> uuid \<Rightarrow> string \<Rightarrow> string \<Rightarrow>
   WagerKind \<Rightarrow> money \<Rightarrow> string option \<Rightarrow> error + wager_transaction" where
  "NewWagerTransaction fresh now providerID externalTransactionID idempotencyKey payloadHash
       walletID playerID roundID gameID kind m ref =
     (if \<not> WagerKind_IsValid kind then Inl ErrInvalidWagerKind
      else if kind = WagerKindOpening then Inl ErrExternalOpening
      else (case validateWagerMoney kind m ref of
              Some e \<Rightarrow> Inl e
            | None \<Rightarrow>
                let t = \<lparr>t_id = fresh, t_externalTransactionID = externalTransactionID,
                         t_providerID = providerID, t_idempotencyKey = idempotencyKey,
                         t_payloadHash = payloadHash, t_walletID = walletID, t_playerID = playerID,
                         t_roundID = roundID, t_gameID = gameID, t_kind = kind, t_money = m,
                         t_referenceExternalTransactionID = ref, t_referenceTransactionID = None,
                         t_status = WagerStatusPending, t_failureCode = None, t_resultBalance = None,
                         t_createdAt = now, t_updatedAt = now\<rparr>
                in (case Wager_validate (Some t) of Some e \<Rightarrow> Inl e | None \<Rightarrow> Inr t)))"

text \<open>
  The state read from the database has the fields of the transaction; rehydration copies them and
  validates. The record of the transaction stands for \<open>WagerTransactionState\<close> as well.
\<close>

definition RehydrateWagerTransaction :: "wager_transaction \<Rightarrow> error + wager_transaction" where
  "RehydrateWagerTransaction state =
     (case Wager_validate (Some state) of Some e \<Rightarrow> Inl e | None \<Rightarrow> Inr state)"

section \<open>Transitions\<close>

definition MarkPendingReference :: "time \<Rightarrow> wager_transaction \<Rightarrow> error + wager_transaction" where
  "MarkPendingReference now w =
     (case canChange w of
        Some e \<Rightarrow> Inl e
      | None \<Rightarrow>
          if t_status w \<noteq> WagerStatusPending \<or> \<not> needsReference w \<or> t_referenceTransactionID w \<noteq> None
            then Inl ErrInvalidWagerStatus
          else Inr (w\<lparr>t_status := WagerStatusPendingReference, t_updatedAt := now\<rparr>))"

definition validateReference :: "wager_transaction \<Rightarrow> wager_transaction option \<Rightarrow> error option" where
  "validateReference w ptr =
     (case ptr of
        None \<Rightarrow> Some ErrInvalidWagerReference
      | Some reference \<Rightarrow>
          if \<not> needsReference w then Some ErrInvalidWagerReference
          else if Wager_validate (Some reference) \<noteq> None \<or> t_id reference = t_id w
            then Some ErrInvalidWagerReference
          else if t_providerID reference \<noteq> t_providerID w \<or>
               Some (t_externalTransactionID reference) \<noteq> t_referenceExternalTransactionID w
            then Some ErrInvalidWagerReference
          else if t_walletID reference \<noteq> t_walletID w \<or> t_playerID reference \<noteq> t_playerID w
            then Some ErrInvalidWagerReference
          else if currency (t_money reference) \<noteq> currency (t_money w) \<or> t_roundID reference \<noteq> t_roundID w
            then Some ErrInvalidWagerReference
          else if t_referenceTransactionID w \<noteq> None \<and> t_referenceTransactionID w \<noteq> Some (t_id reference)
            then Some ErrInvalidWagerReference
          else if t_status reference \<noteq> WagerStatusProcessed then Some ErrReferenceNotProcessed
          else if (t_kind w = WagerKindWin \<or> t_kind w = WagerKindRefund) \<and> t_kind reference \<noteq> WagerKindBet
            then Some ErrInvalidWagerReference
          else if t_kind w = WagerKindRollback \<and> t_kind reference \<noteq> WagerKindBet \<and>
               t_kind reference \<noteq> WagerKindWin \<and> t_kind reference \<noteq> WagerKindRefund
            then Some ErrInvalidWagerReference
          else if t_kind w \<noteq> WagerKindWin \<and> t_money reference \<noteq> t_money w
            then Some ErrInvalidWagerReference
          else None)"

definition ResolveReference ::
  "time \<Rightarrow> wager_transaction \<Rightarrow> wager_transaction option \<Rightarrow> error + wager_transaction" where
  "ResolveReference now w reference =
     (case canChange w of
        Some e \<Rightarrow> Inl e
      | None \<Rightarrow>
          (case validateReference w reference of
             Some e \<Rightarrow> Inl e
           | None \<Rightarrow>
               Inr (w\<lparr>t_referenceTransactionID := Some (t_id (the reference)), t_updatedAt := now\<rparr>)))"

definition MarkProcessed :: "time \<Rightarrow> wager_transaction \<Rightarrow> money \<Rightarrow> error + wager_transaction" where
  "MarkProcessed now w b =
     (case canChange w of
        Some e \<Rightarrow> Inl e
      | None \<Rightarrow>
          if Money_Validate b \<noteq> None \<or> amount b <s 0 then Inl ErrInvalidWagerMoney
          else if needsReference w \<and> t_referenceTransactionID w = None then Inl ErrReferenceRequired
          else if currency b \<noteq> currency (t_money w) then Inl ErrCurrencyMismatch
          else if t_kind w = WagerKindOpening \<and> b \<noteq> t_money w then Inl ErrInvalidWagerMoney
          else Inr (w\<lparr>t_status := WagerStatusProcessed, t_resultBalance := Some b, t_updatedAt := now\<rparr>))"

definition Wager_Reject :: "time \<Rightarrow> wager_transaction \<Rightarrow> string \<Rightarrow> error + wager_transaction" where
  "Wager_Reject now w code =
     (case canChange w of
        Some e \<Rightarrow> Inl e
      | None \<Rightarrow>
          if TrimSpace_is_empty code then Inl ErrInvalidWagerTransaction
          else Inr (w\<lparr>t_status := WagerStatusRejected, t_failureCode := Some code, t_updatedAt := now\<rparr>))"

definition Wager_Fail :: "time \<Rightarrow> wager_transaction \<Rightarrow> string \<Rightarrow> error + wager_transaction" where
  "Wager_Fail now w code =
     (case canChange w of
        Some e \<Rightarrow> Inl e
      | None \<Rightarrow>
          if TrimSpace_is_empty code then Inl ErrInvalidWagerTransaction
          else Inr (w\<lparr>t_status := WagerStatusFailed, t_failureCode := Some code, t_updatedAt := now\<rparr>))"

text \<open>
  The opening of a wallet. \<open>uuid.NewSHA1\<close> of the \<open>google/uuid\<close> package is the parameter \<open>NewSHA1\<close>;
  the clock reading is the one \<open>MarkProcessed\<close> takes.
\<close>

definition NewOpeningTransaction ::
  "(uuid \<Rightarrow> string \<Rightarrow> uuid) \<Rightarrow> time \<Rightarrow> wallet option \<Rightarrow> error + wager_transaction" where
  "NewOpeningTransaction NewSHA1 now ptr =
     (case ptr of
        None \<Rightarrow> Inl ErrInvalidWallet
      | Some wallet \<Rightarrow>
          if w_id wallet = uuid_Nil \<or> w_playerID wallet = uuid_Nil then Inl ErrInvalidWallet
          else if w_version wallet \<noteq> 1 \<or> \<not> Money_IsPositive (w_balance wallet) then Inl ErrInvalidWallet
          else MarkProcessed now
                 \<lparr>t_id = NewSHA1 (w_id wallet) ''OPENING'', t_externalTransactionID = '''',
                  t_providerID = '''', t_idempotencyKey = '''', t_payloadHash = '''',
                  t_walletID = w_id wallet, t_playerID = w_playerID wallet, t_roundID = '''',
                  t_gameID = '''', t_kind = WagerKindOpening, t_money = w_balance wallet,
                  t_referenceExternalTransactionID = None, t_referenceTransactionID = None,
                  t_status = WagerStatusPending, t_failureCode = None, t_resultBalance = None,
                  t_createdAt = w_createdAt wallet, t_updatedAt = w_createdAt wallet\<rparr>
                 (w_balance wallet))"


section \<open>Facts about validation\<close>

abbreviation wager_valid :: "wager_transaction \<Rightarrow> bool" where
  "wager_valid w \<equiv> Wager_validate (Some w) = None"

lemma first_error_None [simp]:
  "first_error [] = None" "first_error (e # es) = None \<longleftrightarrow> e = None \<and> first_error es = None"
  by (auto simp: first_error_def split: list.split)

lemma wager_valid_iff:
  "wager_valid w \<longleftrightarrow>
     t_id w \<noteq> uuid_Nil \<and> t_walletID w \<noteq> uuid_Nil \<and> t_playerID w \<noteq> uuid_Nil \<and>
     WagerKind_IsValid (t_kind w) \<and> t_createdAt w \<noteq> 0 \<and> t_createdAt w \<le> t_updatedAt w \<and>
     validateWagerMoney (t_kind w) (t_money w) (t_referenceExternalTransactionID w) = None \<and>
     validate_identity w = None \<and> validate_reference_id w = None \<and>
     validate_result_balance w = None \<and> validate_status w = None"
  by (auto simp: Wager_validate_def Time_IsZero_def Time_Before_def)

lemma canChange_None: "canChange w = None \<longleftrightarrow> wager_valid w \<and> \<not> IsTerminal w"
  by (auto simp: canChange_def split: option.splits)

lemma IsTerminal_iff:
  "IsTerminal w \<longleftrightarrow> t_status w \<in> {WagerStatusProcessed, WagerStatusRejected, WagerStatusFailed}"
  by (simp add: IsTerminal_def split: WagerStatus.split)

lemma not_terminal_valid:
  "wager_valid w \<Longrightarrow> \<not> IsTerminal w \<Longrightarrow>
   t_status w = WagerStatusPending \<or> t_status w = WagerStatusPendingReference"
  by (auto simp: wager_valid_iff IsTerminal_def validate_status_def split: WagerStatus.splits)

lemma pending_fields:
  "wager_valid w \<Longrightarrow> \<not> IsTerminal w \<Longrightarrow> t_failureCode w = None \<and> t_resultBalance w = None"
  by (auto simp: wager_valid_iff IsTerminal_def validate_status_def
      split: WagerStatus.splits if_splits)

lemma wager_valid_currency: "wager_valid w \<Longrightarrow> validCurrency (currency (t_money w))"
  by (auto simp: wager_valid_iff validateWagerMoney_def split: if_splits)

lemma validateWagerMoney_amount:
  "validateWagerMoney k m r = None \<Longrightarrow>
   validCurrency (currency m) \<and> (if k = WagerKindLoss then cents_of m = 0 else 0 < cents_of m)"
  by (auto simp: validateWagerMoney_def Money_IsPositive_iff Money_IsZero_iff
      split: WagerKind.splits if_splits)

lemma wager_valid_amount:
  "wager_valid w \<Longrightarrow> if t_kind w = WagerKindLoss then cents_of (t_money w) = 0 else 0 < cents_of (t_money w)"
  using validateWagerMoney_amount [of "t_kind w" "t_money w" "t_referenceExternalTransactionID w"]
  by (simp add: wager_valid_iff)

section \<open>The state machine\<close>

text \<open>
  The diagram of \<open>ARCHITECTURE.md\<close>. The resolution of a reference keeps the state.
\<close>

inductive status_edge :: "WagerStatus \<Rightarrow> WagerStatus \<Rightarrow> bool" where
  wait: "status_edge WagerStatusPending WagerStatusPendingReference"
| processed: "s \<in> {WagerStatusPending, WagerStatusPendingReference} \<Longrightarrow> status_edge s WagerStatusProcessed"
| rejected: "s \<in> {WagerStatusPending, WagerStatusPendingReference} \<Longrightarrow> status_edge s WagerStatusRejected"
| failed: "s \<in> {WagerStatusPending, WagerStatusPendingReference} \<Longrightarrow> status_edge s WagerStatusFailed"

inductive_simps status_edge_simps [simp]:
  "status_edge WagerStatusProcessed t"
  "status_edge WagerStatusRejected t"
  "status_edge WagerStatusFailed t"
  "status_edge WagerStatusPending t"
  "status_edge WagerStatusPendingReference t"

text \<open>The fields that say what the operation is. No transition touches them.\<close>

definition same_operation :: "wager_transaction \<Rightarrow> wager_transaction \<Rightarrow> bool" where
  "same_operation w w' \<longleftrightarrow>
     t_id w' = t_id w \<and> t_externalTransactionID w' = t_externalTransactionID w \<and>
     t_providerID w' = t_providerID w \<and> t_idempotencyKey w' = t_idempotencyKey w \<and>
     t_payloadHash w' = t_payloadHash w \<and> t_walletID w' = t_walletID w \<and>
     t_playerID w' = t_playerID w \<and> t_roundID w' = t_roundID w \<and> t_gameID w' = t_gameID w \<and>
     t_kind w' = t_kind w \<and> t_money w' = t_money w \<and>
     t_referenceExternalTransactionID w' = t_referenceExternalTransactionID w \<and>
     t_createdAt w' = t_createdAt w"

lemma same_operation_refl [simp]: "same_operation w w"
  by (simp add: same_operation_def)

lemma same_operation_trans: "same_operation a b \<Longrightarrow> same_operation b c \<Longrightarrow> same_operation a c"
  by (simp add: same_operation_def)

lemma needsReference_same: "same_operation w w' \<Longrightarrow> needsReference w' = needsReference w"
  by (simp add: same_operation_def needsReference_def)

text \<open>What each transition does where it succeeds.\<close>

lemma MarkPendingReference_ok_iff:
  "MarkPendingReference now w = Inr w' \<longleftrightarrow>
     wager_valid w \<and> t_status w = WagerStatusPending \<and> needsReference w \<and>
     t_referenceTransactionID w = None \<and>
     w' = w\<lparr>t_status := WagerStatusPendingReference, t_updatedAt := now\<rparr>"
  using canChange_None [of w] by (auto simp: MarkPendingReference_def IsTerminal_iff split: option.splits)

lemma ResolveReference_ok_iff:
  "ResolveReference now w p = Inr w' \<longleftrightarrow>
     wager_valid w \<and> \<not> IsTerminal w \<and> validateReference w p = None \<and>
     w' = w\<lparr>t_referenceTransactionID := Some (t_id (the p)), t_updatedAt := now\<rparr>"
  using canChange_None [of w] by (auto simp: ResolveReference_def split: option.splits)

lemma MarkProcessed_ok_iff:
  "MarkProcessed now w b = Inr w' \<longleftrightarrow>
     wager_valid w \<and> \<not> IsTerminal w \<and> validCurrency (currency b) \<and> 0 \<le> cents_of b \<and>
     (needsReference w \<longrightarrow> t_referenceTransactionID w \<noteq> None) \<and>
     currency b = currency (t_money w) \<and> (t_kind w = WagerKindOpening \<longrightarrow> b = t_money w) \<and>
     w' = w\<lparr>t_status := WagerStatusProcessed, t_resultBalance := Some b, t_updatedAt := now\<rparr>"
  using canChange_None [of w] by (auto simp: MarkProcessed_def word_sless_alt split: option.splits)

lemma Wager_Reject_ok_iff:
  "Wager_Reject now w c = Inr w' \<longleftrightarrow>
     wager_valid w \<and> \<not> IsTerminal w \<and> \<not> TrimSpace_is_empty c \<and>
     w' = w\<lparr>t_status := WagerStatusRejected, t_failureCode := Some c, t_updatedAt := now\<rparr>"
  using canChange_None [of w] by (auto simp: Wager_Reject_def split: option.splits)

lemma Wager_Fail_ok_iff:
  "Wager_Fail now w c = Inr w' \<longleftrightarrow>
     wager_valid w \<and> \<not> IsTerminal w \<and> \<not> TrimSpace_is_empty c \<and>
     w' = w\<lparr>t_status := WagerStatusFailed, t_failureCode := Some c, t_updatedAt := now\<rparr>"
  using canChange_None [of w] by (auto simp: Wager_Fail_def split: option.splits)

lemmas transition_ok_iffs =
  MarkPendingReference_ok_iff ResolveReference_ok_iff MarkProcessed_ok_iff
  Wager_Reject_ok_iff Wager_Fail_ok_iff

text \<open>Validity is kept when the clock has not gone back behind the creation.\<close>

lemma validate_identity_cong:
  "same_operation w w' \<Longrightarrow> t_referenceTransactionID w' = t_referenceTransactionID w \<Longrightarrow>
   validate_identity w' = validate_identity w"
  by (simp add: same_operation_def validate_identity_def)

lemma validate_reference_id_cong:
  "same_operation w w' \<Longrightarrow> t_referenceTransactionID w' = t_referenceTransactionID w \<Longrightarrow>
   validate_reference_id w' = validate_reference_id w"
  by (simp add: same_operation_def validate_reference_id_def needsReference_def split: option.split)

lemma wager_valid_transition:
  assumes "wager_valid w" and "same_operation w w'"
    and "t_referenceTransactionID w' = t_referenceTransactionID w"
    and "t_createdAt w \<le> t_updatedAt w'"
    and "validate_result_balance w' = None" and "validate_status w' = None"
  shows "wager_valid w'"
  using assms validate_identity_cong [OF assms(2,3)] validate_reference_id_cong [OF assms(2,3)]
  by (simp add: wager_valid_iff same_operation_def)

lemma MarkPendingReference_valid:
  "MarkPendingReference now w = Inr w' \<Longrightarrow> t_createdAt w \<le> now \<Longrightarrow> wager_valid w'"
  unfolding MarkPendingReference_ok_iff
  by (rule wager_valid_transition [of w])
    (auto simp: same_operation_def wager_valid_iff validate_result_balance_def validate_status_def
      needsReference_def split: if_splits)

lemma MarkProcessed_valid:
  "MarkProcessed now w b = Inr w' \<Longrightarrow> t_createdAt w \<le> now \<Longrightarrow> wager_valid w'"
  unfolding MarkProcessed_ok_iff
  by (rule wager_valid_transition [of w])
    (auto simp: same_operation_def pending_fields validate_result_balance_def validate_status_def
      needsReference_def word_sless_alt)

lemma Wager_Reject_valid:
  "Wager_Reject now w c = Inr w' \<Longrightarrow> t_createdAt w \<le> now \<Longrightarrow> wager_valid w'"
  unfolding Wager_Reject_ok_iff
  by (rule wager_valid_transition [of w])
    (auto simp: same_operation_def pending_fields validate_result_balance_def validate_status_def)

lemma Wager_Fail_valid:
  "Wager_Fail now w c = Inr w' \<Longrightarrow> t_createdAt w \<le> now \<Longrightarrow> wager_valid w'"
  unfolding Wager_Fail_ok_iff
  by (rule wager_valid_transition [of w])
    (auto simp: same_operation_def pending_fields validate_result_balance_def validate_status_def)

text \<open>What a reference must satisfy to be accepted.\<close>

definition reference_kind_ok :: "WagerKind \<Rightarrow> WagerKind \<Rightarrow> bool" where
  "reference_kind_ok k rk \<longleftrightarrow>
     (k = WagerKindWin \<or> k = WagerKindRefund) \<and> rk = WagerKindBet \<or>
     k = WagerKindRollback \<and> rk \<in> {WagerKindBet, WagerKindWin, WagerKindRefund}"

definition reference_acceptable :: "wager_transaction \<Rightarrow> wager_transaction \<Rightarrow> bool" where
  "reference_acceptable w ref \<longleftrightarrow>
     needsReference w \<and> wager_valid ref \<and> t_id ref \<noteq> t_id w \<and>
     t_providerID ref = t_providerID w \<and>
     t_referenceExternalTransactionID w = Some (t_externalTransactionID ref) \<and>
     t_walletID ref = t_walletID w \<and> t_playerID ref = t_playerID w \<and>
     currency (t_money ref) = currency (t_money w) \<and> t_roundID ref = t_roundID w \<and>
     (t_referenceTransactionID w = None \<or> t_referenceTransactionID w = Some (t_id ref)) \<and>
     t_status ref = WagerStatusProcessed \<and> reference_kind_ok (t_kind w) (t_kind ref) \<and>
     (t_kind w \<noteq> WagerKindWin \<longrightarrow> t_money ref = t_money w)"

lemma validateReference_None:
  "validateReference w p = None \<longleftrightarrow> (\<exists>ref. p = Some ref \<and> reference_acceptable w ref)"
  by (cases p)
    (auto simp: validateReference_def reference_acceptable_def reference_kind_ok_def needsReference_def)

lemma validateReference_errors:
  "validateReference w p = Some e \<Longrightarrow> e = ErrInvalidWagerReference \<or> e = ErrReferenceNotProcessed"
  by (auto simp: validateReference_def split: option.splits if_splits)

lemma ResolveReference_valid:
  assumes ok: "ResolveReference now w p = Inr w'" and "t_createdAt w \<le> now"
  shows "wager_valid w'"
proof -
  note facts = ok [unfolded ResolveReference_ok_iff]
  then obtain ref where p: "p = Some ref" and acc: "reference_acceptable w ref"
    unfolding validateReference_None by blast
  have w: "wager_valid w" "\<not> IsTerminal w" "reference_acceptable w ref" using facts acc by blast+
  have w': "w' = w\<lparr>t_referenceTransactionID := Some (t_id ref), t_updatedAt := now\<rparr>"
    using facts p by simp
  have k: "t_kind w \<noteq> WagerKindOpening" and n: "needsReference w"
    using w(3) unfolding reference_acceptable_def needsReference_def by auto
  have r: "t_id ref \<noteq> uuid_Nil" "t_id ref \<noteq> t_id w"
    using w(3) unfolding reference_acceptable_def wager_valid_iff by blast+
  have "needsReference w' = needsReference w" by (simp add: w' needsReference_def)
  then have "validate_status w' = validate_status w"
    using not_terminal_valid [OF w(1,2)] by (elim disjE) (simp_all add: w' validate_status_def)
  moreover have "validate_identity w' = validate_identity w"
    using k by (simp add: w' validate_identity_def)
  moreover have "validate_reference_id w' = None"
    using n r by (simp add: w' validate_reference_id_def needsReference_def)
  moreover have "validate_result_balance w' = validate_result_balance w"
    by (simp add: w' validate_result_balance_def split: option.split)
  moreover have "t_id w' = t_id w" "t_walletID w' = t_walletID w" "t_playerID w' = t_playerID w"
    "t_kind w' = t_kind w" "t_money w' = t_money w" "t_createdAt w' = t_createdAt w"
    "t_referenceExternalTransactionID w' = t_referenceExternalTransactionID w" "t_updatedAt w' = now"
    by (simp_all add: w')
  ultimately show ?thesis
    using w(1) assms(2) unfolding wager_valid_iff by simp
qed

lemma ResolveReference_errors:
  assumes "canChange w = None"
  shows "ResolveReference now w (Some ref) = Inl e \<longleftrightarrow> validateReference w (Some ref) = Some e"
  using assms by (auto simp: ResolveReference_def split: option.splits)

section \<open>Construction gives valid transactions\<close>

lemma NewWagerTransaction_ok:
  assumes "NewWagerTransaction fresh now prov ext key hash wid player rnd game kind m ref = Inr t"
  shows "wager_valid t" and "t_status t = WagerStatusPending" and "kind \<noteq> WagerKindOpening"
    and "t = \<lparr>t_id = fresh, t_externalTransactionID = ext, t_providerID = prov, t_idempotencyKey = key,
              t_payloadHash = hash, t_walletID = wid, t_playerID = player, t_roundID = rnd,
              t_gameID = game, t_kind = kind, t_money = m, t_referenceExternalTransactionID = ref,
              t_referenceTransactionID = None, t_status = WagerStatusPending, t_failureCode = None,
              t_resultBalance = None, t_createdAt = now, t_updatedAt = now\<rparr>"
  using assms by (auto simp: NewWagerTransaction_def Let_def split: if_splits option.splits)

lemma NewOpeningTransaction_ok:
  assumes "NewOpeningTransaction sha now (Some w) = Inr t"
  shows "w_id w \<noteq> uuid_Nil" "w_playerID w \<noteq> uuid_Nil" "w_version w = 1" "0 < cents_of (w_balance w)"
    "t_id t = sha (w_id w) ''OPENING''" "t_walletID t = w_id w" "t_playerID t = w_playerID w"
    "t_kind t = WagerKindOpening" "t_money t = w_balance w" "t_status t = WagerStatusProcessed"
    "t_resultBalance t = Some (w_balance w)" "t_createdAt t = w_createdAt w" "t_updatedAt t = now"
    "t_referenceTransactionID t = None" "t_providerID t = []" "t_externalTransactionID t = []"
    "t_idempotencyKey t = []" "t_payloadHash t = []"
  using assms
  by (auto simp: NewOpeningTransaction_def MarkProcessed_ok_iff Money_IsPositive_iff split: if_splits)

lemma NewOpeningTransaction_valid:
  "NewOpeningTransaction sha now (Some w) = Inr t \<Longrightarrow> w_createdAt w \<le> now \<Longrightarrow> wager_valid t"
  by (auto simp: NewOpeningTransaction_def split: if_splits intro: MarkProcessed_valid)

section \<open>Properties\<close>

text \<open>The five transitions of an operation.\<close>

inductive transition :: "wager_transaction \<Rightarrow> wager_transaction \<Rightarrow> bool" where
  "MarkPendingReference now w = Inr w' \<Longrightarrow> transition w w'"
| "ResolveReference now w p = Inr w' \<Longrightarrow> transition w w'"
| "MarkProcessed now w b = Inr w' \<Longrightarrow> transition w w'"
| "Wager_Reject now w c = Inr w' \<Longrightarrow> transition w w'"
| "Wager_Fail now w c = Inr w' \<Longrightarrow> transition w w'"

inductive_cases transitionE: "transition w w'"

lemma transition_effect:
  assumes "transition w w'"
  shows "wager_valid w" "\<not> IsTerminal w" "same_operation w w'"
    "status_edge (t_status w) (t_status w') \<or> t_status w' = t_status w"
    "t_status w' = t_status w \<Longrightarrow> \<not> IsTerminal w'"
proof -
  have v: "wager_valid w \<and> \<not> IsTerminal w"
    using assms by (elim transitionE) (auto simp: transition_ok_iffs IsTerminal_iff)
  then show "wager_valid w" "\<not> IsTerminal w" by simp_all
  show "same_operation w w'"
    using assms by (elim transitionE) (auto simp: transition_ok_iffs same_operation_def)
  show "status_edge (t_status w) (t_status w') \<or> t_status w' = t_status w"
    using not_terminal_valid [of w] v assms
    by (elim transitionE) (auto simp: transition_ok_iffs status_edge.simps)
  show "t_status w' = t_status w \<Longrightarrow> \<not> IsTerminal w'" using v by (simp add: IsTerminal_iff)
qed

text \<open>C30: Any number of transitions follows the diagram of \<open>ARCHITECTURE.md\<close> (from pending, possibly through
  the wait for a reference, to one terminal state), never changes what the operation is, and never leaves a
  terminal state.\<close>

theorem transitions_follow_diagram:
  assumes "transition\<^sup>*\<^sup>* w w'"
  shows "same_operation w w' \<and> status_edge\<^sup>*\<^sup>* (t_status w) (t_status w') \<and> (IsTerminal w \<longrightarrow> w' = w)"
  using assms
proof (induction rule: rtranclp_induct)
  case (step y z)
  have "same_operation w z"
    using step.IH transition_effect(3) [OF step.hyps(2)] same_operation_trans by blast
  moreover have "status_edge\<^sup>*\<^sup>* (t_status w) (t_status z)"
    using step.IH transition_effect(4) [OF step.hyps(2)] by (auto intro: rtranclp.rtrancl_into_rtrancl)
  moreover have "\<not> IsTerminal w" using step.IH transition_effect(2) [OF step.hyps(2)] by auto
  ultimately show ?case by blast
qed simp

text \<open>An operation used by the witnesses: a bet of ten cents.\<close>

definition sample_bet :: wager_transaction where
  "sample_bet =
     \<lparr>t_id = 1, t_externalTransactionID = ''x1'', t_providerID = ''p'', t_idempotencyKey = ''k1'',
      t_payloadHash = ''h'', t_walletID = 2, t_playerID = 3, t_roundID = ''r'', t_gameID = ''g'',
      t_kind = WagerKindBet, t_money = \<lparr>amount = 10, currency = ''BRL''\<rparr>,
      t_referenceExternalTransactionID = None, t_referenceTransactionID = None,
      t_status = WagerStatusPending, t_failureCode = None, t_resultBalance = None,
      t_createdAt = 5000, t_updatedAt = 5000\<rparr>"

lemma not_blank_letters [simp]:
  "\<not> TrimSpace_is_empty ''x1''" "\<not> TrimSpace_is_empty ''p''" "\<not> TrimSpace_is_empty ''k1''"
  "\<not> TrimSpace_is_empty ''h''" "\<not> TrimSpace_is_empty ''r''" "\<not> TrimSpace_is_empty ''g''"
  "\<not> TrimSpace_is_empty ''c''"
  by (simp_all add: rune_width_def rune_is_space_def byte_def byte_in_def)

lemma sample_bet_valid: "wager_valid sample_bet"
  unfolding wager_valid_iff
  by (simp add: sample_bet_def uuid_Nil_def WagerKind_IsValid_def validateWagerMoney_def Money_IsPositive_iff
      validCurrency_def validate_identity_def validate_reference_id_def validate_result_balance_def
      validate_status_def del: TrimSpace_is_empty.simps)

theorem transitions_follow_diagram_witness:
  "\<exists>w'. Wager_Reject 6000 sample_bet ''c'' = Inr w' \<and> same_operation sample_bet w' \<and>
        status_edge\<^sup>*\<^sup>* (t_status sample_bet) (t_status w')"
proof -
  have "\<not> IsTerminal sample_bet" by (simp add: sample_bet_def IsTerminal_def)
  then obtain w' where w': "Wager_Reject 6000 sample_bet ''c'' = Inr w'"
    using sample_bet_valid Wager_Reject_ok_iff [of 6000 sample_bet "''c''"]
    by (simp del: TrimSpace_is_empty.simps)
  have "transition\<^sup>*\<^sup>* sample_bet w'" by (rule r_into_rtranclp) (rule transition.intros(4) [OF w'])
  then show ?thesis using transitions_follow_diagram [of sample_bet w'] w' by blast
qed

text \<open>C31: A transition read by a clock that is not behind the creation of the operation keeps it valid, so
  that the next read of its row accepts it.\<close>

theorem transitions_keep_validity:
  assumes "t_createdAt w \<le> now"
  shows "(MarkPendingReference now w = Inr w' \<longrightarrow> wager_valid w') \<and>
         (ResolveReference now w p = Inr w' \<longrightarrow> wager_valid w') \<and>
         (MarkProcessed now w b = Inr w' \<longrightarrow> wager_valid w') \<and>
         (Wager_Reject now w c = Inr w' \<longrightarrow> wager_valid w') \<and>
         (Wager_Fail now w c = Inr w' \<longrightarrow> wager_valid w')"
  using assms MarkPendingReference_valid ResolveReference_valid MarkProcessed_valid Wager_Reject_valid
    Wager_Fail_valid by blast

theorem transitions_keep_validity_witness:
  "\<exists>w'. MarkProcessed 6000 sample_bet \<lparr>amount = 90, currency = ''BRL''\<rparr> = Inr w' \<and> wager_valid w'"
proof -
  have "\<not> IsTerminal sample_bet" "\<not> needsReference sample_bet" "t_money sample_bet = \<lparr>amount = 10, currency = ''BRL''\<rparr>"
    "t_kind sample_bet \<noteq> WagerKindOpening"
    by (simp_all add: sample_bet_def IsTerminal_def needsReference_def)
  then obtain w' where "MarkProcessed 6000 sample_bet \<lparr>amount = 90, currency = ''BRL''\<rparr> = Inr w'"
    using sample_bet_valid MarkProcessed_ok_iff [of 6000 sample_bet "\<lparr>amount = 90, currency = ''BRL''\<rparr>"]
    by (simp add: validCurrency_def)
  then show ?thesis using transitions_keep_validity [of sample_bet 6000] by (simp add: sample_bet_def)
qed

text \<open>C32: The resolution of a reference accepts exactly the processed operations of the same provider, wallet,
  player, currency and round that carry the identity asked for, of a kind the operation may refer to (a bet
  for a win or a refund; a bet, a win or a refund for a rollback), with the same amount unless it is a win.\<close>

theorem reference_accepted_iff:
  "(\<exists>w'. ResolveReference now w p = Inr w') \<longleftrightarrow>
     wager_valid w \<and> \<not> IsTerminal w \<and> (\<exists>ref. p = Some ref \<and> reference_acceptable w ref)"
  using validateReference_None [of w p] by (auto simp: ResolveReference_ok_iff)

end
