(* ===== verification/Sha256.thy ===== *)
theory Sha256
  imports GoText
begin

text \<open>
  \<open>crypto/sha256\<close> and \<open>encoding/hex\<close> of the standard library, as far as \<open>wager_payload.go\<close> and
  \<open>process_wager.go\<close> use them: the hexadecimal text of the SHA-256 digest of a sequence of bytes
  (FIPS 180-4).
\<close>

unbundle bit_operations_syntax

type_synonym u32 = "32 word"

definition sha256_K :: "u32 list" where
  "sha256_K =
    [1116352408, 1899447441, 3049323471, 3921009573, 961987163, 1508970993, 2453635748, 2870763221,
     3624381080, 310598401, 607225278, 1426881987, 1925078388, 2162078206, 2614888103, 3248222580,
     3835390401, 4022224774, 264347078, 604807628, 770255983, 1249150122, 1555081692, 1996064986,
     2554220882, 2821834349, 2952996808, 3210313671, 3336571891, 3584528711, 113926993, 338241895,
     666307205, 773529912, 1294757372, 1396182291, 1695183700, 1986661051, 2177026350, 2456956037,
     2730485921, 2820302411, 3259730800, 3345764771, 3516065817, 3600352804, 4094571909, 275423344,
     430227734, 506948616, 659060556, 883997877, 958139571, 1322822218, 1537002063, 1747873779,
     1955562222, 2024104815, 2227730452, 2361852424, 2428436474, 2756734187, 3204031479, 3329325298]"

type_synonym sha256_state = "u32 \<times> u32 \<times> u32 \<times> u32 \<times> u32 \<times> u32 \<times> u32 \<times> u32"

definition sha256_init :: sha256_state where
  "sha256_init = (1779033703, 3144134277, 1013904242, 2773480762, 1359893119, 2600822924, 528734635, 1541459225)"

text \<open>The message, a one bit, zeros up to 56 modulo 64 bytes, and the length in bits on 8 bytes.\<close>

definition big_endian :: "nat \<Rightarrow> nat \<Rightarrow> nat list" where
  "big_endian k n = map (\<lambda>i. (n div 256 ^ (k - 1 - i)) mod 256) [0..<k]"

definition sha256_pad :: "nat list \<Rightarrow> nat list" where
  "sha256_pad bs = bs @ [128] @ replicate ((119 - length bs mod 64) mod 64) 0 @ big_endian 8 (8 * length bs)"

fun word_of_bytes :: "nat list \<Rightarrow> u32" where
  "word_of_bytes bs = of_nat (foldl (\<lambda>a b. a * 256 + b) 0 bs)"

fun chunks :: "nat \<Rightarrow> 'a list \<Rightarrow> 'a list list" where
  "chunks n [] = []"
| "chunks 0 (x # xs) = [x # xs]"
| "chunks (Suc n) (x # xs) = take (Suc n) (x # xs) # chunks (Suc n) (drop (Suc n) (x # xs))"

text \<open>The message schedule, newest word first.\<close>

definition schedule_word :: "u32 list \<Rightarrow> u32" where
  "schedule_word ws =
     (let w2 = ws ! 1; w7 = ws ! 6; w15 = ws ! 14; w16 = ws ! 15;
          s0 = word_rotr 7 w15 XOR word_rotr 18 w15 XOR drop_bit 3 w15;
          s1 = word_rotr 17 w2 XOR word_rotr 19 w2 XOR drop_bit 10 w2
      in w16 + s0 + w7 + s1)"

fun extend_schedule :: "nat \<Rightarrow> u32 list \<Rightarrow> u32 list" where
  "extend_schedule 0 ws = rev ws"
| "extend_schedule (Suc n) ws = extend_schedule n (schedule_word ws # ws)"

fun sha256_round :: "sha256_state \<Rightarrow> u32 \<times> u32 \<Rightarrow> sha256_state" where
  "sha256_round (a, b, c, d, e, f, g, h) (k, w) =
     (let s1 = word_rotr 6 e XOR word_rotr 11 e XOR word_rotr 25 e;
          ch = (e AND f) XOR ((NOT e) AND g);
          t1 = h + s1 + ch + k + w;
          s0 = word_rotr 2 a XOR word_rotr 13 a XOR word_rotr 22 a;
          maj = (a AND b) XOR (a AND c) XOR (b AND c)
      in (t1 + (s0 + maj), a, b, c, d + t1, e, f, g))"

fun add_state :: "sha256_state \<Rightarrow> sha256_state \<Rightarrow> sha256_state" where
  "add_state (a, b, c, d, e, f, g, h) (a', b', c', d', e', f', g', h') =
     (a + a', b + b', c + c', d + d', e + e', f + f', g + g', h + h')"

definition sha256_block :: "sha256_state \<Rightarrow> nat list \<Rightarrow> sha256_state" where
  "sha256_block s block =
     add_state s (foldl sha256_round s
       (zip sha256_K (extend_schedule 48 (rev (map word_of_bytes (chunks 4 block))))))"

fun state_words :: "sha256_state \<Rightarrow> u32 list" where
  "state_words (a, b, c, d, e, f, g, h) = [a, b, c, d, e, f, g, h]"

definition Sum256 :: "string \<Rightarrow> nat list" where
  "Sum256 bytes =
     concat (map (\<lambda>w. big_endian 4 (unat w))
       (state_words (foldl sha256_block sha256_init (chunks 64 (sha256_pad (map byte bytes))))))"

definition hex_EncodeToString :: "nat list \<Rightarrow> string" where
  "hex_EncodeToString bs = concat (map (\<lambda>b. [hex_digit (b div 16), hex_digit (b mod 16)]) bs)"

definition sha256_hex :: "string \<Rightarrow> string" where
  "sha256_hex bytes = hex_EncodeToString (Sum256 bytes)"

section \<open>The shape of a digest\<close>

lemma length_state_words [simp]: "length (state_words s) = 8"
  by (cases s rule: state_words.cases) simp

lemma length_big_endian [simp]: "length (big_endian k n) = k"
  by (simp add: big_endian_def)

lemma length_Sum256: "length (Sum256 s) = 32"
  by (simp add: Sum256_def length_concat o_def sum_list_triv)

lemma length_hex: "length (hex_EncodeToString bs) = 2 * length bs"
  by (induction bs) (simp_all add: hex_EncodeToString_def)

lemma length_sha256_hex [simp]: "length (sha256_hex s) = 64"
  by (simp add: sha256_hex_def length_hex length_Sum256)

lemma Sum256_bytes: "b \<in> set (Sum256 s) \<Longrightarrow> b < 256"
  by (auto simp: Sum256_def big_endian_def)

text \<open>A digest is never blank.\<close>

lemma byte_hex_digit: "k < 16 \<Longrightarrow> 48 \<le> byte (hex_digit k) \<and> byte (hex_digit k) < 128"
  by (auto simp: hex_digit_def byte_def)

lemma sha256_hex_not_blank [simp]: "\<not> TrimSpace_is_empty (sha256_hex s)"
proof -
  obtain b bs where b: "Sum256 s = b # bs" using length_Sum256 [of s] by (cases "Sum256 s") simp_all
  then have "b div 16 < 16" using Sum256_bytes [of b s] by simp
  from byte_hex_digit [OF this] show ?thesis
    by (simp add: sha256_hex_def b hex_EncodeToString_def rune_width_def rune_is_space_def)
qed

end
