(* ===== verification/WagerPayload.thy ===== *)
theory WagerPayload
  imports WagerTransaction Sha256
begin

text \<open>
  \<open>internal/application/wager_payload.go\<close>: the input of \<open>ProcessWager\<close> and the hash of its financial
  content. The hash is the SHA-256 digest of a JSON document whose members are in a fixed order, and
  that document determines the content. \<open>uuid.UUID.String\<close> of \<open>google/uuid\<close> is a parameter.
\<close>

section \<open>The input and its hash\<close>

record ProcessWagerInput =
  in_ProviderID :: string
  in_ExternalTransactionID :: string
  in_IdempotencyKey :: string
  in_PlayerID :: uuid
  in_WalletID :: uuid
  in_RoundID :: string
  in_GameID :: string
  in_Kind :: WagerKind
  in_Money :: money
  in_ReferenceExternalTransactionID :: "string option"
  in_CorrelationID :: string
  in_CausationID :: string

definition payload_document :: "(uuid \<Rightarrow> string) \<Rightarrow> ProcessWagerInput \<Rightarrow> string" where
  "payload_document uuid_String i =
     json_object
      ([json_member ''externalTransactionId'' (json_string (in_ExternalTransactionID i)),
        json_member ''gameId'' (json_string (in_GameID i)),
        json_member ''kind'' (json_string (WagerKind_text (in_Kind i))),
        json_member ''money''
          (json_object [json_member ''amount'' (json_string (Money_String (in_Money i))),
                        json_member ''currency'' (json_string (currency (in_Money i)))]),
        json_member ''playerId'' (json_string (uuid_String (in_PlayerID i))),
        json_member ''providerId'' (json_string (in_ProviderID i))] @
       (case in_ReferenceExternalTransactionID i of
          None \<Rightarrow> []
        | Some r \<Rightarrow> [json_member ''referenceExternalTransactionId'' (json_string r)]) @
       [json_member ''roundId'' (json_string (in_RoundID i)),
        json_member ''walletId'' (json_string (uuid_String (in_WalletID i)))])"

definition payloadHash :: "(uuid \<Rightarrow> string) \<Rightarrow> ProcessWagerInput \<Rightarrow> error + string" where
  "payloadHash uuid_String i =
     (case Money_Validate (in_Money i) of
        Some e \<Rightarrow> Inl e
      | None \<Rightarrow> Inr (sha256_hex (payload_document uuid_String i)))"

end
