(* ===== verification/LedgerEntry.thy ===== *)
theory LedgerEntry
  imports Money
begin

text \<open>
  \<open>internal/domain/wallet_ledger_entry.go\<close>: one line of the ledger and the arithmetic check of its balances.
\<close>

section \<open>The type and its constructor\<close>

datatype LedgerDirection =
    LedgerDirectionDebit
  | LedgerDirectionCredit
  | LedgerDirectionOther string

definition LedgerDirection_IsValid :: "LedgerDirection \<Rightarrow> bool" where
  "LedgerDirection_IsValid d =
     (case d of LedgerDirectionDebit \<Rightarrow> True | LedgerDirectionCredit \<Rightarrow> True | _ \<Rightarrow> False)"

record ledger_entry =
  e_id :: uuid
  e_walletID :: uuid
  e_transactionID :: uuid
  e_direction :: LedgerDirection
  e_money :: money
  e_balanceBefore :: money
  e_balanceAfter :: money
  e_createdAt :: time

definition validateLedgerBalance :: "LedgerDirection \<Rightarrow> money \<Rightarrow> money \<Rightarrow> money \<Rightarrow> error option" where
  "validateLedgerBalance d m balanceBefore balanceAfter =
     (case d of
        LedgerDirectionDebit \<Rightarrow>
          (case Money_Sub balanceBefore m of
             Inl e \<Rightarrow> Some e
           | Inr expected \<Rightarrow>
               if amount expected \<noteq> amount balanceAfter then Some ErrInvalidLedgerBalance else None)
      | LedgerDirectionCredit \<Rightarrow>
          (case Money_Add balanceBefore m of
             Inl e \<Rightarrow> Some e
           | Inr expected \<Rightarrow>
               if amount expected \<noteq> amount balanceAfter then Some ErrInvalidLedgerBalance else None)
      | LedgerDirectionOther _ \<Rightarrow> Some ErrInvalidLedgerDirection)"

definition NewWalletLedgerEntry ::
  "uuid \<Rightarrow> time \<Rightarrow> uuid \<Rightarrow> uuid \<Rightarrow> LedgerDirection \<Rightarrow> money \<Rightarrow> money \<Rightarrow> money \<Rightarrow> error + ledger_entry" where
  "NewWalletLedgerEntry fresh now walletID transactionID d m balanceBefore balanceAfter =
     (if walletID = uuid_Nil \<or> transactionID = uuid_Nil then Inl ErrInvalidLedgerEntry
      else if \<not> LedgerDirection_IsValid d then Inl ErrInvalidLedgerDirection
      else if \<not> Money_IsPositive m then Inl ErrInvalidLedgerEntry
      else if currency m \<noteq> currency balanceBefore \<or> currency m \<noteq> currency balanceAfter
        then Inl ErrCurrencyMismatch
      else (case validateLedgerBalance d m balanceBefore balanceAfter of
              Some e \<Rightarrow> Inl e
            | None \<Rightarrow>
                Inr \<lparr>e_id = fresh, e_walletID = walletID, e_transactionID = transactionID,
                     e_direction = d, e_money = m, e_balanceBefore = balanceBefore,
                     e_balanceAfter = balanceAfter, e_createdAt = now\<rparr>))"

section \<open>The signed effect of a line\<close>

definition direction_sign :: "LedgerDirection \<Rightarrow> int" where
  "direction_sign d =
     (case d of LedgerDirectionDebit \<Rightarrow> -1 | LedgerDirectionCredit \<Rightarrow> 1 | LedgerDirectionOther _ \<Rightarrow> 0)"

lemma direction_valid_iff:
  "LedgerDirection_IsValid d \<longleftrightarrow> d = LedgerDirectionDebit \<or> d = LedgerDirectionCredit"
  by (cases d) (simp_all add: LedgerDirection_IsValid_def)

lemma validateLedgerBalance_None:
  assumes "currency m = currency b" and "currency m = currency a" and "validCurrency (currency m)"
  shows "validateLedgerBalance d m b a = None \<longleftrightarrow>
    LedgerDirection_IsValid d \<and> cents_of a = cents_of b + direction_sign d * cents_of m"
proof (cases d)
  case LedgerDirectionDebit
  have "in_i64 (cents_of b - cents_of m) \<and> word_of_int (cents_of b - cents_of m) = amount a
      \<longleftrightarrow> cents_of a = cents_of b - cents_of m"
    by (rule of_int_in_range_iff)
  then show ?thesis
    using assms LedgerDirectionDebit
    by (auto simp: validateLedgerBalance_def Money_Sub_eq on_operands_def money_of_def
        direction_valid_iff direction_sign_def simp del: of_int_diff split: if_splits)
next
  case LedgerDirectionCredit
  have "in_i64 (cents_of b + cents_of m) \<and> word_of_int (cents_of b + cents_of m) = amount a
      \<longleftrightarrow> cents_of a = cents_of b + cents_of m"
    by (rule of_int_in_range_iff)
  then show ?thesis
    using assms LedgerDirectionCredit
    by (auto simp: validateLedgerBalance_def Money_Add_eq on_operands_def money_of_def
        direction_valid_iff direction_sign_def simp del: of_int_add split: if_splits)
next
  case (LedgerDirectionOther x3)
  then show ?thesis by (simp add: validateLedgerBalance_def direction_valid_iff)
qed

text \<open>The constructor accepts exactly the lines whose balances add up.\<close>

definition entry_balanced :: "LedgerDirection \<Rightarrow> money \<Rightarrow> money \<Rightarrow> money \<Rightarrow> bool" where
  "entry_balanced d m b a \<longleftrightarrow>
     LedgerDirection_IsValid d \<and> validCurrency (currency m) \<and> 0 < cents_of m \<and>
     currency b = currency m \<and> currency a = currency m \<and>
     cents_of a = cents_of b + direction_sign d * cents_of m"

lemma NewWalletLedgerEntry_ok_iff:
  "NewWalletLedgerEntry fresh now wid tid d m b a = Inr e \<longleftrightarrow>
     wid \<noteq> uuid_Nil \<and> tid \<noteq> uuid_Nil \<and> entry_balanced d m b a \<and>
     e = \<lparr>e_id = fresh, e_walletID = wid, e_transactionID = tid, e_direction = d, e_money = m,
          e_balanceBefore = b, e_balanceAfter = a, e_createdAt = now\<rparr>"
proof (cases "validCurrency (currency m) \<and> currency m = currency b \<and> currency m = currency a")
  case True
  note None_iff = validateLedgerBalance_None [of m b a d]
  show ?thesis
  proof (cases "validateLedgerBalance d m b a")
    case None
    then show ?thesis
      using True None_iff
      by (auto simp: NewWalletLedgerEntry_def entry_balanced_def Money_IsPositive_iff)
  next
    case (Some err)
    then show ?thesis
      using True None_iff
      by (auto simp: NewWalletLedgerEntry_def entry_balanced_def)
  qed
next
  case False
  then show ?thesis
    by (auto simp: NewWalletLedgerEntry_def entry_balanced_def Money_IsPositive_iff)
qed

section \<open>Properties\<close>

text \<open>A line of the ledger is accepted exactly when its identifiers are set, its direction is one of the two,
  its amount is positive, the three currencies agree and the balance after is the balance before plus or
  minus the amount, as integers.\<close>

theorem ledger_entry_exact:
  "NewWalletLedgerEntry fresh now wid tid d m b a = Inr e \<longleftrightarrow>
     wid \<noteq> uuid_Nil \<and> tid \<noteq> uuid_Nil \<and> entry_balanced d m b a \<and>
     e = \<lparr>e_id = fresh, e_walletID = wid, e_transactionID = tid, e_direction = d, e_money = m,
          e_balanceBefore = b, e_balanceAfter = a, e_createdAt = now\<rparr>"
  by (rule NewWalletLedgerEntry_ok_iff)

end
