(* ===== verification/Events.thy ===== *)
theory Events
  imports WagerTransaction LedgerEntry
begin

text \<open>
  \<open>internal/domain/events.go\<close>: the four integration events, the checks their constructors make and what
  they serialise. The Go structs with their JSON tags are the constructors of one datatype; the
  JSON document of an event is the event itself with the texts as JSON can carry them.
\<close>

section \<open>The payloads\<close>

record event_metadata =
  ev_EventID :: uuid
  ev_EventType :: string
  ev_AggregateID :: uuid
  ev_CorrelationID :: string
  ev_CausationID :: string
  ev_OccurredAt :: time
  ev_Version :: int

record wager_event_data =
  ed_TransactionID :: uuid
  ed_WalletID :: uuid
  ed_PlayerID :: uuid
  ed_ProviderID :: string
  ed_ExternalTransactionID :: string
  ed_RoundID :: string
  ed_GameID :: string
  ed_Kind :: WagerKind
  ed_Money :: money
  ed_ReferenceExternalTransactionID :: string

record balance_event_data =
  eb_WalletID :: uuid
  eb_TransactionID :: uuid
  eb_Direction :: LedgerDirection
  eb_Money :: money
  eb_BalanceBefore :: money
  eb_BalanceAfter :: money
  eb_WalletVersion :: i64

datatype event =
    WagerTransactionProcessed event_metadata wager_event_data money
  | WagerTransactionRejected event_metadata wager_event_data string
  | WagerTransactionPendingReference event_metadata wager_event_data
  | WalletBalanceChanged event_metadata balance_event_data

fun event_metadata_of :: "event \<Rightarrow> event_metadata" where
  "event_metadata_of (WagerTransactionProcessed m _ _) = m"
| "event_metadata_of (WagerTransactionRejected m _ _) = m"
| "event_metadata_of (WagerTransactionPendingReference m _) = m"
| "event_metadata_of (WalletBalanceChanged m _) = m"

definition EventID :: "event \<Rightarrow> uuid" where
  "EventID e = ev_EventID (event_metadata_of e)"

fun event_transaction_id :: "event \<Rightarrow> uuid" where
  "event_transaction_id (WagerTransactionProcessed _ d _) = ed_TransactionID d"
| "event_transaction_id (WagerTransactionRejected _ d _) = ed_TransactionID d"
| "event_transaction_id (WagerTransactionPendingReference _ d) = ed_TransactionID d"
| "event_transaction_id (WalletBalanceChanged _ d) = eb_TransactionID d"

section \<open>Constructors\<close>

definition newEventMetadata ::
  "uuid \<Rightarrow> string \<Rightarrow> uuid \<Rightarrow> time \<Rightarrow> string \<Rightarrow> string \<Rightarrow> error + event_metadata" where
  "newEventMetadata fresh eventType aggregateID occurredAt correlationID causationID =
     (if aggregateID = uuid_Nil \<or> Time_IsZero occurredAt \<or> TrimSpace_is_empty correlationID
        then Inl ErrInvalidEvent
      else Inr \<lparr>ev_EventID = fresh, ev_EventType = eventType, ev_AggregateID = aggregateID,
                ev_CorrelationID = correlationID, ev_CausationID = causationID,
                ev_OccurredAt = occurredAt, ev_Version = 1\<rparr>)"

definition newWagerEventData :: "wager_transaction \<Rightarrow> wager_event_data" where
  "newWagerEventData t =
     \<lparr>ed_TransactionID = t_id t, ed_WalletID = t_walletID t, ed_PlayerID = t_playerID t,
      ed_ProviderID = t_providerID t, ed_ExternalTransactionID = t_externalTransactionID t,
      ed_RoundID = t_roundID t, ed_GameID = t_gameID t, ed_Kind = t_kind t, ed_Money = t_money t,
      ed_ReferenceExternalTransactionID =
        (case t_referenceExternalTransactionID t of None \<Rightarrow> '''' | Some r \<Rightarrow> r)\<rparr>"

definition NewWagerTransactionProcessed ::
  "uuid \<Rightarrow> wager_transaction \<Rightarrow> string \<Rightarrow> string \<Rightarrow> error + event" where
  "NewWagerTransactionProcessed fresh t correlationID causationID =
     (if Wager_validate (Some t) \<noteq> None \<or> t_status t \<noteq> WagerStatusProcessed then Inl ErrInvalidEvent
      else (case newEventMetadata fresh ''WagerTransactionProcessed'' (t_walletID t) (t_updatedAt t)
                   correlationID causationID of
              Inl e \<Rightarrow> Inl e
            | Inr metadata \<Rightarrow>
                Inr (WagerTransactionProcessed metadata (newWagerEventData t) (the (t_resultBalance t)))))"

definition NewWagerTransactionRejected ::
  "uuid \<Rightarrow> wager_transaction \<Rightarrow> string \<Rightarrow> string \<Rightarrow> error + event" where
  "NewWagerTransactionRejected fresh t correlationID causationID =
     (if Wager_validate (Some t) \<noteq> None \<or> t_status t \<noteq> WagerStatusRejected then Inl ErrInvalidEvent
      else (case newEventMetadata fresh ''WagerTransactionRejected'' (t_walletID t) (t_updatedAt t)
                   correlationID causationID of
              Inl e \<Rightarrow> Inl e
            | Inr metadata \<Rightarrow>
                Inr (WagerTransactionRejected metadata (newWagerEventData t) (the (t_failureCode t)))))"

definition NewWagerTransactionPendingReference ::
  "uuid \<Rightarrow> wager_transaction \<Rightarrow> string \<Rightarrow> string \<Rightarrow> error + event" where
  "NewWagerTransactionPendingReference fresh t correlationID causationID =
     (if Wager_validate (Some t) \<noteq> None \<or> t_status t \<noteq> WagerStatusPendingReference
        then Inl ErrInvalidEvent
      else (case newEventMetadata fresh ''WagerTransactionPendingReference'' (t_walletID t)
                   (t_updatedAt t) correlationID causationID of
              Inl e \<Rightarrow> Inl e
            | Inr metadata \<Rightarrow> Inr (WagerTransactionPendingReference metadata (newWagerEventData t))))"

definition NewWalletBalanceChanged ::
  "uuid \<Rightarrow> wager_transaction \<Rightarrow> ledger_entry option \<Rightarrow> i64 \<Rightarrow> string \<Rightarrow> string \<Rightarrow> error + event" where
  "NewWalletBalanceChanged fresh t ptr walletVersion correlationID causationID =
     (if Wager_validate (Some t) \<noteq> None \<or> t_status t \<noteq> WagerStatusProcessed then Inl ErrInvalidEvent
      else (case ptr of
         None \<Rightarrow> Inl ErrInvalidEvent
       | Some entry \<Rightarrow>
          if e_id entry = uuid_Nil \<or> Time_IsZero (e_createdAt entry) \<or> \<not> Money_IsPositive (e_money entry)
            then Inl ErrInvalidEvent
          else if e_walletID entry \<noteq> t_walletID t \<or> e_transactionID entry \<noteq> t_id t \<or>
                  e_money entry \<noteq> t_money t then Inl ErrInvalidEvent
          else if Some (e_balanceAfter entry) \<noteq> t_resultBalance t then Inl ErrInvalidEvent
          else if Money_Validate (e_balanceBefore entry) \<noteq> None \<or>
                  Money_Validate (e_balanceAfter entry) \<noteq> None then Inl ErrInvalidEvent
          else if amount (e_balanceBefore entry) <s 0 \<or> amount (e_balanceAfter entry) <s 0
            then Inl ErrInvalidEvent
          else if validateLedgerBalance (e_direction entry) (e_money entry) (e_balanceBefore entry)
                    (e_balanceAfter entry) \<noteq> None then Inl ErrInvalidEvent
          else if (case t_kind t of
                     WagerKindOpening \<Rightarrow>
                       walletVersion \<noteq> 1 \<or> \<not> Money_IsZero (e_balanceBefore entry) \<or>
                       e_direction entry \<noteq> LedgerDirectionCredit
                   | WagerKindBet \<Rightarrow> e_direction entry \<noteq> LedgerDirectionDebit
                   | WagerKindWin \<Rightarrow> e_direction entry \<noteq> LedgerDirectionCredit
                   | WagerKindRefund \<Rightarrow> e_direction entry \<noteq> LedgerDirectionCredit
                   | WagerKindLoss \<Rightarrow> True
                   | _ \<Rightarrow> False) then Inl ErrInvalidEvent
          else if walletVersion <s 1 \<or> (t_kind t \<noteq> WagerKindOpening \<and> walletVersion <s 2)
            then Inl ErrInvalidEvent
          else (case newEventMetadata fresh ''WalletBalanceChanged'' (t_walletID t) (t_updatedAt t)
                       correlationID causationID of
                  Inl e \<Rightarrow> Inl e
                | Inr metadata \<Rightarrow>
                    Inr (WalletBalanceChanged metadata
                      \<lparr>eb_WalletID = e_walletID entry, eb_TransactionID = e_transactionID entry,
                       eb_Direction = e_direction entry, eb_Money = e_money entry,
                       eb_BalanceBefore = e_balanceBefore entry, eb_BalanceAfter = e_balanceAfter entry,
                       eb_WalletVersion = walletVersion\<rparr>))))"

section \<open>Serialisation\<close>

text \<open>
  \<open>MarshalJSON\<close> refuses the zero event and \<open>Money.MarshalJSON\<close> an unknown currency. Texts are written
  as valid UTF-8. The instants are those of \<open>time.Now()\<close>, whose years RFC 3339 can write.
\<close>

definition coerce_metadata :: "event_metadata \<Rightarrow> event_metadata" where
  "coerce_metadata m =
     m\<lparr>ev_CorrelationID := utf8_coerce (ev_CorrelationID m),
       ev_CausationID := utf8_coerce (ev_CausationID m)\<rparr>"

definition coerce_data :: "wager_event_data \<Rightarrow> wager_event_data" where
  "coerce_data d =
     d\<lparr>ed_ProviderID := utf8_coerce (ed_ProviderID d),
       ed_ExternalTransactionID := utf8_coerce (ed_ExternalTransactionID d),
       ed_RoundID := utf8_coerce (ed_RoundID d),
       ed_GameID := utf8_coerce (ed_GameID d),
       ed_ReferenceExternalTransactionID := utf8_coerce (ed_ReferenceExternalTransactionID d)\<rparr>"

fun event_document :: "event \<Rightarrow> event" where
  "event_document (WagerTransactionProcessed m d b) =
     WagerTransactionProcessed (coerce_metadata m) (coerce_data d) b"
| "event_document (WagerTransactionRejected m d c) =
     WagerTransactionRejected (coerce_metadata m) (coerce_data d) (utf8_coerce c)"
| "event_document (WagerTransactionPendingReference m d) =
     WagerTransactionPendingReference (coerce_metadata m) (coerce_data d)"
| "event_document (WalletBalanceChanged m d) = WalletBalanceChanged (coerce_metadata m) d"

fun event_monies :: "event \<Rightarrow> money list" where
  "event_monies (WagerTransactionProcessed m d b) = [ed_Money d, b]"
| "event_monies (WagerTransactionRejected m d c) = [ed_Money d]"
| "event_monies (WagerTransactionPendingReference m d) = [ed_Money d]"
| "event_monies (WalletBalanceChanged m d) = [eb_Money d, eb_BalanceBefore d, eb_BalanceAfter d]"

definition Event_MarshalJSON :: "event \<Rightarrow> error + event" where
  "Event_MarshalJSON e =
     (if EventID e = uuid_Nil then Inl ErrInvalidEvent
      else if list_ex (\<lambda>m. Money_Validate m \<noteq> None) (event_monies e) then Inl ErrInvalidMoney
      else Inr (event_document e))"

section \<open>What a constructed event says\<close>

lemma newEventMetadata_ok_iff:
  "newEventMetadata fresh ty agg occ corr caus = Inr m \<longleftrightarrow>
     agg \<noteq> uuid_Nil \<and> occ \<noteq> 0 \<and> \<not> TrimSpace_is_empty corr \<and>
     m = \<lparr>ev_EventID = fresh, ev_EventType = ty, ev_AggregateID = agg, ev_CorrelationID = corr,
          ev_CausationID = caus, ev_OccurredAt = occ, ev_Version = 1\<rparr>"
  by (auto simp: newEventMetadata_def Time_IsZero_def)

lemma newEventMetadata_errors: "newEventMetadata a b c d e f = Inl err \<Longrightarrow> err = ErrInvalidEvent"
  by (auto simp: newEventMetadata_def split: if_splits)

lemma event_constructor_errors:
  "NewWagerTransactionProcessed a t b c = Inl e \<Longrightarrow> e = ErrInvalidEvent"
  "NewWagerTransactionRejected a t b c = Inl e \<Longrightarrow> e = ErrInvalidEvent"
  "NewWagerTransactionPendingReference a t b c = Inl e \<Longrightarrow> e = ErrInvalidEvent"
  by (auto simp: NewWagerTransactionProcessed_def NewWagerTransactionRejected_def
      NewWagerTransactionPendingReference_def dest: newEventMetadata_errors split: if_splits sum.splits)

text \<open>The constructors succeed on the transactions of their state and record the wallet as aggregate.\<close>

lemma event_constructor_ok_iffs:
  "(\<exists>e. NewWagerTransactionProcessed fresh t corr caus = Inr e) \<longleftrightarrow>
     wager_valid t \<and> t_status t = WagerStatusProcessed \<and> t_updatedAt t \<noteq> 0 \<and> \<not> TrimSpace_is_empty corr"
  "(\<exists>e. NewWagerTransactionRejected fresh t corr caus = Inr e) \<longleftrightarrow>
     wager_valid t \<and> t_status t = WagerStatusRejected \<and> t_updatedAt t \<noteq> 0 \<and> \<not> TrimSpace_is_empty corr"
  "(\<exists>e. NewWagerTransactionPendingReference fresh t corr caus = Inr e) \<longleftrightarrow>
     wager_valid t \<and> t_status t = WagerStatusPendingReference \<and> t_updatedAt t \<noteq> 0 \<and>
     \<not> TrimSpace_is_empty corr"
  by (auto simp: NewWagerTransactionProcessed_def NewWagerTransactionRejected_def
      NewWagerTransactionPendingReference_def newEventMetadata_def Time_IsZero_def wager_valid_iff)

section \<open>Properties\<close>

text \<open>The three events of an operation can be built exactly from a valid operation in their state with a
  correlation, under the wallet as aggregate; every other input is an invalid event.\<close>

theorem wager_events_exact:
  "((\<exists>e. NewWagerTransactionProcessed fresh t corr caus = Inr e) \<longleftrightarrow>
     wager_valid t \<and> t_status t = WagerStatusProcessed \<and> t_updatedAt t \<noteq> 0 \<and> \<not> TrimSpace_is_empty corr) \<and>
   ((\<exists>e. NewWagerTransactionRejected fresh t corr caus = Inr e) \<longleftrightarrow>
     wager_valid t \<and> t_status t = WagerStatusRejected \<and> t_updatedAt t \<noteq> 0 \<and> \<not> TrimSpace_is_empty corr) \<and>
   ((\<exists>e. NewWagerTransactionPendingReference fresh t corr caus = Inr e) \<longleftrightarrow>
     wager_valid t \<and> t_status t = WagerStatusPendingReference \<and> t_updatedAt t \<noteq> 0 \<and>
     \<not> TrimSpace_is_empty corr)"
  by (intro conjI) (rule event_constructor_ok_iffs)+

end
