(* ===== verification/Ports.thy ===== *)
theory Ports
  imports Events
begin

text \<open>
  \<open>internal/application/ports\<close>: the interfaces through which the use cases reach the database. A Go interface
  is a record of operations on the state \<open>'s\<close> of the SQL transaction; \<open>ports.Repositories\<close> bundles
  them. One locale for each interface states what an implementation owes to the use cases:
  every operation acts, on what the use case can see, as a given reference implementation, or
  fails with an infrastructure error and changes nothing.
\<close>

section \<open>The interfaces\<close>

record PendingReference =
  pr_Transaction :: wager_transaction
  pr_Attempts :: int
  pr_CorrelationID :: string
  pr_CausationID :: string

record 's repositories =
  wallets_Create :: "wallet \<Rightarrow> ('s, unit) act"
  wallets_FindByID :: "uuid \<Rightarrow> ('s, wallet) act"
  wallets_FindByIDForUpdate :: "uuid \<Rightarrow> ('s, wallet) act"
  wallets_Update :: "wallet \<Rightarrow> ('s, unit) act"
  wagers_Create :: "wager_transaction \<Rightarrow> ('s, unit) act"
  wagers_FindByID :: "string \<Rightarrow> uuid \<Rightarrow> ('s, wager_transaction) act"
  wagers_FindByExternalID :: "string \<Rightarrow> string \<Rightarrow> ('s, wager_transaction) act"
  wagers_FindByIdempotencyKey :: "string \<Rightarrow> string \<Rightarrow> ('s, wager_transaction) act"
  wagers_HasSuccessfulReversal :: "uuid \<Rightarrow> ('s, bool) act"
  wagers_Update :: "wager_transaction \<Rightarrow> ('s, unit) act"
  wagers_ClaimPendingReference :: "('s, PendingReference option) act"
  wagers_ScheduleReferenceRetry :: "uuid \<Rightarrow> int \<Rightarrow> duration \<Rightarrow> ('s, unit) act"
  ledger_Create :: "ledger_entry \<Rightarrow> ('s, unit) act"
  inbox_Register :: "string \<Rightarrow> string \<Rightarrow> string \<Rightarrow> ('s, bool) act"
  inbox_Complete :: "string \<Rightarrow> string \<Rightarrow> ('s, unit) act"
  outbox_Create :: "event \<Rightarrow> ('s, unit) act"

section \<open>What an implementation owes\<close>

locale wallet_port =
  fixes impl :: "'s repositories" and spec :: "'t repositories" and view :: "'s \<Rightarrow> 't"
  assumes wallets_Create_sim: "simulates view (wallets_Create impl w) (wallets_Create spec w)"
    and wallets_FindByID_sim: "simulates view (wallets_FindByID impl i) (wallets_FindByID spec i)"
    and wallets_FindByIDForUpdate_sim:
      "simulates view (wallets_FindByIDForUpdate impl i) (wallets_FindByIDForUpdate spec i)"
    and wallets_Update_sim: "simulates view (wallets_Update impl w) (wallets_Update spec w)"

locale wager_port =
  fixes impl :: "'s repositories" and spec :: "'t repositories" and view :: "'s \<Rightarrow> 't"
  assumes wagers_Create_sim: "simulates view (wagers_Create impl t) (wagers_Create spec t)"
    and wagers_FindByID_sim: "simulates view (wagers_FindByID impl p i) (wagers_FindByID spec p i)"
    and wagers_FindByExternalID_sim:
      "simulates view (wagers_FindByExternalID impl p x) (wagers_FindByExternalID spec p x)"
    and wagers_FindByIdempotencyKey_sim:
      "simulates view (wagers_FindByIdempotencyKey impl p k) (wagers_FindByIdempotencyKey spec p k)"
    and wagers_HasSuccessfulReversal_sim:
      "simulates view (wagers_HasSuccessfulReversal impl i) (wagers_HasSuccessfulReversal spec i)"
    and wagers_Update_sim: "simulates view (wagers_Update impl t) (wagers_Update spec t)"
    and wagers_ClaimPendingReference_sim:
      "simulates view (wagers_ClaimPendingReference impl) (wagers_ClaimPendingReference spec)"
    and wagers_ScheduleReferenceRetry_sim:
      "simulates view (wagers_ScheduleReferenceRetry impl i n d) (wagers_ScheduleReferenceRetry spec i n d)"

locale ledger_port =
  fixes impl :: "'s repositories" and spec :: "'t repositories" and view :: "'s \<Rightarrow> 't"
  assumes ledger_Create_sim: "simulates view (ledger_Create impl e) (ledger_Create spec e)"

locale inbox_port =
  fixes impl :: "'s repositories" and spec :: "'t repositories" and view :: "'s \<Rightarrow> 't"
  assumes inbox_Register_sim: "simulates view (inbox_Register impl c m h) (inbox_Register spec c m h)"
    and inbox_Complete_sim: "simulates view (inbox_Complete impl c m) (inbox_Complete spec c m)"

locale outbox_port =
  fixes impl :: "'s repositories" and spec :: "'t repositories" and view :: "'s \<Rightarrow> 't"
  assumes outbox_Create_sim: "simulates view (outbox_Create impl ev) (outbox_Create spec ev)"

locale ports = wallet_port impl spec view + wager_port impl spec view + ledger_port impl spec view +
    inbox_port impl spec view + outbox_port impl spec view
  for impl :: "'s repositories" and spec :: "'t repositories" and view :: "'s \<Rightarrow> 't"
begin

lemmas port_sims =
  wallets_Create_sim wallets_FindByID_sim wallets_FindByIDForUpdate_sim wallets_Update_sim
  wagers_Create_sim wagers_FindByID_sim wagers_FindByExternalID_sim wagers_FindByIdempotencyKey_sim
  wagers_HasSuccessfulReversal_sim wagers_Update_sim wagers_ClaimPendingReference_sim
  wagers_ScheduleReferenceRetry_sim ledger_Create_sim inbox_Register_sim inbox_Complete_sim
  outbox_Create_sim

lemmas port_sims_tx = port_sims [THEN simulates_imp_tx]

end

end
