(* ===== verification/ProcessWager.thy ===== *)
theory ProcessWager
  imports WagerPayload Ports
begin

text \<open>
  \<open>internal/application/process_wager.go\<close>: the use case that processes one operation of a provider, over
  the interfaces of \<open>Ports\<close>. Mutated pointers are passed in and returned; the readings of \<open>time.Now()\<close>
  and the identifiers of \<open>uuid.New()\<close> are named by the place in the code that takes them.
\<close>

section \<open>Readings and identifiers\<close>

datatype clock_site =
    at_NewWagerTransaction | at_ResolveReference | at_MarkPendingReference | at_wallet_movement
  | at_MarkProcessed | at_Reject | at_NewWalletLedgerEntry | at_NewWallet

datatype id_site =
    id_transaction | id_correlation | id_processed | id_rejected | id_waiting | id_entry | id_changed
  | id_wallet

record env =
  env_now :: "clock_site \<Rightarrow> time"
  env_id :: "id_site \<Rightarrow> uuid"
  env_uuid_String :: "uuid \<Rightarrow> string"
  env_NewSHA1 :: "uuid \<Rightarrow> string \<Rightarrow> uuid"

section \<open>Results\<close>

definition FailureInsufficientBalance :: string where
  "FailureInsufficientBalance = ''INSUFFICIENT_BALANCE''"

definition FailureReversalInsufficientBalance :: string where
  "FailureReversalInsufficientBalance = ''REVERSAL_INSUFFICIENT_BALANCE''"

definition FailureInvalidReference :: string where
  "FailureInvalidReference = ''INVALID_REFERENCE''"

definition FailureReferenceUnsuccessful :: string where
  "FailureReferenceUnsuccessful = ''REFERENCE_UNSUCCESSFUL''"

definition FailureAlreadyReversed :: string where
  "FailureAlreadyReversed = ''ALREADY_REVERSED''"

definition FailureMoneyOverflow :: string where
  "FailureMoneyOverflow = ''MONEY_OVERFLOW''"

definition FailureReferenceNotFound :: string where
  "FailureReferenceNotFound = ''REFERENCE_NOT_FOUND''"

lemmas failure_codes =
  FailureInsufficientBalance_def FailureReversalInsufficientBalance_def FailureInvalidReference_def
  FailureReferenceUnsuccessful_def FailureAlreadyReversed_def FailureMoneyOverflow_def
  FailureReferenceNotFound_def

record WagerResult =
  wres_TransactionID :: uuid
  wres_Status :: WagerStatus
  wres_Balance :: "money option"
  wres_FailureCode :: "string option"
  wres_IdempotentReplay :: bool

definition wagerResult :: "wager_transaction \<Rightarrow> bool \<Rightarrow> WagerResult" where
  "wagerResult t replay =
     \<lparr>wres_TransactionID = t_id t, wres_Status = t_status t, wres_Balance = t_resultBalance t,
      wres_FailureCode = t_failureCode t, wres_IdempotentReplay = replay\<rparr>"

section \<open>Replays\<close>

definition judge_replay ::
  "wager_transaction \<Rightarrow> error + wager_transaction \<Rightarrow> ('s, WagerResult option) act" where
  "judge_replay requested found =
     (case found of
        Inl e \<Rightarrow> if errors_Is e ErrWagerNotFound then act_return None else act_raise e
      | Inr existing \<Rightarrow>
          if t_payloadHash existing \<noteq> t_payloadHash requested \<or>
             t_idempotencyKey existing \<noteq> t_idempotencyKey requested
            then act_raise ErrIdempotencyConflict
          else act_return (Some (wagerResult existing True)))"

definition findWagerReplay ::
  "'s repositories \<Rightarrow> wager_transaction \<Rightarrow> ('s, WagerResult option) act" where
  "findWagerReplay r requested =
     act_bind (act_try (wagers_FindByIdempotencyKey r (t_providerID requested) (t_idempotencyKey requested)))
       (\<lambda>found. case found of
          Inl e \<Rightarrow>
            if errors_Is e ErrWagerNotFound then
              act_bind (act_try (wagers_FindByExternalID r (t_providerID requested)
                                   (t_externalTransactionID requested)))
                (judge_replay requested)
            else judge_replay requested (Inl e)
        | Inr existing \<Rightarrow> judge_replay requested (Inr existing))"

section \<open>Outcomes of one operation\<close>

text \<open>Each returns the transaction as the code leaves it.\<close>

definition rejectWager ::
  "env \<Rightarrow> 's repositories \<Rightarrow> wager_transaction \<Rightarrow> ProcessWagerInput \<Rightarrow> string \<Rightarrow> ('s, wager_transaction) act" where
  "rejectWager env r t input code =
     act_bind (act_lift (Wager_Reject (env_now env at_Reject) t code)) (\<lambda>t'.
     act_bind (wagers_Update r t') (\<lambda>_.
     act_bind (act_lift (NewWagerTransactionRejected (env_id env id_rejected) t'
                 (in_CorrelationID input) (in_CausationID input))) (\<lambda>ev.
     act_bind (outbox_Create r ev) (\<lambda>_.
     act_return t'))))"

definition waitForReference ::
  "env \<Rightarrow> 's repositories \<Rightarrow> wager_transaction \<Rightarrow> ProcessWagerInput \<Rightarrow> ('s, wager_transaction) act" where
  "waitForReference env r t input =
     (if t_status t = WagerStatusPendingReference then act_return t
      else
        act_bind (act_lift (MarkPendingReference (env_now env at_MarkPendingReference) t)) (\<lambda>t'.
        act_bind (wagers_Update r t') (\<lambda>_.
        act_bind (act_lift (NewWagerTransactionPendingReference (env_id env id_waiting) t'
                    (in_CorrelationID input) (in_CausationID input))) (\<lambda>ev.
        act_bind (outbox_Create r ev) (\<lambda>_.
        act_return t')))))"

text \<open>
  The first half of \<open>processWager\<close>: the resolution of the reference. \<open>Inl\<close> is a return of the
  function, \<open>Inr\<close> goes on with the reference found, if the operation has one.
\<close>

type_synonym resolution = "wager_transaction + wager_transaction \<times> wager_transaction option"

definition judge_reference ::
  "env \<Rightarrow> 's repositories \<Rightarrow> wager_transaction \<Rightarrow> ProcessWagerInput \<Rightarrow> wager_transaction \<Rightarrow>
   ('s, resolution) act" where
  "judge_reference env r t input reference =
     (case ResolveReference (env_now env at_ResolveReference) t (Some reference) of
        Inl e \<Rightarrow>
          if errors_Is e ErrReferenceNotProcessed then
            (if \<not> IsTerminal reference then act_bind (waitForReference env r t input) (\<lambda>t'. act_return (Inl t'))
             else act_bind (rejectWager env r t input FailureReferenceUnsuccessful) (\<lambda>t'. act_return (Inl t')))
          else if errors_Is e ErrInvalidWagerReference then
            act_bind (rejectWager env r t input FailureInvalidReference) (\<lambda>t'. act_return (Inl t'))
          else act_raise e
      | Inr t1 \<Rightarrow>
          if t_kind t1 = WagerKindRefund \<or> t_kind t1 = WagerKindRollback then
            act_bind (wagers_HasSuccessfulReversal r (t_id reference)) (\<lambda>reversed.
              if reversed then
                act_bind (rejectWager env r t1 input FailureAlreadyReversed) (\<lambda>t'. act_return (Inl t'))
              else act_return (Inr (t1, Some reference)))
          else act_return (Inr (t1, Some reference)))"

definition resolve_operation ::
  "env \<Rightarrow> 's repositories \<Rightarrow> wager_transaction \<Rightarrow> ProcessWagerInput \<Rightarrow> ('s, resolution) act" where
  "resolve_operation env r t input =
     (if needsReference t then
        act_bind (act_try (wagers_FindByExternalID r (t_providerID t) (the (t_referenceExternalTransactionID t))))
          (\<lambda>found. case found of
             Inl e \<Rightarrow>
               if errors_Is e ErrWagerNotFound
                 then act_bind (waitForReference env r t input) (\<lambda>t'. act_return (Inl t'))
               else act_raise e
           | Inr reference \<Rightarrow> judge_reference env r t input reference)
      else act_return (Inr (t, None)))"

text \<open>The second half: the movement, its record and its events.\<close>

definition movement_direction :: "wager_transaction \<Rightarrow> wager_transaction option \<Rightarrow> LedgerDirection" where
  "movement_direction t reference =
     (if t_kind t = WagerKindRollback \<and> t_kind (the reference) \<noteq> WagerKindBet then LedgerDirectionDebit
      else if t_kind t = WagerKindBet then LedgerDirectionDebit
      else LedgerDirectionCredit)"

definition record_outcome ::
  "env \<Rightarrow> 's repositories \<Rightarrow> LedgerDirection \<Rightarrow> money \<Rightarrow> wallet \<Rightarrow> wager_transaction \<Rightarrow> ProcessWagerInput \<Rightarrow>
   ('s, wager_transaction) act" where
  "record_outcome env r direction previous wallet t input =
     act_bind (act_lift (MarkProcessed (env_now env at_MarkProcessed) t (w_balance wallet))) (\<lambda>t'.
     act_bind (wagers_Update r t') (\<lambda>_.
     act_bind (act_lift (NewWagerTransactionProcessed (env_id env id_processed) t'
                 (in_CorrelationID input) (in_CausationID input))) (\<lambda>processed.
     act_bind (outbox_Create r processed) (\<lambda>_.
     if t_kind t' = WagerKindLoss then act_return t'
     else
       act_bind (act_lift (NewWalletLedgerEntry (env_id env id_entry) (env_now env at_NewWalletLedgerEntry)
                   (w_id wallet) (t_id t') direction (t_money t') previous (w_balance wallet))) (\<lambda>entry.
       act_bind (ledger_Create r entry) (\<lambda>_.
       act_bind (act_lift (NewWalletBalanceChanged (env_id env id_changed) t' (Some entry) (w_version wallet)
                   (in_CorrelationID input) (in_CausationID input))) (\<lambda>changed.
       act_bind (outbox_Create r changed) (\<lambda>_.
       act_return t'))))))))"

definition settle_operation ::
  "env \<Rightarrow> 's repositories \<Rightarrow> wallet \<Rightarrow> ProcessWagerInput \<Rightarrow> wager_transaction \<Rightarrow> wager_transaction option \<Rightarrow>
   ('s, wager_transaction) act" where
  "settle_operation env r wallet input t reference =
     (let direction = movement_direction t reference;
          previous = w_balance wallet
      in if t_kind t \<noteq> WagerKindLoss then
           (case (if direction = LedgerDirectionDebit
                    then Wallet_Debit (env_now env at_wallet_movement) wallet (t_money t)
                    else Wallet_Credit (env_now env at_wallet_movement) wallet (t_money t)) of
              Inl e \<Rightarrow>
                if errors_Is e ErrInsufficientBalance then
                  rejectWager env r t input
                    (if t_kind t = WagerKindRollback then FailureReversalInsufficientBalance
                     else FailureInsufficientBalance)
                else if errors_Is e ErrMoneyOverflow then rejectWager env r t input FailureMoneyOverflow
                else act_raise e
            | Inr wallet' \<Rightarrow>
                act_bind (wallets_Update r wallet') (\<lambda>_.
                record_outcome env r direction previous wallet' t input))
         else record_outcome env r direction previous wallet t input)"

definition processWager ::
  "env \<Rightarrow> 's repositories \<Rightarrow> wallet \<Rightarrow> wager_transaction \<Rightarrow> ProcessWagerInput \<Rightarrow> ('s, wager_transaction) act" where
  "processWager env r wallet t input =
     act_bind (resolve_operation env r t input) (\<lambda>resolution.
       case resolution of
         Inl t' \<Rightarrow> act_return t'
       | Inr q \<Rightarrow> settle_operation env r wallet input (fst q) (snd q))"

section \<open>The use case\<close>

type_synonym inboxMessage = "string \<times> string"

definition WagerConsumerName :: string where
  "WagerConsumerName = ''wager-transactions''"

text \<open>\<open>process\<close>, the closure of \<open>execute\<close>.\<close>

definition process_operation ::
  "env \<Rightarrow> ProcessWagerInput \<Rightarrow> wager_transaction \<Rightarrow> 's repositories \<Rightarrow> ('s, WagerResult) act" where
  "process_operation env input t r =
     act_bind (findWagerReplay r t) (\<lambda>replay. case replay of Some result \<Rightarrow> act_return result | None \<Rightarrow>
     act_bind (wallets_FindByIDForUpdate r (in_WalletID input)) (\<lambda>wallet.
     act_bind (findWagerReplay r t) (\<lambda>replay. case replay of Some result \<Rightarrow> act_return result | None \<Rightarrow>
     if w_playerID wallet \<noteq> in_PlayerID input \<or> currency (w_balance wallet) \<noteq> currency (in_Money input)
       then act_raise ErrWalletIdentityMismatch
     else
       act_bind (act_try (wagers_Create r t)) (\<lambda>created. case created of
         Inl e \<Rightarrow>
           if \<not> errors_Is e ErrWagerConflict then act_raise e
           else act_bind (findWagerReplay r t) (\<lambda>replay. case replay of
                  None \<Rightarrow> act_raise ErrIdempotencyConflict
                | Some result \<Rightarrow> act_return result)
       | Inr _ \<Rightarrow>
           act_bind (processWager env r wallet t input) (\<lambda>t'. act_return (wagerResult t' False))))))"

text \<open>The closure of the unit of work.\<close>

definition wager_work ::
  "env \<Rightarrow> ProcessWagerInput \<Rightarrow> wager_transaction \<Rightarrow> inboxMessage option \<Rightarrow> 's repositories \<Rightarrow>
   ('s, WagerResult) act" where
  "wager_work env input t message r =
     (case message of
        None \<Rightarrow> process_operation env input t r
      | Some (messageID, hash) \<Rightarrow>
          act_bind (inbox_Register r WagerConsumerName messageID hash) (\<lambda>duplicate.
            if duplicate then
              act_bind (findWagerReplay r t) (\<lambda>replay. case replay of
                None \<Rightarrow> act_raise ErrInboxIncomplete
              | Some result \<Rightarrow> act_return result)
            else
              act_bind (process_operation env input t r) (\<lambda>result.
              act_bind (inbox_Complete r WagerConsumerName messageID) (\<lambda>_.
              act_return result))))"

text \<open>The checks before the transaction, with the transaction to process and the completed input.\<close>

definition text_too_long :: "nat \<Rightarrow> string \<Rightarrow> bool" where
  "text_too_long limit s \<longleftrightarrow> \<not> utf8_ValidString s \<or> limit < utf8_RuneCountInString s"

definition prepare_wager ::
  "env \<Rightarrow> string \<Rightarrow> ProcessWagerInput \<Rightarrow> error + ProcessWagerInput \<times> wager_transaction" where
  "prepare_wager env authorizedProviderID input =
     (if TrimSpace_is_empty authorizedProviderID \<or> authorizedProviderID \<noteq> in_ProviderID input
        then Inl ErrProviderNotAuthorized
      else if text_too_long 100 (in_ProviderID input) then Inl ErrInvalidWagerTransaction
      else if list_ex (text_too_long 255)
                [in_ExternalTransactionID input, in_IdempotencyKey input, in_RoundID input, in_GameID input]
        then Inl ErrInvalidWagerTransaction
      else if in_ReferenceExternalTransactionID input \<noteq> None \<and>
              text_too_long 255 (the (in_ReferenceExternalTransactionID input))
        then Inl ErrInvalidWagerReference
      else (case payloadHash (env_uuid_String env) input of
              Inl e \<Rightarrow> Inl e
            | Inr hash \<Rightarrow>
                (case NewWagerTransaction (env_id env id_transaction) (env_now env at_NewWagerTransaction)
                        (in_ProviderID input) (in_ExternalTransactionID input) (in_IdempotencyKey input) hash
                        (in_WalletID input) (in_PlayerID input) (in_RoundID input) (in_GameID input)
                        (in_Kind input) (in_Money input) (in_ReferenceExternalTransactionID input) of
                   Inl e \<Rightarrow> Inl e
                 | Inr t \<Rightarrow>
                     Inr (if TrimSpace_is_empty (in_CorrelationID input)
                            then input\<lparr>in_CorrelationID := env_uuid_String env (env_id env id_correlation)\<rparr>
                            else input, t))))"

text \<open>
  \<open>execute\<close> over a unit of work: \<open>within\<close> runs a closure in a transaction, as \<open>UnitOfWork.WithinTransaction\<close> does.
\<close>

definition execute_wager ::
  "env \<Rightarrow> error option \<Rightarrow> (('s repositories \<Rightarrow> ('s, WagerResult) act) \<Rightarrow> ('d, WagerResult) act) \<Rightarrow>
   string \<Rightarrow> ProcessWagerInput \<Rightarrow> inboxMessage option \<Rightarrow> ('d, WagerResult) act" where
  "execute_wager env ctx_err within authorizedProviderID input message =
     (case ctx_err of
        Some e \<Rightarrow> act_raise e
      | None \<Rightarrow>
          (case prepare_wager env authorizedProviderID input of
             Inl e \<Rightarrow> act_raise e
           | Inr (input', t) \<Rightarrow> within (wager_work env input' t message)))"

definition ProcessWager_Execute ::
  "env \<Rightarrow> error option \<Rightarrow> (('s repositories \<Rightarrow> ('s, WagerResult) act) \<Rightarrow> ('d, WagerResult) act) \<Rightarrow>
   string \<Rightarrow> ProcessWagerInput \<Rightarrow> ('d, WagerResult) act" where
  "ProcessWager_Execute env ctx_err within authorizedProviderID input =
     execute_wager env ctx_err within authorizedProviderID input None"

definition ProcessWager_ExecuteMessage ::
  "env \<Rightarrow> error option \<Rightarrow> (('s repositories \<Rightarrow> ('s, WagerResult) act) \<Rightarrow> ('d, WagerResult) act) \<Rightarrow>
   string \<Rightarrow> ProcessWagerInput \<Rightarrow> string \<Rightarrow> string \<Rightarrow> ('d, WagerResult) act" where
  "ProcessWager_ExecuteMessage env ctx_err within authorizedProviderID input messageID body =
     (if TrimSpace_is_empty messageID \<or> \<not> utf8_ValidString messageID \<or> body = '''' then act_raise ErrInvalidMessage
      else execute_wager env ctx_err within authorizedProviderID input (Some (messageID, sha256_hex body)))"

section \<open>The use case respects the interfaces\<close>

text \<open>
  Over any implementation that keeps the promises of the interfaces the closure of the unit of work
  does what it does over the reference implementation, up to infrastructure failures.
\<close>

context ports
begin

lemma judge_replay_sim: "simulates_tx view (judge_replay t found) (judge_replay t found)"
  by (simp add: judge_replay_def simulation split: sum.split)

lemma judge_replay_infra: "fst (judge_replay t (Inl (Infra i)) s) = Inl (Infra i)"
  by (simp add: judge_replay_def act_simps)

lemma findWagerReplay_sim: "simulates_tx view (findWagerReplay impl t) (findWagerReplay spec t)"
  unfolding findWagerReplay_def
  by (intro simulates_tx_try port_sims_tx)
    (auto intro!: simulates_tx_try port_sims_tx judge_replay_sim simp: judge_replay_infra split: sum.split)

lemma rejectWager_sim: "simulates_tx view (rejectWager env impl t i c) (rejectWager env spec t i c)"
  unfolding rejectWager_def by (intro simulation port_sims_tx)

lemma waitForReference_sim: "simulates_tx view (waitForReference env impl t i) (waitForReference env spec t i)"
  unfolding waitForReference_def by (intro simulation port_sims_tx)

lemma judge_reference_sim:
  "simulates_tx view (judge_reference env impl t i ref) (judge_reference env spec t i ref)"
  unfolding judge_reference_def
  by (intro simulation port_sims_tx rejectWager_sim waitForReference_sim)

lemma resolve_operation_sim:
  "simulates_tx view (resolve_operation env impl t i) (resolve_operation env spec t i)"
  unfolding resolve_operation_def
  by (intro simulates_tx_if simulates_tx_try simulates_tx_return port_sims_tx)
    (auto intro!: simulation judge_reference_sim waitForReference_sim simp: act_simps split: sum.split)

lemma record_outcome_sim:
  "simulates_tx view (record_outcome env impl dir b w t i) (record_outcome env spec dir b w t i)"
  unfolding record_outcome_def by (intro simulation port_sims_tx)

lemma settle_operation_sim:
  "simulates_tx view (settle_operation env impl w i t ref) (settle_operation env spec w i t ref)"
  unfolding settle_operation_def Let_def
  by (intro simulation port_sims_tx rejectWager_sim record_outcome_sim)

lemma processWager_sim: "simulates_tx view (processWager env impl w t i) (processWager env spec w t i)"
  unfolding processWager_def by (intro simulation resolve_operation_sim settle_operation_sim)

lemma process_operation_sim:
  "simulates_tx view (process_operation env i t impl) (process_operation env i t spec)"
  unfolding process_operation_def
  by (intro simulates_tx_bind simulates_tx_option simulates_tx_if simulates_tx_return simulates_tx_raise
        simulates_tx_try findWagerReplay_sim port_sims_tx)
    (auto intro!: simulation findWagerReplay_sim processWager_sim simp: act_simps split: sum.split)

lemma wager_work_sim: "simulates_tx view (wager_work env i t msg impl) (wager_work env i t msg spec)"
  unfolding wager_work_def
  by (auto intro!: simulation port_sims_tx process_operation_sim findWagerReplay_sim split: option.split)

end

end
