(* ===== verification/OpenWallet.thy ===== *)
theory OpenWallet
  imports ProcessWager
begin

text \<open>
  \<open>internal/application/open_wallet.go\<close>: a wallet and, when it starts with money, its opening operation,
  the line of the ledger and the two events, in one transaction.
\<close>

record OpenWalletInput =
  ow_PlayerID :: uuid
  ow_InitialBalance :: money
  ow_CorrelationID :: string

definition open_work :: "env \<Rightarrow> wallet \<Rightarrow> string \<Rightarrow> 's repositories \<Rightarrow> ('s, unit) act" where
  "open_work env wallet correlationID r =
     act_bind (wallets_Create r wallet) (\<lambda>_.
     if Money_IsZero (w_balance wallet) then act_return ()
     else
       act_bind (act_lift (NewOpeningTransaction (env_NewSHA1 env) (env_now env at_MarkProcessed) (Some wallet)))
         (\<lambda>opening.
       act_bind (wagers_Create r opening) (\<lambda>_.
       act_bind (act_lift (ZeroMoney (currency (w_balance wallet)))) (\<lambda>previous.
       act_bind (act_lift (NewWalletLedgerEntry (env_id env id_entry) (env_now env at_NewWalletLedgerEntry)
                   (w_id wallet) (t_id opening) LedgerDirectionCredit (w_balance wallet) previous
                   (w_balance wallet))) (\<lambda>entry.
       act_bind (ledger_Create r entry) (\<lambda>_.
       act_bind (act_lift (NewWagerTransactionProcessed (env_id env id_processed) opening correlationID '''')) (\<lambda>processed.
       act_bind (act_lift (NewWalletBalanceChanged (env_id env id_changed) opening (Some entry)
                   (w_version wallet) correlationID '''')) (\<lambda>changed.
       act_bind (outbox_Create r processed) (\<lambda>_.
       outbox_Create r changed)))))))))"

definition OpenWallet_Execute ::
  "env \<Rightarrow> error option \<Rightarrow> (('s repositories \<Rightarrow> ('s, unit) act) \<Rightarrow> ('d, unit) act) \<Rightarrow> OpenWalletInput \<Rightarrow>
   ('d, wallet) act" where
  "OpenWallet_Execute env ctx_err within input =
     (case ctx_err of
        Some e \<Rightarrow> act_raise e
      | None \<Rightarrow>
          (case NewWallet (env_id env id_wallet) (env_now env at_NewWallet) (ow_PlayerID input)
                  (ow_InitialBalance input) of
             Inl e \<Rightarrow> act_raise e
           | Inr wallet \<Rightarrow>
               let correlationID = (if TrimSpace_is_empty (ow_CorrelationID input)
                                    then env_uuid_String env (env_id env id_correlation)
                                    else ow_CorrelationID input)
               in act_bind (within (open_work env wallet correlationID)) (\<lambda>_. act_return wallet)))"

context ports
begin

lemma open_work_sim: "simulates_tx view (open_work env w c impl) (open_work env w c spec)"
  unfolding open_work_def by (intro simulation port_sims_tx)

end

end
