(* ===== verification/Backoff.thy ===== *)
theory Backoff
  imports Prelude
begin

text \<open>
  The delays between attempts: \<open>ReferenceRetryPolicy\<close> of \<open>retry_references.go\<close>, \<open>OutboxPolicy\<close> of
  \<open>publish_outbox.go\<close> and \<open>messageRetryDelay\<close> of \<open>sqs_consumer.go\<close>. Each doubles a delay in a loop that
  stops before it would pass the maximum; what the callers rely on is the interface of a bounded
  exponential backoff, interpreted on each of the three.
\<close>

section \<open>The code\<close>

definition Microsecond :: duration where
  "Microsecond = 1000"

record ReferenceRetryPolicy =
  rp_MaxAttempts :: int
  rp_InitialDelay :: duration
  rp_MaxDelay :: duration

definition ReferenceRetryPolicy_Validate :: "ReferenceRetryPolicy \<Rightarrow> error option" where
  "ReferenceRetryPolicy_Validate p =
     (if rp_MaxAttempts p < 1 \<or> rp_MaxAttempts p > 1000 \<or> rp_InitialDelay p <s Microsecond \<or>
         rp_MaxDelay p <s rp_InitialDelay p
        then Some ErrInvalidReferenceRetryPolicy else None)"

text \<open>The loops \<^verbatim>\<open>for i := 1; i < attempt; i++\<close> by the number of turns left.\<close>

fun reference_delay_loop :: "duration \<Rightarrow> nat \<Rightarrow> duration \<Rightarrow> duration" where
  "reference_delay_loop maxDelay 0 delay = delay"
| "reference_delay_loop maxDelay (Suc turns) delay =
     (if quot64 maxDelay 2 <s delay then maxDelay
      else reference_delay_loop maxDelay turns (delay * 2))"

definition ReferenceRetryPolicy_delay :: "ReferenceRetryPolicy \<Rightarrow> int \<Rightarrow> duration" where
  "ReferenceRetryPolicy_delay p attempt =
     reference_delay_loop (rp_MaxDelay p) (nat (attempt - 1)) (rp_InitialDelay p)"

record OutboxPolicy =
  op_LeaseDuration :: duration
  op_InitialDelay :: duration
  op_MaxDelay :: duration

definition OutboxPolicy_Validate :: "OutboxPolicy \<Rightarrow> error option" where
  "OutboxPolicy_Validate p =
     (if op_LeaseDuration p <s Microsecond \<or> op_InitialDelay p <s Microsecond \<or>
         op_MaxDelay p <s op_InitialDelay p
        then Some ErrInvalidOutboxPolicy else None)"

fun outbox_delay_loop :: "duration \<Rightarrow> nat \<Rightarrow> duration \<Rightarrow> duration" where
  "outbox_delay_loop maxDelay 0 delay = delay"
| "outbox_delay_loop maxDelay (Suc turns) delay =
     (if \<not> delay <s maxDelay then delay
      else if quot64 maxDelay 2 <s delay then maxDelay
      else outbox_delay_loop maxDelay turns (delay * 2))"

definition OutboxPolicy_delay :: "OutboxPolicy \<Rightarrow> int \<Rightarrow> duration" where
  "OutboxPolicy_delay p attempt =
     outbox_delay_loop (op_MaxDelay p) (nat (attempt - 1)) (op_InitialDelay p)"

type_synonym i32 = "32 word"

fun message_delay_loop :: "nat \<Rightarrow> i32 \<Rightarrow> i32" where
  "message_delay_loop 0 delay = delay"
| "message_delay_loop (Suc turns) delay =
     (if \<not> delay <s 60 then delay else message_delay_loop turns (delay * 2))"

definition messageRetryDelay :: "int \<Rightarrow> i32" where
  "messageRetryDelay attempt =
     (let delay = message_delay_loop (nat (attempt - 1)) 1 in if 60 <s delay then 60 else delay)"

section \<open>The interface\<close>

locale backoff =
  fixes delay :: "nat \<Rightarrow> int" and initial :: int and maximum :: int
  assumes initial_pos: "0 < initial" and initial_le: "initial \<le> maximum"
    and delay_first: "delay 0 = initial"
    and delay_next: "delay (Suc n) = min maximum (2 * delay n)"
begin

lemma delay_closed: "delay n = min maximum (initial * 2 ^ n)"
proof (induction n)
  case 0
  then show ?case using initial_le by (simp add: delay_first)
next
  case (Suc n)
  then show ?case using initial_pos initial_le by (simp add: delay_next min_def)
qed

lemma delay_le: "delay n \<le> maximum"
  by (simp add: delay_closed)

lemma initial_le_delay: "initial \<le> delay n"
  using initial_pos initial_le by (simp add: delay_closed mult_le_cancel_left1)

lemma delay_pos: "0 < delay n"
  using initial_le_delay [of n] initial_pos by linarith

lemma delay_mono: "m \<le> n \<Longrightarrow> delay m \<le> delay n"
proof -
  assume "m \<le> n"
  then have "initial * 2 ^ m \<le> initial * 2 ^ n"
    using initial_pos by (simp add: power_increasing)
  then show ?thesis by (auto simp: delay_closed min_def)
qed

lemma delay_saturates: "maximum \<le> initial * 2 ^ n \<Longrightarrow> n \<le> m \<Longrightarrow> delay m = maximum"
  using delay_mono [of n m] delay_le [of m] by (simp add: delay_closed)

end

section \<open>The three loops keep the interface\<close>

lemma half_limit:
  "0 < sint maxDelay \<Longrightarrow> quot64 maxDelay 2 <s delay \<longleftrightarrow> sint maxDelay < 2 * sint delay"
  using quot64_nonneg [of maxDelay 2] by (auto simp: word_sless_alt)

lemma double_i64:
  "0 < sint (x :: i64) \<Longrightarrow> 2 * sint x \<le> sint (y :: i64) \<Longrightarrow> sint (x * 2) = 2 * sint x"
  using sint_bounds_i64 [of y] by (simp add: sint_mult_i64 in_i64_def)

lemma reference_delay_step:
  "0 < sint d \<Longrightarrow> sint d \<le> sint m \<Longrightarrow>
   sint (reference_delay_loop m (Suc n) d) = min (sint m) (2 * sint (reference_delay_loop m n d))"
proof (induction n arbitrary: d)
  case 0
  then show ?case using half_limit [of m d] double_i64 [of d m] by (auto simp: min_def)
next
  case (Suc n)
  show ?case
  proof (cases "quot64 m 2 <s d")
    case True
    then show ?thesis using Suc.prems by simp
  next
    case False
    then have "2 * sint d \<le> sint m" using half_limit [of m d] Suc.prems by linarith
    then have "0 < sint (d * 2)" "sint (d * 2) \<le> sint m" using double_i64 [of d m] Suc.prems by simp_all
    then show ?thesis
      using Suc.IH [of "d * 2"] False
        reference_delay_loop.simps(2) [of m "Suc n" d] reference_delay_loop.simps(2) [of m n d]
      by (simp del: reference_delay_loop.simps)
  qed
qed

lemma outbox_delay_eq:
  "0 < sint d \<Longrightarrow> sint d \<le> sint m \<Longrightarrow> outbox_delay_loop m n d = reference_delay_loop m n d"
proof (induction n arbitrary: d)
  case (Suc n)
  show ?case
  proof (cases "quot64 m 2 <s d")
    case True
    then show ?thesis
      using Suc.prems word_eq_iff_sint [of d m] by (auto simp: word_sless_alt)
  next
    case False
    then have "2 * sint d \<le> sint m" using half_limit [of m d] Suc.prems by linarith
    then have "0 < sint (d * 2)" "sint (d * 2) \<le> sint m" using double_i64 [of d m] Suc.prems by simp_all
    moreover have "d <s m" using Suc.prems \<open>2 * sint d \<le> sint m\<close> by (simp add: word_sless_alt)
    ultimately show ?thesis using Suc.IH False by simp
  qed
qed simp

lemma ReferenceRetryPolicy_valid_iff:
  "ReferenceRetryPolicy_Validate p = None \<longleftrightarrow>
     1 \<le> rp_MaxAttempts p \<and> rp_MaxAttempts p \<le> 1000 \<and> 1000 \<le> sint (rp_InitialDelay p) \<and>
     sint (rp_InitialDelay p) \<le> sint (rp_MaxDelay p)"
  by (auto simp: ReferenceRetryPolicy_Validate_def Microsecond_def word_sless_alt)

lemma OutboxPolicy_valid_iff:
  "OutboxPolicy_Validate p = None \<longleftrightarrow>
     1000 \<le> sint (op_LeaseDuration p) \<and> 1000 \<le> sint (op_InitialDelay p) \<and>
     sint (op_InitialDelay p) \<le> sint (op_MaxDelay p)"
  by (auto simp: OutboxPolicy_Validate_def Microsecond_def word_sless_alt)

text \<open>A policy that did not pass the validation is replaced by one that does; the code rejects it first.\<close>

definition some_retry_policy :: "ReferenceRetryPolicy \<Rightarrow> ReferenceRetryPolicy" where
  "some_retry_policy p =
     (if ReferenceRetryPolicy_Validate p = None then p
      else \<lparr>rp_MaxAttempts = 1, rp_InitialDelay = Microsecond, rp_MaxDelay = Microsecond\<rparr>)"

definition some_outbox_policy :: "OutboxPolicy \<Rightarrow> OutboxPolicy" where
  "some_outbox_policy p =
     (if OutboxPolicy_Validate p = None then p
      else \<lparr>op_LeaseDuration = Microsecond, op_InitialDelay = Microsecond, op_MaxDelay = Microsecond\<rparr>)"

lemma some_policy_valid:
  "ReferenceRetryPolicy_Validate (some_retry_policy p) = None"
  "OutboxPolicy_Validate (some_outbox_policy q) = None"
  by (simp_all add: some_retry_policy_def some_outbox_policy_def ReferenceRetryPolicy_Validate_def
      OutboxPolicy_Validate_def)

lemma nat_one_plus [simp]: "nat (1 + int n) = Suc n"
  by simp

lemma reference_backoff:
  assumes "ReferenceRetryPolicy_Validate p = None"
  shows "backoff (\<lambda>n. sint (ReferenceRetryPolicy_delay p (int n + 1)))
           (sint (rp_InitialDelay p)) (sint (rp_MaxDelay p))"
proof -
  have v: "0 < sint (rp_InitialDelay p)" "sint (rp_InitialDelay p) \<le> sint (rp_MaxDelay p)"
    using assms by (simp_all add: ReferenceRetryPolicy_valid_iff)
  show ?thesis
    using reference_delay_step [OF v]
    by unfold_locales (simp_all add: v ReferenceRetryPolicy_delay_def del: reference_delay_loop.simps(2))
qed

lemma outbox_backoff:
  assumes "OutboxPolicy_Validate p = None"
  shows "backoff (\<lambda>n. sint (OutboxPolicy_delay p (int n + 1)))
           (sint (op_InitialDelay p)) (sint (op_MaxDelay p))"
proof -
  have v: "0 < sint (op_InitialDelay p)" "sint (op_InitialDelay p) \<le> sint (op_MaxDelay p)"
    using assms by (simp_all add: OutboxPolicy_valid_iff)
  show ?thesis
    using reference_delay_step [OF v] outbox_delay_eq [OF v]
    by unfold_locales (simp_all add: v OutboxPolicy_delay_def del: reference_delay_loop.simps(2) outbox_delay_loop.simps(2))
qed

interpretation retry_backoff:
  backoff "\<lambda>n. sint (ReferenceRetryPolicy_delay (some_retry_policy p) (int n + 1))"
    "sint (rp_InitialDelay (some_retry_policy p))" "sint (rp_MaxDelay (some_retry_policy p))" for p
  by (rule reference_backoff) (rule some_policy_valid)

interpretation publish_backoff:
  backoff "\<lambda>n. sint (OutboxPolicy_delay (some_outbox_policy p) (int n + 1))"
    "sint (op_InitialDelay (some_outbox_policy p))" "sint (op_MaxDelay (some_outbox_policy p))" for p
  by (rule outbox_backoff) (rule some_policy_valid)

text \<open>The message delay stays in \<open>int32\<close>: it doubles at most six times, to 64.\<close>

lemma message_delay_fixed: "\<not> d <s 60 \<Longrightarrow> message_delay_loop n d = d"
  by (cases n) simp_all

lemma message_delay_table:
  "message_delay_loop 0 1 = 1" "message_delay_loop 1 1 = 2" "message_delay_loop 2 1 = 4"
  "message_delay_loop 3 1 = 8" "message_delay_loop 4 1 = 16" "message_delay_loop 5 1 = 32"
  "message_delay_loop (n + 6) 1 = 64"
proof -
  have s: "(1 :: i32) <s 60" "(2 :: i32) <s 60" "(4 :: i32) <s 60" "(8 :: i32) <s 60" "(16 :: i32) <s 60"
    "(32 :: i32) <s 60" "\<not> (64 :: i32) <s 60"
    by (simp_all add: word_sless_alt)
  show "message_delay_loop 0 1 = 1" "message_delay_loop 1 1 = 2" "message_delay_loop 2 1 = 4"
    "message_delay_loop 3 1 = 8" "message_delay_loop 4 1 = 16" "message_delay_loop 5 1 = 32"
    "message_delay_loop (n + 6) 1 = 64"
    by (simp_all add: eval_nat_numeral s message_delay_fixed)
qed

lemma messageRetryDelay_values:
  "sint (messageRetryDelay 1) = 1" "sint (messageRetryDelay 2) = 2" "sint (messageRetryDelay 3) = 4"
  "sint (messageRetryDelay 4) = 8" "sint (messageRetryDelay 5) = 16" "sint (messageRetryDelay 6) = 32"
  "6 \<le> n \<Longrightarrow> sint (messageRetryDelay (int n + 1)) = 60"
proof -
  have small: "messageRetryDelay (int k + 1) = (let delay = message_delay_loop k 1 in if 60 <s delay then 60 else delay)"
    for k by (simp add: messageRetryDelay_def)
  show "sint (messageRetryDelay (int n + 1)) = 60" if "6 \<le> n"
  proof -
    define k where "k = n - 6"
    have "n = k + 6" using that by (simp add: k_def)
    then have "messageRetryDelay (int n + 1) = (let delay = message_delay_loop (k + 6) 1 in if 60 <s delay then 60 else delay)"
      using small [of "k + 6"] by simp
    then show ?thesis by (simp only: message_delay_table(7) Let_def) (simp add: word_sless_alt)
  qed
  note at = small [of 0] small [of 1] small [of 2] small [of 3] small [of 4] small [of 5]
  show "sint (messageRetryDelay 1) = 1" "sint (messageRetryDelay 2) = 2" "sint (messageRetryDelay 3) = 4"
    "sint (messageRetryDelay 4) = 8" "sint (messageRetryDelay 5) = 16" "sint (messageRetryDelay 6) = 32"
    using at unfolding message_delay_table(1-6) Let_def by (simp_all add: word_sless_alt)
qed

lemma messageRetryDelay_step:
  "sint (messageRetryDelay (int (Suc n) + 1)) = min 60 (2 * sint (messageRetryDelay (int n + 1)))"
proof (cases "6 \<le> n")
  case True
  then show ?thesis using messageRetryDelay_values(7) [of n] messageRetryDelay_values(7) [of "Suc n"] by simp
next
  case False
  then consider "n = 0" | "n = 1" | "n = 2" | "n = 3" | "n = 4" | "n = 5" by linarith
  then show ?thesis
    using messageRetryDelay_values(7) [of 6] by cases (simp_all add: messageRetryDelay_values(1-6))
qed

interpretation message_backoff: backoff "\<lambda>n. sint (messageRetryDelay (int n + 1))" 1 60
proof
  show "sint (messageRetryDelay (int 0 + 1)) = 1"
    by (simp add: messageRetryDelay_def word_sless_alt)
  show "sint (messageRetryDelay (int (Suc n) + 1)) = min 60 (2 * sint (messageRetryDelay (int n + 1)))" for n
    by (rule messageRetryDelay_step)
qed simp_all

section \<open>Properties\<close>

text \<open>C40: For valid policies the delay before the attempt \<open>n + 1\<close> is the initial delay doubled \<open>n\<close> times, cut at the
  maximum, for the references, the events and the messages (one second up to sixty): the loops never pass
  the maximum and their doubling never overflows the machine integer.\<close>

theorem delays_closed_form:
  assumes "ReferenceRetryPolicy_Validate p = None" and "OutboxPolicy_Validate q = None"
  shows "sint (ReferenceRetryPolicy_delay p (int n + 1)) = min (sint (rp_MaxDelay p)) (sint (rp_InitialDelay p) * 2 ^ n) \<and>
         sint (OutboxPolicy_delay q (int n + 1)) = min (sint (op_MaxDelay q)) (sint (op_InitialDelay q) * 2 ^ n) \<and>
         sint (messageRetryDelay (int n + 1)) = min 60 (2 ^ n)"
  using retry_backoff.delay_closed [of p n] publish_backoff.delay_closed [of q n] message_backoff.delay_closed [of n] assms
  by (simp add: some_retry_policy_def some_outbox_policy_def)

theorem delays_closed_form_witness:
  "sint (ReferenceRetryPolicy_delay \<lparr>rp_MaxAttempts = 5, rp_InitialDelay = 2000, rp_MaxDelay = 9000\<rparr> 3) = 8000 \<and>
   sint (OutboxPolicy_delay \<lparr>op_LeaseDuration = 5000, op_InitialDelay = 1000, op_MaxDelay = 3000\<rparr> 3) = 3000 \<and>
   sint (messageRetryDelay 3) = 4"
  using delays_closed_form [of "\<lparr>rp_MaxAttempts = 5, rp_InitialDelay = 2000, rp_MaxDelay = 9000\<rparr>"
      "\<lparr>op_LeaseDuration = 5000, op_InitialDelay = 1000, op_MaxDelay = 3000\<rparr>" 2]
  by (simp add: ReferenceRetryPolicy_valid_iff OutboxPolicy_valid_iff)

text \<open>The delays never shrink from one attempt to the next and stay between the initial delay and the maximum.\<close>

theorem delays_monotone_bounded:
  assumes "ReferenceRetryPolicy_Validate p = None" and "m \<le> n"
  shows "sint (rp_InitialDelay p) \<le> sint (ReferenceRetryPolicy_delay p (int m + 1)) \<and>
         sint (ReferenceRetryPolicy_delay p (int m + 1)) \<le> sint (ReferenceRetryPolicy_delay p (int n + 1)) \<and>
         sint (ReferenceRetryPolicy_delay p (int n + 1)) \<le> sint (rp_MaxDelay p)"
  using retry_backoff.initial_le_delay [of p m] retry_backoff.delay_mono [OF assms(2), of p]
    retry_backoff.delay_le [of p n] assms(1)
  by (simp add: some_retry_policy_def)

theorem delays_monotone_bounded_witness:
  "sint (ReferenceRetryPolicy_delay \<lparr>rp_MaxAttempts = 5, rp_InitialDelay = 2000, rp_MaxDelay = 9000\<rparr> 2) \<le>
   sint (ReferenceRetryPolicy_delay \<lparr>rp_MaxAttempts = 5, rp_InitialDelay = 2000, rp_MaxDelay = 9000\<rparr> 7)"
  using delays_monotone_bounded [of "\<lparr>rp_MaxAttempts = 5, rp_InitialDelay = 2000, rp_MaxDelay = 9000\<rparr>" 1 6]
  by (simp add: ReferenceRetryPolicy_valid_iff)

end
