(* ===== verification/RetryReferences.thy ===== *)
theory RetryReferences
  imports ProcessWager Backoff
begin

text \<open>
  \<open>internal/application/retry_references.go\<close>: one turn of the worker that resumes the operations waiting
  for their reference. \<open>None\<close> is the nil result of a turn that found nothing due.
\<close>

record ReferenceRetryResult =
  rr_TransactionID :: uuid
  rr_WalletID :: uuid
  rr_ProviderID :: string
  rr_CorrelationID :: string
  rr_Status :: WagerStatus
  rr_Attempts :: int

text \<open>The input that carries only the tracing data of the waiting event.\<close>

definition tracing_input :: "PendingReference \<Rightarrow> ProcessWagerInput" where
  "tracing_input pending =
     \<lparr>in_ProviderID = '''', in_ExternalTransactionID = '''', in_IdempotencyKey = '''',
      in_PlayerID = uuid_Nil, in_WalletID = uuid_Nil, in_RoundID = '''', in_GameID = '''',
      in_Kind = WagerKindOther '''', in_Money = \<lparr>amount = 0, currency = ''''\<rparr>,
      in_ReferenceExternalTransactionID = None,
      in_CorrelationID = pr_CorrelationID pending, in_CausationID = pr_CausationID pending\<rparr>"

definition retry_result :: "PendingReference \<Rightarrow> wager_transaction \<Rightarrow> int \<Rightarrow> ReferenceRetryResult" where
  "retry_result pending t attempt =
     \<lparr>rr_TransactionID = t_id t, rr_WalletID = t_walletID t, rr_ProviderID = t_providerID t,
      rr_CorrelationID = pr_CorrelationID pending, rr_Status = t_status t, rr_Attempts = attempt\<rparr>"

definition resume_operation ::
  "env \<Rightarrow> ReferenceRetryPolicy \<Rightarrow> 's repositories \<Rightarrow> PendingReference \<Rightarrow> ('s, ReferenceRetryResult) act" where
  "resume_operation env policy r pending =
     (let t = pr_Transaction pending; input = tracing_input pending
      in act_bind (wallets_FindByIDForUpdate r (t_walletID t)) (\<lambda>wallet.
         if rp_MaxAttempts policy \<le> pr_Attempts pending then
           act_bind (rejectWager env r t input FailureReferenceNotFound) (\<lambda>t'.
           act_return (retry_result pending t' (pr_Attempts pending)))
         else
           (let attempt = pr_Attempts pending + 1
            in act_bind (wagers_ScheduleReferenceRetry r (t_id t) attempt
                           (ReferenceRetryPolicy_delay policy attempt)) (\<lambda>_.
               act_bind (processWager env r wallet t input) (\<lambda>t'.
               if t_status t' = WagerStatusPendingReference \<and> rp_MaxAttempts policy \<le> attempt then
                 act_bind (rejectWager env r t' input FailureReferenceNotFound) (\<lambda>t''.
                 act_return (retry_result pending t'' attempt))
               else act_return (retry_result pending t' attempt))))))"

definition retry_work ::
  "env \<Rightarrow> ReferenceRetryPolicy \<Rightarrow> 's repositories \<Rightarrow> ('s, ReferenceRetryResult option) act" where
  "retry_work env policy r =
     act_bind (wagers_ClaimPendingReference r) (\<lambda>claimed.
       case claimed of
         None \<Rightarrow> act_return None
       | Some pending \<Rightarrow> act_bind (resume_operation env policy r pending) (\<lambda>result. act_return (Some result)))"

definition RetryReferences_Execute ::
  "env \<Rightarrow> (('s repositories \<Rightarrow> ('s, ReferenceRetryResult option) act) \<Rightarrow> ('d, ReferenceRetryResult option) act) \<Rightarrow>
   ReferenceRetryPolicy \<Rightarrow> ('d, ReferenceRetryResult option) act" where
  "RetryReferences_Execute env within policy =
     (case ReferenceRetryPolicy_Validate policy of
        Some e \<Rightarrow> act_raise e
      | None \<Rightarrow> within (retry_work env policy))"

context ports
begin

lemma resume_operation_sim:
  "simulates_tx view (resume_operation env p impl pending) (resume_operation env p spec pending)"
  unfolding resume_operation_def Let_def
  by (intro simulation port_sims_tx rejectWager_sim processWager_sim)

lemma retry_work_sim: "simulates_tx view (retry_work env p impl) (retry_work env p spec)"
  unfolding retry_work_def by (intro simulation port_sims_tx resume_operation_sim)

end

end
