(* ===== verification/Postgres.thy ===== *)
theory Postgres
  imports Ports "HOL-Library.Product_Lexorder"
begin

text \<open>
  \<open>internal/infrastructure/postgres\<close>: the tables of the migrations and the SQL statements of the repositories
  as operations on them. A table is the list of its rows in insertion order. The unique
  constraints that a statement's control flow depends on are part of the statement
  (\<open>ON CONFLICT\<close>, SQLSTATE 23505); every other failure the server, a trigger or the network
  may report is an infrastructure error injected by the connection below.
\<close>

section \<open>Rows and tables\<close>

text \<open>
  A \<open>TIMESTAMPTZ\<close> is a number of microseconds. The driver truncates the nanoseconds of a \<open>time.Time\<close>.
  The columns that hold a kind, a state or a direction hold its name.
\<close>

type_synonym timestamptz = int

definition pg_time :: "time \<Rightarrow> timestamptz" where
  "pg_time t = t div 1000"

definition go_time :: "timestamptz \<Rightarrow> time" where
  "go_time u = u * 1000"

definition Microseconds :: "duration \<Rightarrow> int" where
  "Microseconds d = sint (quot64 d 1000)"

record wallet_row =
  wr_id :: uuid
  wr_player_id :: uuid
  wr_balance_cents :: i64
  wr_currency :: string
  wr_version :: i64
  wr_created_at :: timestamptz
  wr_updated_at :: timestamptz

record wager_row =
  wg_id :: uuid
  wg_provider_id :: "string option"
  wg_external_transaction_id :: "string option"
  wg_idempotency_key :: "string option"
  wg_payload_hash :: "string option"
  wg_wallet_id :: uuid
  wg_player_id :: uuid
  wg_round_id :: "string option"
  wg_game_id :: "string option"
  wg_kind :: WagerKind
  wg_amount_cents :: i64
  wg_currency :: string
  wg_reference_external_transaction_id :: "string option"
  wg_reference_transaction_id :: "uuid option"
  wg_status :: WagerStatus
  wg_failure_code :: "string option"
  wg_result_balance_cents :: "i64 option"
  wg_created_at :: timestamptz
  wg_updated_at :: timestamptz
  wg_reference_attempts :: int
  wg_next_reference_attempt_at :: timestamptz

record ledger_row =
  lr_id :: uuid
  lr_wallet_id :: uuid
  lr_transaction_id :: uuid
  lr_direction :: LedgerDirection
  lr_amount_cents :: i64
  lr_currency :: string
  lr_balance_before_cents :: i64
  lr_balance_after_cents :: i64
  lr_created_at :: timestamptz

record inbox_row =
  ib_consumer_name :: string
  ib_message_id :: string
  ib_payload_hash :: string
  ib_completed_at :: "timestamptz option"

record outbox_row =
  ob_event_id :: uuid
  ob_aggregate_id :: uuid
  ob_event_type :: string
  ob_payload :: event
  ob_occurred_at :: timestamptz
  ob_attempts :: int
  ob_next_attempt_at :: timestamptz
  ob_published_at :: "timestamptz option"
  ob_locked_until :: "timestamptz option"
  ob_lock_token :: "uuid option"

record db =
  db_wallets :: "wallet_row list"
  db_wagers :: "wager_row list"
  db_ledger :: "ledger_row list"
  db_inbox :: "inbox_row list"
  db_outbox :: "outbox_row list"
  db_clock :: timestamptz

text \<open>
  What a statement depends on outside the tables: the wallets that other transactions hold locked
  (\<open>SKIP LOCKED\<close> passes over them) and the server's cast of an RFC 3339 text.
\<close>

record pg_env =
  pe_locked :: "uuid list"
  pe_timestamptz :: "time \<Rightarrow> timestamptz"

text \<open>\<open>ORDER BY k LIMIT 1\<close>.\<close>

definition first_by :: "('r \<Rightarrow> 'k :: linorder) \<Rightarrow> 'r list \<Rightarrow> 'r option" where
  "first_by k rs = (case sort_key k rs of [] \<Rightarrow> None | r # _ \<Rightarrow> Some r)"

section \<open>\<open>WalletRepository\<close>\<close>

definition wallet_row_of :: "wallet \<Rightarrow> wallet_row" where
  "wallet_row_of w =
     \<lparr>wr_id = w_id w, wr_player_id = w_playerID w, wr_balance_cents = amount (w_balance w),
      wr_currency = currency (w_balance w), wr_version = w_version w,
      wr_created_at = pg_time (w_createdAt w), wr_updated_at = pg_time (w_updatedAt w)\<rparr>"

definition wallet_conflict :: "wallet_row \<Rightarrow> wallet_row \<Rightarrow> bool" where
  "wallet_conflict new r \<longleftrightarrow>
     wr_id r = wr_id new \<or> (wr_player_id r = wr_player_id new \<and> wr_currency r = wr_currency new)"

definition WalletRepository_Create :: "wallet \<Rightarrow> (db, unit) act" where
  "WalletRepository_Create w d =
     (let row = wallet_row_of w
      in if list_ex (wallet_conflict row) (db_wallets d) then (Inl ErrWalletConflict, d)
         else (Inr (), d\<lparr>db_wallets := db_wallets d @ [row]\<rparr>))"

definition scan_wallet :: "wallet_row \<Rightarrow> error + wallet" where
  "scan_wallet r =
     (case MoneyFromMinorUnits (wr_balance_cents r) (wr_currency r) of
        Inl e \<Rightarrow> Inl e
      | Inr m \<Rightarrow>
          RehydrateWallet (wr_id r) (wr_player_id r) m (wr_version r)
            (go_time (wr_created_at r)) (go_time (wr_updated_at r)))"

definition WalletRepository_FindByID :: "uuid \<Rightarrow> (db, wallet) act" where
  "WalletRepository_FindByID walletID d =
     (case find (\<lambda>r. wr_id r = walletID) (db_wallets d) of
        None \<Rightarrow> (Inl ErrWalletNotFound, d)
      | Some r \<Rightarrow> (scan_wallet r, d))"

definition WalletRepository_FindByIDForUpdate :: "bool \<Rightarrow> uuid \<Rightarrow> (db, wallet) act" where
  "WalletRepository_FindByIDForUpdate inTransaction walletID d =
     (if \<not> inTransaction then (Inl ErrTransactionRequired, d)
      else WalletRepository_FindByID walletID d)"

definition WalletRepository_Update :: "wallet \<Rightarrow> (db, unit) act" where
  "WalletRepository_Update w d =
     (let previousVersion = w_version w - 1;
          selected = (\<lambda>r. wr_id r = w_id w \<and> wr_version r = previousVersion);
          write = (\<lambda>r. r\<lparr>wr_balance_cents := amount (w_balance w), wr_version := w_version w,
                          wr_updated_at := pg_time (w_updatedAt w)\<rparr>)
      in if rows_affected selected (db_wallets d) = 0 then (Inl ErrWalletConcurrentUpdate, d)
         else (Inr (), d\<lparr>db_wallets := update_rows selected write (db_wallets d)\<rparr>))"

section \<open>\<open>WagerRepository\<close>\<close>

definition nullif_empty :: "string \<Rightarrow> string option" where
  "nullif_empty s = (if s = '''' then None else Some s)"

definition coalesce_empty :: "string option \<Rightarrow> string" where
  "coalesce_empty c = (case c of None \<Rightarrow> '''' | Some s \<Rightarrow> s)"

definition wager_row_of :: "timestamptz \<Rightarrow> wager_transaction \<Rightarrow> wager_row" where
  "wager_row_of now t =
     \<lparr>wg_id = t_id t, wg_provider_id = nullif_empty (t_providerID t),
      wg_external_transaction_id = nullif_empty (t_externalTransactionID t),
      wg_idempotency_key = nullif_empty (t_idempotencyKey t),
      wg_payload_hash = nullif_empty (t_payloadHash t), wg_wallet_id = t_walletID t,
      wg_player_id = t_playerID t, wg_round_id = nullif_empty (t_roundID t),
      wg_game_id = nullif_empty (t_gameID t), wg_kind = t_kind t,
      wg_amount_cents = amount (t_money t), wg_currency = currency (t_money t),
      wg_reference_external_transaction_id = t_referenceExternalTransactionID t,
      wg_reference_transaction_id = t_referenceTransactionID t, wg_status = t_status t,
      wg_failure_code = t_failureCode t,
      wg_result_balance_cents = map_option amount (t_resultBalance t),
      wg_created_at = pg_time (t_createdAt t), wg_updated_at = pg_time (t_updatedAt t),
      wg_reference_attempts = 0, wg_next_reference_attempt_at = now\<rparr>"

text \<open>The unique indexes over the identities; a null column never conflicts.\<close>

definition same_key :: "string option \<Rightarrow> string option \<Rightarrow> string option \<Rightarrow> string option \<Rightarrow> bool" where
  "same_key p k p' k' \<longleftrightarrow> p \<noteq> None \<and> k \<noteq> None \<and> p = p' \<and> k = k'"

definition wager_conflict :: "wager_row \<Rightarrow> wager_row \<Rightarrow> bool" where
  "wager_conflict new r \<longleftrightarrow>
     wg_id r = wg_id new \<or>
     same_key (wg_provider_id new) (wg_external_transaction_id new)
              (wg_provider_id r) (wg_external_transaction_id r) \<or>
     same_key (wg_provider_id new) (wg_idempotency_key new)
              (wg_provider_id r) (wg_idempotency_key r) \<or>
     (wg_kind new = WagerKindOpening \<and> wg_kind r = WagerKindOpening \<and> wg_wallet_id r = wg_wallet_id new)"

definition WagerRepository_Create :: "wager_transaction \<Rightarrow> (db, unit) act" where
  "WagerRepository_Create t d =
     (let row = wager_row_of (db_clock d) t
      in if list_ex (wager_conflict row) (db_wagers d) then (Inl ErrWagerConflict, d)
         else (Inr (), d\<lparr>db_wagers := db_wagers d @ [row]\<rparr>))"

definition scanWager :: "wager_row \<Rightarrow> error + wager_transaction" where
  "scanWager r =
     (case MoneyFromMinorUnits (wg_amount_cents r) (wg_currency r) of
        Inl e \<Rightarrow> Inl e
      | Inr m \<Rightarrow>
          (case (case wg_result_balance_cents r of
                   None \<Rightarrow> Inr None
                 | Some a \<Rightarrow>
                     (case MoneyFromMinorUnits a (wg_currency r) of Inl e \<Rightarrow> Inl e | Inr b \<Rightarrow> Inr (Some b))) of
             Inl e \<Rightarrow> Inl e
           | Inr result \<Rightarrow>
               RehydrateWagerTransaction
                 \<lparr>t_id = wg_id r, t_externalTransactionID = coalesce_empty (wg_external_transaction_id r),
                  t_providerID = coalesce_empty (wg_provider_id r),
                  t_idempotencyKey = coalesce_empty (wg_idempotency_key r),
                  t_payloadHash = coalesce_empty (wg_payload_hash r), t_walletID = wg_wallet_id r,
                  t_playerID = wg_player_id r, t_roundID = coalesce_empty (wg_round_id r),
                  t_gameID = coalesce_empty (wg_game_id r), t_kind = wg_kind r, t_money = m,
                  t_referenceExternalTransactionID = wg_reference_external_transaction_id r,
                  t_referenceTransactionID = wg_reference_transaction_id r, t_status = wg_status r,
                  t_failureCode = wg_failure_code r, t_resultBalance = result,
                  t_createdAt = go_time (wg_created_at r), t_updatedAt = go_time (wg_updated_at r)\<rparr>))"

definition query_wager :: "(wager_row \<Rightarrow> bool) \<Rightarrow> (db, wager_transaction) act" where
  "query_wager p d =
     (case find p (db_wagers d) of
        None \<Rightarrow> (Inl ErrWagerNotFound, d)
      | Some r \<Rightarrow> (scanWager r, d))"

definition WagerRepository_FindByID :: "string \<Rightarrow> uuid \<Rightarrow> (db, wager_transaction) act" where
  "WagerRepository_FindByID providerID i =
     query_wager (\<lambda>r. coalesce_empty (wg_provider_id r) = providerID \<and> wg_id r = i)"

definition WagerRepository_FindByExternalID :: "string \<Rightarrow> string \<Rightarrow> (db, wager_transaction) act" where
  "WagerRepository_FindByExternalID providerID externalID =
     query_wager (\<lambda>r. wg_provider_id r = Some providerID \<and> wg_external_transaction_id r = Some externalID)"

definition WagerRepository_FindByIdempotencyKey :: "string \<Rightarrow> string \<Rightarrow> (db, wager_transaction) act" where
  "WagerRepository_FindByIdempotencyKey providerID key =
     query_wager (\<lambda>r. wg_provider_id r = Some providerID \<and> wg_idempotency_key r = Some key)"

definition successful_reversal :: "wager_row \<Rightarrow> bool" where
  "successful_reversal r \<longleftrightarrow>
     (wg_kind r = WagerKindRefund \<or> wg_kind r = WagerKindRollback) \<and> wg_status r = WagerStatusProcessed"

definition WagerRepository_HasSuccessfulReversal :: "uuid \<Rightarrow> (db, bool) act" where
  "WagerRepository_HasSuccessfulReversal referenceID d =
     (Inr (list_ex (\<lambda>r. wg_reference_transaction_id r = Some referenceID \<and> successful_reversal r)
        (db_wagers d)), d)"

definition wager_open :: "wager_row \<Rightarrow> bool" where
  "wager_open r \<longleftrightarrow> wg_status r = WagerStatusPending \<or> wg_status r = WagerStatusPendingReference"

definition write_wager :: "wager_transaction \<Rightarrow> wager_row \<Rightarrow> wager_row" where
  "write_wager t r =
     r\<lparr>wg_status := t_status t, wg_reference_transaction_id := t_referenceTransactionID t,
       wg_failure_code := t_failureCode t,
       wg_result_balance_cents := map_option amount (t_resultBalance t),
       wg_updated_at := pg_time (t_updatedAt t)\<rparr>"

definition WagerRepository_Update :: "wager_transaction \<Rightarrow> (db, unit) act" where
  "WagerRepository_Update t d =
     (let selected = (\<lambda>r. wg_id r = t_id t \<and> wager_open r)
      in if rows_affected selected (db_wagers d) \<noteq> 1 then (Inl ErrWagerNotPending, d)
         else (Inr (), d\<lparr>db_wagers := update_rows selected (write_wager t) (db_wagers d)\<rparr>))"

text \<open>
  The claim of a waiting operation: the first due operation whose wallet nobody holds, then the
  first due operation of that wallet, the transaction itself and the tracing data of its
  waiting event. \<open>payload->'data'->>'transactionId'\<close> is the text of the identifier.
\<close>

definition reference_due :: "db \<Rightarrow> wager_row \<Rightarrow> bool" where
  "reference_due d r \<longleftrightarrow>
     wg_status r = WagerStatusPendingReference \<and> wg_next_reference_attempt_at r \<le> db_clock d"

definition attempt_order :: "wager_row \<Rightarrow> timestamptz \<times> uuid" where
  "attempt_order r = (wg_next_reference_attempt_at r, wg_id r)"

definition ClaimPendingReference :: "pg_env \<Rightarrow> (db, PendingReference option) act" where
  "ClaimPendingReference pg d =
     (case first_by attempt_order
             (filter (\<lambda>t. reference_due d t \<and>
                list_ex (\<lambda>w. wr_id w = wg_wallet_id t) (db_wallets d) \<and>
                wg_wallet_id t \<notin> set (pe_locked pg)) (db_wagers d)) of
        None \<Rightarrow> (Inr None, d)
      | Some candidate \<Rightarrow>
          let walletID = wg_wallet_id candidate
          in (case first_by attempt_order
                     (filter (\<lambda>t. wg_wallet_id t = walletID \<and> reference_due d t) (db_wagers d)) of
                None \<Rightarrow> (Inr None, d)
              | Some row \<Rightarrow>
                  (case wg_provider_id row of
                     None \<Rightarrow> (Inl (Infra OtherInfraError), d)
                   | Some providerID \<Rightarrow>
                       (case fst (WagerRepository_FindByID providerID (wg_id row) d) of
                          Inl e \<Rightarrow> (Inl e, d)
                        | Inr t \<Rightarrow>
                            (case first_by (\<lambda>ob. (ob_occurred_at ob, ob_event_id ob))
                                    (filter (\<lambda>ob. ob_aggregate_id ob = walletID \<and>
                                       ob_event_type ob = ''WagerTransactionPendingReference'' \<and>
                                       event_transaction_id (ob_payload ob) = wg_id row) (db_outbox d)) of
                               None \<Rightarrow> (Inl (Infra OtherInfraError), d)
                             | Some waiting \<Rightarrow>
                                 (Inr (Some
                                   \<lparr>pr_Transaction = t, pr_Attempts = wg_reference_attempts row,
                                    pr_CorrelationID = ev_CorrelationID (event_metadata_of (ob_payload waiting)),
                                    pr_CausationID = ev_CausationID (event_metadata_of (ob_payload waiting))\<rparr>), d))))))"

definition ScheduleReferenceRetry :: "uuid \<Rightarrow> int \<Rightarrow> duration \<Rightarrow> (db, unit) act" where
  "ScheduleReferenceRetry i attempts delay d =
     (let selected = (\<lambda>r. wg_id r = i \<and> wg_status r = WagerStatusPendingReference);
          write = (\<lambda>r. r\<lparr>wg_reference_attempts := attempts,
                          wg_next_reference_attempt_at := db_clock d + Microseconds delay\<rparr>)
      in if rows_affected selected (db_wagers d) \<noteq> 1 then (Inl ErrWagerNotPending, d)
         else (Inr (), d\<lparr>db_wagers := update_rows selected write (db_wagers d)\<rparr>))"

section \<open>\<open>LedgerRepository\<close>, \<open>InboxRepository\<close> and \<open>OutboxRepository\<close>\<close>

definition ledger_row_of :: "ledger_entry \<Rightarrow> ledger_row" where
  "ledger_row_of e =
     \<lparr>lr_id = e_id e, lr_wallet_id = e_walletID e, lr_transaction_id = e_transactionID e,
      lr_direction = e_direction e, lr_amount_cents = amount (e_money e),
      lr_currency = currency (e_money e), lr_balance_before_cents = amount (e_balanceBefore e),
      lr_balance_after_cents = amount (e_balanceAfter e), lr_created_at = pg_time (e_createdAt e)\<rparr>"

definition LedgerRepository_Create :: "ledger_entry \<Rightarrow> (db, unit) act" where
  "LedgerRepository_Create e d = (Inr (), d\<lparr>db_ledger := db_ledger d @ [ledger_row_of e]\<rparr>)"

definition inbox_selected :: "string \<Rightarrow> string \<Rightarrow> inbox_row \<Rightarrow> bool" where
  "inbox_selected consumerName messageID r \<longleftrightarrow>
     ib_consumer_name r = consumerName \<and> ib_message_id r = messageID"

definition InboxRepository_Register :: "string \<Rightarrow> string \<Rightarrow> string \<Rightarrow> (db, bool) act" where
  "InboxRepository_Register consumerName messageID payloadHash d =
     (case find (inbox_selected consumerName messageID) (db_inbox d) of
        None \<Rightarrow>
          (Inr False, d\<lparr>db_inbox := db_inbox d @
             [\<lparr>ib_consumer_name = consumerName, ib_message_id = messageID,
               ib_payload_hash = payloadHash, ib_completed_at = None\<rparr>]\<rparr>)
      | Some r \<Rightarrow>
          if ib_payload_hash r \<noteq> payloadHash then (Inl ErrInboxConflict, d)
          else if ib_completed_at r = None then (Inl ErrInboxIncomplete, d)
          else (Inr True, d))"

definition InboxRepository_Complete :: "string \<Rightarrow> string \<Rightarrow> (db, unit) act" where
  "InboxRepository_Complete consumerName messageID d =
     (let selected = inbox_selected consumerName messageID;
          write = (\<lambda>r. r\<lparr>ib_completed_at :=
             (case ib_completed_at r of None \<Rightarrow> Some (db_clock d) | Some c \<Rightarrow> Some c)\<rparr>)
      in if rows_affected selected (db_inbox d) \<noteq> 1 then (Inl ErrInboxIncomplete, d)
         else (Inr (), d\<lparr>db_inbox := update_rows selected write (db_inbox d)\<rparr>))"

definition outbox_row_of :: "pg_env \<Rightarrow> timestamptz \<Rightarrow> event \<Rightarrow> outbox_row" where
  "outbox_row_of pg now payload =
     (let m = event_metadata_of payload
      in \<lparr>ob_event_id = ev_EventID m, ob_aggregate_id = ev_AggregateID m,
          ob_event_type = ev_EventType m, ob_payload = payload,
          ob_occurred_at = pe_timestamptz pg (ev_OccurredAt m), ob_attempts = 0,
          ob_next_attempt_at = now, ob_published_at = None, ob_locked_until = None,
          ob_lock_token = None\<rparr>)"

definition OutboxRepository_Create :: "pg_env \<Rightarrow> event \<Rightarrow> (db, unit) act" where
  "OutboxRepository_Create pg ev d =
     (case Event_MarshalJSON ev of
        Inl e \<Rightarrow> (Inl e, d)
      | Inr payload \<Rightarrow>
          let envelope = event_metadata_of payload
          in if ev_EventID envelope = uuid_Nil \<or> ev_EventID envelope \<noteq> EventID ev \<or>
                ev_AggregateID envelope = uuid_Nil \<or> Time_IsZero (ev_OccurredAt envelope)
               then (Inl ErrInvalidEvent, d)
             else (case find (\<lambda>ob. ob_event_id ob = ev_EventID envelope) (db_outbox d) of
                     None \<Rightarrow> (Inr (), d\<lparr>db_outbox := db_outbox d @ [outbox_row_of pg (db_clock d) payload]\<rparr>)
                   | Some existing \<Rightarrow>
                       if ob_payload existing \<noteq> payload then (Inl ErrOutboxConflict, d) else (Inr (), d)))"

section \<open>The repositories of a unit of work\<close>

definition pg_repositories :: "pg_env \<Rightarrow> db repositories" where
  "pg_repositories pg =
     \<lparr>wallets_Create = WalletRepository_Create,
      wallets_FindByID = WalletRepository_FindByID,
      wallets_FindByIDForUpdate = WalletRepository_FindByIDForUpdate True,
      wallets_Update = WalletRepository_Update,
      wagers_Create = WagerRepository_Create,
      wagers_FindByID = WagerRepository_FindByID,
      wagers_FindByExternalID = WagerRepository_FindByExternalID,
      wagers_FindByIdempotencyKey = WagerRepository_FindByIdempotencyKey,
      wagers_HasSuccessfulReversal = WagerRepository_HasSuccessfulReversal,
      wagers_Update = WagerRepository_Update,
      wagers_ClaimPendingReference = ClaimPendingReference pg,
      wagers_ScheduleReferenceRetry = ScheduleReferenceRetry,
      ledger_Create = LedgerRepository_Create,
      inbox_Register = InboxRepository_Register,
      inbox_Complete = InboxRepository_Complete,
      outbox_Create = OutboxRepository_Create pg\<rparr>"

text \<open>
  A connection may fail at any statement: the list says what becomes of the next statements, and a
  statement past its end succeeds.
\<close>

record conn =
  c_db :: db
  c_faults :: "infra_error option list"

definition statement :: "(db, 'a) act \<Rightarrow> (conn, 'a) act" where
  "statement m c =
     (case c_faults c of
        Some i # fs \<Rightarrow> (Inl (Infra i), c\<lparr>c_faults := fs\<rparr>)
      | _ \<Rightarrow> (case m (c_db c) of (r, d) \<Rightarrow> (r, c\<lparr>c_db := d, c_faults := tl (c_faults c)\<rparr>)))"

definition conn_repositories :: "pg_env \<Rightarrow> conn repositories" where
  "conn_repositories pg =
     \<lparr>wallets_Create = (\<lambda>w. statement (WalletRepository_Create w)),
      wallets_FindByID = (\<lambda>i. statement (WalletRepository_FindByID i)),
      wallets_FindByIDForUpdate = (\<lambda>i. statement (WalletRepository_FindByIDForUpdate True i)),
      wallets_Update = (\<lambda>w. statement (WalletRepository_Update w)),
      wagers_Create = (\<lambda>t. statement (WagerRepository_Create t)),
      wagers_FindByID = (\<lambda>p i. statement (WagerRepository_FindByID p i)),
      wagers_FindByExternalID = (\<lambda>p x. statement (WagerRepository_FindByExternalID p x)),
      wagers_FindByIdempotencyKey = (\<lambda>p k. statement (WagerRepository_FindByIdempotencyKey p k)),
      wagers_HasSuccessfulReversal = (\<lambda>i. statement (WagerRepository_HasSuccessfulReversal i)),
      wagers_Update = (\<lambda>t. statement (WagerRepository_Update t)),
      wagers_ClaimPendingReference = statement (ClaimPendingReference pg),
      wagers_ScheduleReferenceRetry = (\<lambda>i n w. statement (ScheduleReferenceRetry i n w)),
      ledger_Create = (\<lambda>e. statement (LedgerRepository_Create e)),
      inbox_Register = (\<lambda>c m h. statement (InboxRepository_Register c m h)),
      inbox_Complete = (\<lambda>c m. statement (InboxRepository_Complete c m)),
      outbox_Create = (\<lambda>ev. statement (OutboxRepository_Create pg ev))\<rparr>"

lemma statement_simulates: "simulates c_db (statement m) m"
  by (auto simp: simulates_def statement_def split: list.split option.split prod.split)

text \<open>The connection keeps every promise of the interfaces.\<close>

interpretation pg_wallets: wallet_port "conn_repositories pg" "pg_repositories pg" c_db for pg
  by unfold_locales (simp_all add: conn_repositories_def pg_repositories_def statement_simulates)

interpretation pg_wagers: wager_port "conn_repositories pg" "pg_repositories pg" c_db for pg
  by unfold_locales (simp_all add: conn_repositories_def pg_repositories_def statement_simulates)

interpretation pg_ledger: ledger_port "conn_repositories pg" "pg_repositories pg" c_db for pg
  by unfold_locales (simp_all add: conn_repositories_def pg_repositories_def statement_simulates)

interpretation pg_inbox: inbox_port "conn_repositories pg" "pg_repositories pg" c_db for pg
  by unfold_locales (simp_all add: conn_repositories_def pg_repositories_def statement_simulates)

interpretation pg_outbox: outbox_port "conn_repositories pg" "pg_repositories pg" c_db for pg
  by unfold_locales (simp_all add: conn_repositories_def pg_repositories_def statement_simulates)

interpretation pg_ports: ports "conn_repositories pg" "pg_repositories pg" c_db for pg
  by unfold_locales

section \<open>\<open>UnitOfWork\<close>\<close>

text \<open>
  A transaction may fail to begin, at any statement, and at the commit. A commit that reports an
  error may have been applied all the same, when the answer was lost.
\<close>

datatype commit_outcome = CommitOk | CommitFailed infra_error | CommitLost infra_error

record tx_run =
  run_begin :: "infra_error option"
  run_faults :: "infra_error option list"
  run_commit :: commit_outcome

definition WithinTransaction :: "pg_env \<Rightarrow> tx_run \<Rightarrow> (conn repositories \<Rightarrow> (conn, 'a) act) \<Rightarrow> (db, 'a) act" where
  "WithinTransaction pg run work d =
     (case run_begin run of
        Some i \<Rightarrow> (Inl (Infra i), d)
      | None \<Rightarrow>
          (case work (conn_repositories pg) \<lparr>c_db = d, c_faults = run_faults run\<rparr> of
             (Inl e, _) \<Rightarrow> (Inl e, d)
           | (Inr x, c) \<Rightarrow>
               (case run_commit run of
                  CommitOk \<Rightarrow> (Inr x, c_db c)
                | CommitFailed i \<Rightarrow> (Inl (Infra i), d)
                | CommitLost i \<Rightarrow> (Inl (Infra i), c_db c))))"

definition fault_free :: tx_run where
  "fault_free = \<lparr>run_begin = None, run_faults = [], run_commit = CommitOk\<rparr>"

text \<open>The same work on the tables alone, all or nothing.\<close>

definition atomically :: "(db, 'a) act \<Rightarrow> (db, 'a) act" where
  "atomically work d = (case work d of (Inl e, _) \<Rightarrow> (Inl e, d) | (Inr x, d') \<Rightarrow> (Inr x, d'))"

text \<open>
  A unit of work over computations that the interfaces relate: it succeeds with the result and the
  tables of the atomic reference, or it reports an error and leaves the tables of before or, when
  only the answer of the commit was lost, the tables of the reference.
\<close>

lemma WithinTransaction_outcome:
  assumes sim: "simulates_tx c_db (work (conn_repositories pg)) (work' (pg_repositories pg))"
    and run: "WithinTransaction pg run work d = (r, d')"
  shows "(r, d') = atomically (work' (pg_repositories pg)) d
       \<or> (\<exists>i. r = Inl (Infra i) \<and> (d' = d \<or> (\<exists>x. work' (pg_repositories pg) d = (Inr x, d'))))"
proof -
  let ?c = "\<lparr>c_db = d, c_faults = run_faults run\<rparr>"
  obtain q c where w: "work (conn_repositories pg) ?c = (q, c)" by force
  have S: "(\<exists>i. q = Inl (Infra i)) \<or> work' (pg_repositories pg) d = (q, c_db c)"
    using sim w unfolding simulates_tx_def by (metis conn.select_convs(1) fst_conv prod.collapse snd_conv)
  show ?thesis
  proof (cases "run_begin run")
    case (Some i)
    then show ?thesis using run by (auto simp: WithinTransaction_def)
  next
    case None
    show ?thesis
    proof (cases q)
      case (Inl e)
      then have "r = Inl e" "d' = d" using run None w by (simp_all add: WithinTransaction_def)
      then show ?thesis using S Inl by (auto simp: atomically_def)
    next
      case (Inr x)
      then have "work' (pg_repositories pg) d = (Inr x, c_db c)" using S by simp
      then show ?thesis
        using run None w Inr
        by (cases "run_commit run") (auto simp: WithinTransaction_def atomically_def)
    qed
  qed
qed

text \<open>
  The other way round: a connection without faults does what the tables do. The interfaces hold with the two
  implementations exchanged.
\<close>

definition quiet :: "db \<Rightarrow> conn" where
  "quiet d = \<lparr>c_db = d, c_faults = []\<rparr>"

lemma quiet_simulates: "simulates quiet m (statement m)"
  by (simp add: simulates_def statement_def quiet_def split: prod.split)

interpretation quiet_ports: ports "pg_repositories pg" "conn_repositories pg" quiet for pg
  by unfold_locales (simp_all add: conn_repositories_def pg_repositories_def quiet_simulates)

lemma WithinTransaction_fault_free:
  assumes sim: "simulates_tx quiet (work' (pg_repositories pg)) (work (conn_repositories pg))"
    and run: "work' (pg_repositories pg) d = (Inr x, d')"
  shows "WithinTransaction pg fault_free work d = (Inr x, d')"
proof -
  have "fst (work (conn_repositories pg) (quiet d)) = Inr x" "snd (work (conn_repositories pg) (quiet d)) = quiet d'"
    using sim run unfolding simulates_tx_def by (metis fst_conv snd_conv sum.distinct(1))+
  then have "work (conn_repositories pg) (quiet d) = (Inr x, quiet d')" by (simp add: prod_eq_iff)
  then show ?thesis by (simp add: WithinTransaction_def fault_free_def quiet_def)
qed

text \<open>The unit of work without faults, on the tables themselves.\<close>

definition reference_unit :: "pg_env \<Rightarrow> (db repositories \<Rightarrow> (db, 'a) act) \<Rightarrow> (db, 'a) act" where
  "reference_unit pg work = atomically (work (pg_repositories pg))"

definition agrees_up_to_faults :: "(error + 'a) \<times> db \<Rightarrow> (error + 'a) \<times> db \<Rightarrow> db \<Rightarrow> bool" where
  "agrees_up_to_faults run reference d \<longleftrightarrow>
     run = reference \<or> (\<exists>i. fst run = Inl (Infra i)) \<and> (snd run = d \<or> snd run = snd reference)"

lemma WithinTransaction_agrees:
  assumes "simulates_tx c_db (work (conn_repositories pg)) (work' (pg_repositories pg))"
  shows "agrees_up_to_faults (WithinTransaction pg run work d) (reference_unit pg work' d) d"
proof -
  obtain r d' where run: "WithinTransaction pg run work d = (r, d')" by force
  show ?thesis
    using WithinTransaction_outcome [where work' = work', OF assms run]
    by (auto simp: agrees_up_to_faults_def reference_unit_def run atomically_def)
qed

lemma agrees_refl [simp]: "agrees_up_to_faults x x d"
  by (simp add: agrees_up_to_faults_def)

lemma reference_unit_ok_iff:
  "reference_unit pg work d = (Inr x, d') \<longleftrightarrow> work (pg_repositories pg) d = (Inr x, d')"
  by (auto simp: reference_unit_def atomically_def split: prod.split sum.split)

section \<open>What is written can be read\<close>

text \<open>A stored instant loses what is below the microsecond.\<close>

definition wager_micros :: "wager_transaction \<Rightarrow> wager_transaction" where
  "wager_micros t = t\<lparr>t_createdAt := go_time (pg_time (t_createdAt t)), t_updatedAt := go_time (pg_time (t_updatedAt t))\<rparr>"

definition wallet_micros :: "wallet \<Rightarrow> wallet" where
  "wallet_micros w = w\<lparr>w_createdAt := go_time (pg_time (w_createdAt w)), w_updatedAt := go_time (pg_time (w_updatedAt w))\<rparr>"

lemma micros_mono: "t \<le> u \<Longrightarrow> go_time (pg_time t) \<le> go_time (pg_time u)"
  by (simp add: go_time_def pg_time_def zdiv_mono1)

lemma micros_pos: "1000 \<le> t \<Longrightarrow> go_time (pg_time t) \<noteq> 0"
  using zdiv_mono1 [of 1000 t 1000] by (simp add: go_time_def pg_time_def)

lemma coalesce_nullif [simp]: "coalesce_empty (nullif_empty s) = s"
  by (simp add: coalesce_empty_def nullif_empty_def)

lemma wager_micros_fields [simp]:
  "t_id (wager_micros t) = t_id t" "t_walletID (wager_micros t) = t_walletID t"
  "t_playerID (wager_micros t) = t_playerID t" "t_kind (wager_micros t) = t_kind t"
  "t_money (wager_micros t) = t_money t" "t_status (wager_micros t) = t_status t"
  "t_referenceExternalTransactionID (wager_micros t) = t_referenceExternalTransactionID t"
  "t_referenceTransactionID (wager_micros t) = t_referenceTransactionID t"
  "t_failureCode (wager_micros t) = t_failureCode t" "t_resultBalance (wager_micros t) = t_resultBalance t"
  "t_payloadHash (wager_micros t) = t_payloadHash t" "t_idempotencyKey (wager_micros t) = t_idempotencyKey t"
  "t_externalTransactionID (wager_micros t) = t_externalTransactionID t" "t_providerID (wager_micros t) = t_providerID t"
  "t_roundID (wager_micros t) = t_roundID t" "t_gameID (wager_micros t) = t_gameID t"
  by (simp_all add: wager_micros_def)

lemma wager_micros_dates:
  "t_createdAt (wager_micros t) = go_time (pg_time (t_createdAt t))"
  "t_updatedAt (wager_micros t) = go_time (pg_time (t_updatedAt t))"
  by (simp_all add: wager_micros_def)

lemma wager_micros_valid:
  assumes "wager_valid t" and "1000 \<le> t_createdAt t"
  shows "wager_valid (wager_micros t)"
proof -
  have same: "validate_identity (wager_micros t) = validate_identity t"
    "validate_reference_id (wager_micros t) = validate_reference_id t"
    "validate_result_balance (wager_micros t) = validate_result_balance t"
    "validate_status (wager_micros t) = validate_status t"
    by (simp_all only: validate_identity_def validate_reference_id_def validate_result_balance_def
        validate_status_def needsReference_def wager_micros_fields)
  have "t_createdAt t \<le> t_updatedAt t" using assms(1) unfolding wager_valid_iff by blast
  then show ?thesis
    using assms(1) micros_mono [of "t_createdAt t" "t_updatedAt t"] micros_pos [OF assms(2)]
    by (simp only: wager_valid_iff same wager_micros_fields wager_micros_dates) blast
qed

lemma scanWager_row_of:
  assumes v: "wager_valid t" and c: "1000 \<le> t_createdAt t"
  shows "scanWager (wager_row_of now t) = Inr (wager_micros t)"
proof -
  have cur: "validCurrency (currency (t_money t))" using wager_valid_currency [OF v] .
  have res: "map_option (\<lambda>b. \<lparr>amount = amount b, currency = currency (t_money t)\<rparr>) (t_resultBalance t) = t_resultBalance t"
    using v by (cases "t_resultBalance t") (auto simp: wager_valid_iff validate_result_balance_def split: if_splits)
  let ?g = "wager_row_of now t"
  let ?t = "\<lparr>t_id = wg_id ?g, t_externalTransactionID = coalesce_empty (wg_external_transaction_id ?g),
     t_providerID = coalesce_empty (wg_provider_id ?g), t_idempotencyKey = coalesce_empty (wg_idempotency_key ?g),
     t_payloadHash = coalesce_empty (wg_payload_hash ?g), t_walletID = wg_wallet_id ?g,
     t_playerID = wg_player_id ?g, t_roundID = coalesce_empty (wg_round_id ?g),
     t_gameID = coalesce_empty (wg_game_id ?g), t_kind = wg_kind ?g,
     t_money = \<lparr>amount = wg_amount_cents ?g, currency = wg_currency ?g\<rparr>,
     t_referenceExternalTransactionID = wg_reference_external_transaction_id ?g,
     t_referenceTransactionID = wg_reference_transaction_id ?g, t_status = wg_status ?g,
     t_failureCode = wg_failure_code ?g,
     t_resultBalance = map_option (\<lambda>b. \<lparr>amount = amount b, currency = currency (t_money t)\<rparr>) (t_resultBalance t),
     t_createdAt = go_time (wg_created_at ?g), t_updatedAt = go_time (wg_updated_at ?g)\<rparr>"
  have "?t = wager_micros t"
    by (rule wager_transaction.equality) (simp_all only: res, simp_all add: wager_row_of_def wager_micros_def)
  moreover have "scanWager ?g = RehydrateWagerTransaction ?t"
    using cur by (cases "t_resultBalance t")
      (simp_all add: scanWager_def MoneyFromMinorUnits_def wager_row_of_def)
  ultimately show ?thesis using wager_micros_valid [OF v c] by (simp add: RehydrateWagerTransaction_def)
qed

lemma write_wager_row_of:
  "same_operation t t' \<Longrightarrow> write_wager t' (wager_row_of now t) = wager_row_of now t'"
  by (simp add: write_wager_def wager_row_of_def same_operation_def)

section \<open>Properties\<close>

text \<open>C39: An inserted operation, and an operation inserted and then updated along its transitions, is read back
  from its row as it was, with its dates cut to the microsecond: nothing of its identity, money, reference,
  state, failure code or result is lost or changed by the columns.\<close>

theorem wager_row_roundtrip:
  assumes "wager_valid t'" and "1000 \<le> t_createdAt t'" and "same_operation t t'"
  shows "scanWager (wager_row_of now t') = Inr (wager_micros t') \<and>
         scanWager (write_wager t' (wager_row_of now t)) = Inr (wager_micros t')"
  using scanWager_row_of [OF assms(1,2)] write_wager_row_of [OF assms(3)] by simp

theorem wager_row_roundtrip_witness:
  "scanWager (write_wager sample_bet (wager_row_of 9 sample_bet)) = Inr (wager_micros sample_bet)"
  using wager_row_roundtrip [of sample_bet sample_bet 9] sample_bet_valid by (simp add: sample_bet_def)

text \<open>A stored wallet is read back as it was, with its dates cut to the microsecond.\<close>

theorem wallet_row_roundtrip:
  assumes "wallet_wf w" and "1000 \<le> w_createdAt w" and "w_createdAt w \<le> w_updatedAt w"
  shows "scan_wallet (wallet_row_of w) = Inr (wallet_micros w)"
  using assms micros_mono [OF assms(3)] micros_pos [OF assms(2)]
  by (simp add: scan_wallet_def wallet_row_of_def MoneyFromMinorUnits_def wallet_wf_def wallet_micros_def
      RehydrateWallet_ok_iff)

theorem wallet_row_roundtrip_witness:
  "scan_wallet (wallet_row_of \<lparr>w_id = 1, w_playerID = 2, w_balance = \<lparr>amount = 5, currency = ''BRL''\<rparr>, w_version = 1,
     w_createdAt = 5999, w_updatedAt = 7000\<rparr>) =
   Inr \<lparr>w_id = 1, w_playerID = 2, w_balance = \<lparr>amount = 5, currency = ''BRL''\<rparr>, w_version = 1,
     w_createdAt = 5000, w_updatedAt = 7000\<rparr>"
  using wallet_row_roundtrip [of "\<lparr>w_id = 1, w_playerID = 2, w_balance = \<lparr>amount = 5, currency = ''BRL''\<rparr>,
     w_version = 1, w_createdAt = 5999, w_updatedAt = 7000\<rparr>"]
  by (simp add: wallet_wf_def uuid_Nil_def validCurrency_def wallet_micros_def go_time_def pg_time_def)

end
