(* ===== verification/FinancialState.thy ===== *)
theory FinancialState
  imports Postgres
begin

text \<open>
  What the tables say about money: the consistency that \<open>check_wallet_financial_state\<close> of the second
  migration checks at every commit, strengthened to an invariant, and its preservation by the
  combinations of row changes that the use cases make.
\<close>

section \<open>The consistency of the tables\<close>

definition wallet_ledger :: "db \<Rightarrow> uuid \<Rightarrow> ledger_row list" where
  "wallet_ledger d i = filter (\<lambda>e. lr_wallet_id e = i) (db_ledger d)"

definition signed_cents :: "ledger_row \<Rightarrow> int" where
  "signed_cents e = direction_sign (lr_direction e) * sint (lr_amount_cents e)"

text \<open>Every line starts from the balance the previous one left.\<close>

fun ledger_chain :: "int \<Rightarrow> ledger_row list \<Rightarrow> int \<Rightarrow> bool" where
  "ledger_chain b [] b' \<longleftrightarrow> b = b'"
| "ledger_chain b (e # es) b' \<longleftrightarrow>
     sint (lr_balance_before_cents e) = b \<and> sint (lr_balance_after_cents e) = b + signed_cents e \<and>
     0 \<le> sint (lr_balance_after_cents e) \<and> ledger_chain (sint (lr_balance_after_cents e)) es b'"

definition operation_kind :: "db \<Rightarrow> uuid \<Rightarrow> WagerKind option" where
  "operation_kind d i = map_option wg_kind (find (\<lambda>g. wg_id g = i) (db_wagers d))"

definition movements :: "db \<Rightarrow> uuid \<Rightarrow> ledger_row list" where
  "movements d i =
     filter (\<lambda>e. operation_kind d (lr_transaction_id e) \<noteq> Some WagerKindOpening) (wallet_ledger d i)"

definition wallet_state_ok :: "db \<Rightarrow> wallet_row \<Rightarrow> bool" where
  "wallet_state_ok d r \<longleftrightarrow>
     ledger_chain 0 (wallet_ledger d (wr_id r)) (sint (wr_balance_cents r)) \<and>
     sint (wr_version r) = 1 + int (length (movements d (wr_id r)))"

definition direction_of_kind :: "WagerKind \<Rightarrow> LedgerDirection \<Rightarrow> bool" where
  "direction_of_kind k dir \<longleftrightarrow>
     (case k of
        WagerKindOpening \<Rightarrow> dir = LedgerDirectionCredit
      | WagerKindBet \<Rightarrow> dir = LedgerDirectionDebit
      | WagerKindWin \<Rightarrow> dir = LedgerDirectionCredit
      | WagerKindRefund \<Rightarrow> dir = LedgerDirectionCredit
      | WagerKindRollback \<Rightarrow> LedgerDirection_IsValid dir
      | _ \<Rightarrow> False)"

definition records :: "ledger_row \<Rightarrow> wager_row \<Rightarrow> bool" where
  "records e g \<longleftrightarrow>
     wg_id g = lr_transaction_id e \<and> wg_wallet_id g = lr_wallet_id e \<and>
     wg_amount_cents g = lr_amount_cents e \<and> wg_currency g = lr_currency e \<and>
     direction_of_kind (wg_kind g) (lr_direction e) \<and>
     wg_status g = WagerStatusProcessed \<and> wg_result_balance_cents g = Some (lr_balance_after_cents e)"

definition wager_row_ok :: "db \<Rightarrow> wager_row \<Rightarrow> bool" where
  "wager_row_ok d g \<longleftrightarrow>
     (\<exists>w \<in> set (db_wallets d).
        wr_id w = wg_wallet_id g \<and> wr_player_id w = wg_player_id g \<and> wr_currency w = wg_currency g) \<and>
     (wg_status g = WagerStatusProcessed \<and> wg_kind g \<noteq> WagerKindLoss \<longrightarrow>
        (\<exists>e \<in> set (db_ledger d). records e g))"

definition reversals_unique :: "wager_row list \<Rightarrow> bool" where
  "reversals_unique gs \<longleftrightarrow>
     (\<forall>g \<in> set gs. \<forall>h \<in> set gs. \<forall>x.
        successful_reversal g \<and> successful_reversal h \<and>
        wg_reference_transaction_id g = Some x \<and> wg_reference_transaction_id h = Some x \<longrightarrow>
        wg_id g = wg_id h)"

definition consistent :: "db \<Rightarrow> bool" where
  "consistent d \<longleftrightarrow>
     sorted_wrt (\<lambda>a b. \<not> wallet_conflict a b) (db_wallets d) \<and>
     sorted_wrt (\<lambda>a b. \<not> wager_conflict a b) (db_wagers d) \<and>
     distinct (map lr_transaction_id (db_ledger d)) \<and>
     (\<forall>r \<in> set (db_wallets d). wallet_state_ok d r) \<and>
     (\<forall>e \<in> set (db_ledger d). \<exists>g \<in> set (db_wagers d). records e g) \<and>
     (\<forall>g \<in> set (db_wagers d). wager_row_ok d g) \<and>
     reversals_unique (db_wagers d)"

definition empty_db :: "timestamptz \<Rightarrow> db" where
  "empty_db now =
     \<lparr>db_wallets = [], db_wagers = [], db_ledger = [], db_inbox = [], db_outbox = [], db_clock = now\<rparr>"

lemma consistent_empty: "consistent (empty_db now)"
  by (simp add: consistent_def empty_db_def reversals_unique_def)

text \<open>The check of the migration, as it is written.\<close>

definition joined_ledger :: "db \<Rightarrow> uuid \<Rightarrow> (ledger_row \<times> wager_row) list" where
  "joined_ledger d i =
     concat (map (\<lambda>e. map (Pair e) (filter (\<lambda>g. wg_id g = lr_transaction_id e) (db_wagers d)))
       (filter (\<lambda>e. lr_wallet_id e = i) (db_ledger d)))"

definition check_wallet_financial_state :: "db \<Rightarrow> wallet_row \<Rightarrow> bool" where
  "check_wallet_financial_state d r \<longleftrightarrow>
     sint (wr_balance_cents r) =
       sum_list (map (\<lambda>(e, g). if lr_direction e = LedgerDirectionCredit then sint (lr_amount_cents e)
                               else - sint (lr_amount_cents e)) (joined_ledger d (wr_id r))) \<and>
     sint (wr_version r) =
       1 + int (length (filter (\<lambda>(e, g). wg_kind g \<noteq> WagerKindOpening) (joined_ledger d (wr_id r)))) \<and>
     \<not> list_ex (\<lambda>g. wg_wallet_id g = wr_id r \<and> wg_status g = WagerStatusProcessed \<and>
                    wg_kind g \<noteq> WagerKindLoss \<and>
                    \<not> list_ex (\<lambda>e. lr_transaction_id e = wg_id g) (db_ledger d)) (db_wagers d)"

section \<open>Identities\<close>

lemma wager_conflict_sym: "wager_conflict a b \<longleftrightarrow> wager_conflict b a"
  by (auto simp: wager_conflict_def same_key_def)

lemma wallet_conflict_sym: "wallet_conflict a b \<longleftrightarrow> wallet_conflict b a"
  by (auto simp: wallet_conflict_def)

lemma no_conflict_imp_distinct:
  assumes "sorted_wrt (\<lambda>a b. \<not> conflict a b) rs" and "\<And>a b. k a = k b \<Longrightarrow> conflict a b"
  shows "distinct (map k rs)"
  using assms(1) by (induction rs) (auto dest: assms(2))

lemma no_conflict_unique:
  assumes "sorted_wrt (\<lambda>a b. \<not> conflict a b) rs" and "\<And>a b. conflict a b \<longleftrightarrow> conflict b a"
    and "a \<in> set rs" and "b \<in> set rs" and "conflict a b"
  shows "a = b"
  using assms(1,3,4,5) by (induction rs) (auto simp: assms(2))

lemma distinct_wager_ids: "consistent d \<Longrightarrow> distinct (map wg_id (db_wagers d))"
  by (rule no_conflict_imp_distinct [where conflict = wager_conflict])
    (simp_all add: consistent_def wager_conflict_def)

lemma distinct_wallet_ids: "consistent d \<Longrightarrow> distinct (map wr_id (db_wallets d))"
  by (rule no_conflict_imp_distinct [where conflict = wallet_conflict])
    (simp_all add: consistent_def wallet_conflict_def)

lemma wager_row_unique:
  "consistent d \<Longrightarrow> g \<in> set (db_wagers d) \<Longrightarrow> h \<in> set (db_wagers d) \<Longrightarrow> wg_id g = wg_id h \<Longrightarrow> g = h"
  using distinct_map_inj [OF distinct_wager_ids] .

lemma wallet_row_unique:
  "consistent d \<Longrightarrow> r \<in> set (db_wallets d) \<Longrightarrow> s \<in> set (db_wallets d) \<Longrightarrow> wr_id r = wr_id s \<Longrightarrow> r = s"
  using distinct_map_inj [OF distinct_wallet_ids] .

lemma operation_kind_row:
  "consistent d \<Longrightarrow> g \<in> set (db_wagers d) \<Longrightarrow> operation_kind d (wg_id g) = Some (wg_kind g)"
  using find_by_key [OF distinct_wager_ids, of d g] by (simp add: operation_kind_def)

section \<open>The ledger of a wallet\<close>

lemma ledger_chain_append:
  "ledger_chain b (es @ fs) b' \<longleftrightarrow> (\<exists>m. ledger_chain b es m \<and> ledger_chain m fs b')"
  by (induction es arbitrary: b) auto

lemma ledger_chain_sum: "ledger_chain b es b' \<Longrightarrow> b' = b + sum_list (map signed_cents es)"
proof (induction es arbitrary: b)
  case (Cons e es)
  then have "b' = sint (lr_balance_after_cents e) + sum_list (map signed_cents es)" by fastforce
  then show ?case using Cons.prems by simp
qed simp

lemma ledger_chain_nonneg: "ledger_chain b es b' \<Longrightarrow> 0 \<le> b \<Longrightarrow> 0 \<le> b'"
  by (induction es arbitrary: b) auto

lemma joined_ledger_eq:
  assumes "consistent d"
  shows "map fst (joined_ledger d i) = wallet_ledger d i"
    and "(e, g) \<in> set (joined_ledger d i) \<Longrightarrow> g \<in> set (db_wagers d) \<and> records e g"
proof -
  have one: "filter (\<lambda>g. wg_id g = lr_transaction_id e) (db_wagers d) = [g]"
    if "g \<in> set (db_wagers d)" and "wg_id g = lr_transaction_id e" for e g
    using filter_by_key [OF distinct_wager_ids [OF assms] that(1)] that(2) by simp
  have ex: "\<exists>g \<in> set (db_wagers d). records e g" if "e \<in> set (db_ledger d)" for e
    using that assms unfolding consistent_def by blast
  show "map fst (joined_ledger d i) = wallet_ledger d i"
  proof -
    have "map fst (concat (map (\<lambda>e. map (Pair e) (filter (\<lambda>g. wg_id g = lr_transaction_id e) (db_wagers d))) es)) = es"
      if "set es \<subseteq> set (db_ledger d)" for es
      using that
    proof (induction es)
      case (Cons e es)
      then obtain g where "g \<in> set (db_wagers d)" "wg_id g = lr_transaction_id e"
        using ex [of e] unfolding records_def by auto
      then show ?case using Cons one [of g e] by simp
    qed simp
    then show ?thesis by (simp add: joined_ledger_def wallet_ledger_def)
  qed
  assume "(e, g) \<in> set (joined_ledger d i)"
  then have "e \<in> set (db_ledger d)" "g \<in> set (db_wagers d)" "wg_id g = lr_transaction_id e"
    by (auto simp: joined_ledger_def)
  moreover from this obtain h where "h \<in> set (db_wagers d)" "records e h" using ex by blast
  ultimately show "g \<in> set (db_wagers d) \<and> records e g"
    using wager_row_unique [OF assms, of g h] by (auto simp: records_def)
qed

lemma direction_of_kind_valid: "direction_of_kind k dir \<Longrightarrow> LedgerDirection_IsValid dir"
  by (auto simp: direction_of_kind_def LedgerDirection_IsValid_def split: WagerKind.splits)

lemma consistent_check:
  assumes c: "consistent d" and r: "r \<in> set (db_wallets d)"
  shows "check_wallet_financial_state d r"
proof -
  let ?j = "joined_ledger d (wr_id r)"
  have ok: "wallet_state_ok d r" using c r unfolding consistent_def by blast
  have sign: "(case p of (e, g) \<Rightarrow> if lr_direction e = LedgerDirectionCredit then sint (lr_amount_cents e)
        else - sint (lr_amount_cents e)) = signed_cents (fst p)" if "p \<in> set ?j" for p
  proof -
    obtain e g where p: "p = (e, g)" by force
    have "LedgerDirection_IsValid (lr_direction e)"
      using that joined_ledger_eq(2) [OF c, of e g "wr_id r"] direction_of_kind_valid
      unfolding p records_def by blast
    then show ?thesis by (auto simp: p signed_cents_def direction_sign_def direction_valid_iff)
  qed
  have "sum_list (map (\<lambda>(e, g). if lr_direction e = LedgerDirectionCredit then sint (lr_amount_cents e)
        else - sint (lr_amount_cents e)) ?j) = sum_list (map signed_cents (map fst ?j))"
    using sign by (simp add: o_def cong: map_cong)
  moreover have "length (filter (\<lambda>(e, g). wg_kind g \<noteq> WagerKindOpening) ?j)
      = length (movements d (wr_id r))"
  proof -
    have "filter (\<lambda>(e, g). wg_kind g \<noteq> WagerKindOpening) ?j =
        filter ((\<lambda>e. operation_kind d (lr_transaction_id e) \<noteq> Some WagerKindOpening) \<circ> fst) ?j"
    proof (rule filter_cong [OF refl])
      fix p
      assume "p \<in> set ?j"
      then show "(case p of (e, g) \<Rightarrow> wg_kind g \<noteq> WagerKindOpening) =
          ((\<lambda>e. operation_kind d (lr_transaction_id e) \<noteq> Some WagerKindOpening) \<circ> fst) p"
        using joined_ledger_eq(2) [OF c, of "fst p" "snd p" "wr_id r"]
          operation_kind_row [OF c, of "snd p"]
        by (cases p) (auto simp: records_def)
    qed
    then show ?thesis
      using joined_ledger_eq(1) [OF c, of "wr_id r"]
      by (metis (no_types, lifting) filter_map length_map movements_def)
  qed
  moreover have "\<exists>e \<in> set (db_ledger d). lr_transaction_id e = wg_id g"
    if "g \<in> set (db_wagers d)" "wg_status g = WagerStatusProcessed" "wg_kind g \<noteq> WagerKindLoss" for g
    using that c unfolding consistent_def wager_row_ok_def records_def by metis
  ultimately show ?thesis
    using ok joined_ledger_eq(1) [OF c, of "wr_id r"]
    by (auto simp: check_wallet_financial_state_def wallet_state_ok_def list_ex_iff dest: ledger_chain_sum)
qed

section \<open>Changes that keep the consistency\<close>

text \<open>The columns that no statement updates.\<close>

definition same_identity :: "wager_row \<Rightarrow> wager_row \<Rightarrow> bool" where
  "same_identity g h \<longleftrightarrow>
     wg_id h = wg_id g \<and> wg_provider_id h = wg_provider_id g \<and>
     wg_external_transaction_id h = wg_external_transaction_id g \<and>
     wg_idempotency_key h = wg_idempotency_key g \<and> wg_payload_hash h = wg_payload_hash g \<and>
     wg_wallet_id h = wg_wallet_id g \<and> wg_player_id h = wg_player_id g \<and>
     wg_round_id h = wg_round_id g \<and> wg_game_id h = wg_game_id g \<and>
     wg_kind h = wg_kind g \<and> wg_amount_cents h = wg_amount_cents g \<and> wg_currency h = wg_currency g \<and>
     wg_reference_external_transaction_id h = wg_reference_external_transaction_id g \<and>
     wg_created_at h = wg_created_at g"

text \<open>The columns of a terminal operation that its meaning depends on.\<close>

definition same_outcome :: "wager_row \<Rightarrow> wager_row \<Rightarrow> bool" where
  "same_outcome g h \<longleftrightarrow>
     wg_status h = wg_status g \<and> wg_reference_transaction_id h = wg_reference_transaction_id g \<and>
     wg_result_balance_cents h = wg_result_balance_cents g"

lemma sorted_no_conflict_map:
  assumes "sorted_wrt (\<lambda>a b. \<not> wager_conflict a b) gs" and "\<And>g. g \<in> set gs \<Longrightarrow> same_identity g (f g)"
  shows "sorted_wrt (\<lambda>a b. \<not> wager_conflict a b) (map f gs)"
  unfolding sorted_wrt_map
  using assms by (intro sorted_wrt_mono_rel [OF _ assms(1)])
    (auto simp: wager_conflict_def same_identity_def)

lemma operation_kind_map:
  assumes "\<And>g. g \<in> set (db_wagers d) \<Longrightarrow> same_identity g (f g)"
    and "db_wagers d' = map f (db_wagers d)"
  shows "operation_kind d' i = operation_kind d i"
proof -
  have "find ((\<lambda>g. wg_id g = i) \<circ> f) gs = find (\<lambda>g. wg_id g = i) gs"
    if "set gs \<subseteq> set (db_wagers d)" for gs
    using that assms(1) by (induction gs) (auto simp: same_identity_def)
  moreover have "wg_kind (f g) = wg_kind g" if "find (\<lambda>g. wg_id g = i) (db_wagers d) = Some g" for g
    using find_SomeD [OF that] assms(1) by (simp add: same_identity_def)
  ultimately show ?thesis
    by (cases "find (\<lambda>g. wg_id g = i) (db_wagers d)")
      (simp_all add: operation_kind_def assms(2) find_map)
qed

lemma records_kept:
  "records e g \<Longrightarrow> same_identity g h \<Longrightarrow> same_outcome g h \<Longrightarrow> records e h"
  by (simp add: records_def same_identity_def same_outcome_def)

text \<open>A change of operations that moves no money.\<close>

lemma consistent_change_wagers:
  assumes c: "consistent d"
    and same: "\<And>g. g \<in> set (db_wagers d) \<Longrightarrow> same_identity g (f g)"
    and fin: "\<And>g. g \<in> set (db_wagers d) \<Longrightarrow> wg_status g = WagerStatusProcessed \<Longrightarrow> same_outcome g (f g)"
    and open': "\<And>g. g \<in> set (db_wagers d) \<Longrightarrow> wg_status g \<noteq> WagerStatusProcessed \<Longrightarrow>
        wg_status (f g) = WagerStatusProcessed \<Longrightarrow> wg_kind g = WagerKindLoss"
    and w: "db_wallets d' = db_wallets d" and g: "db_wagers d' = map f (db_wagers d)"
    and l: "db_ledger d' = db_ledger d"
  shows "consistent d'"
  unfolding consistent_def
proof (intro conjI ballI)
  show "sorted_wrt (\<lambda>a b. \<not> wallet_conflict a b) (db_wallets d')"
    using c by (simp add: consistent_def w)
  show "sorted_wrt (\<lambda>a b. \<not> wager_conflict a b) (db_wagers d')"
    using c same unfolding g consistent_def by (intro sorted_no_conflict_map) blast+
  show "distinct (map lr_transaction_id (db_ledger d'))"
    using c by (simp add: consistent_def l)
next
  fix r
  assume "r \<in> set (db_wallets d')"
  then have "wallet_state_ok d r" using c by (simp add: w consistent_def)
  moreover have "operation_kind d' i = operation_kind d i" for i
    using same g by (rule operation_kind_map)
  ultimately show "wallet_state_ok d' r"
    by (simp add: wallet_state_ok_def movements_def wallet_ledger_def l)
next
  fix e
  assume "e \<in> set (db_ledger d')"
  then obtain h where h: "h \<in> set (db_wagers d)" "records e h"
    using c unfolding consistent_def l by blast
  then have "wg_status h = WagerStatusProcessed" by (simp add: records_def)
  then have "records e (f h)" using records_kept [OF h(2) same [OF h(1)] fin [OF h(1)]] by simp
  then show "\<exists>g \<in> set (db_wagers d'). records e g" using h(1) by (auto simp: g)
next
  fix h'
  assume "h' \<in> set (db_wagers d')"
  then obtain h where h: "h \<in> set (db_wagers d)" "h' = f h" by (auto simp: g)
  have ok: "wager_row_ok d h" using c h(1) by (simp add: consistent_def)
  show "wager_row_ok d' h'"
    unfolding wager_row_ok_def
  proof (intro conjI impI)
    show "\<exists>w \<in> set (db_wallets d'). wr_id w = wg_wallet_id h' \<and> wr_player_id w = wg_player_id h' \<and>
        wr_currency w = wg_currency h'"
      using ok same [OF h(1)] by (simp add: wager_row_ok_def w h(2) same_identity_def)
    assume p: "wg_status h' = WagerStatusProcessed \<and> wg_kind h' \<noteq> WagerKindLoss"
    then have s: "wg_status h = WagerStatusProcessed" "wg_kind h \<noteq> WagerKindLoss"
      using open' [OF h(1)] same [OF h(1)] by (auto simp: h(2) same_identity_def)
    then obtain e where "e \<in> set (db_ledger d)" "records e h" using ok by (auto simp: wager_row_ok_def)
    then show "\<exists>e \<in> set (db_ledger d'). records e h'"
      using records_kept [OF _ same [OF h(1)] fin [OF h(1) s(1)]] by (auto simp: l h(2))
  qed
next
  have was: "successful_reversal h \<and> same_outcome h (f h)"
    if "h \<in> set (db_wagers d)" "successful_reversal (f h)" for h
  proof -
    have k: "wg_kind h = WagerKindRefund \<or> wg_kind h = WagerKindRollback"
        "wg_status (f h) = WagerStatusProcessed"
      using that(2) same [OF that(1)] by (simp_all add: successful_reversal_def same_identity_def)
    then have "wg_status h = WagerStatusProcessed" using open' [OF that(1)] by fastforce
    then show ?thesis using k(1) fin [OF that(1)] by (simp add: successful_reversal_def)
  qed
  have u: "reversals_unique (db_wagers d)" using c by (simp add: consistent_def)
  show "reversals_unique (db_wagers d')"
    unfolding reversals_unique_def g
  proof (intro ballI allI impI)
    fix a b x
    assume ab: "a \<in> set (map f (db_wagers d))" "b \<in> set (map f (db_wagers d))"
      and r: "successful_reversal a \<and> successful_reversal b \<and>
        wg_reference_transaction_id a = Some x \<and> wg_reference_transaction_id b = Some x"
    obtain a0 b0 where ab0: "a0 \<in> set (db_wagers d)" "b0 \<in> set (db_wagers d)" "a = f a0" "b = f b0"
      using ab by auto
    then have "wg_id a0 = wg_id b0"
      using r was [OF ab0(1)] was [OF ab0(2)] u unfolding reversals_unique_def same_outcome_def by metis
    then show "wg_id a = wg_id b"
      using same [OF ab0(1)] same [OF ab0(2)] ab0 by (simp add: same_identity_def)
  qed
qed

text \<open>A new operation that is not processed yet.\<close>

lemma operation_kind_append:
  assumes "db_wagers d' = db_wagers d @ [g]" and "i \<in> wg_id ` set (db_wagers d)"
  shows "operation_kind d' i = operation_kind d i"
proof (cases "find (\<lambda>g. wg_id g = i) (db_wagers d)")
  case None
  then show ?thesis using assms(2) by (auto simp: find_None_iff)
next
  case (Some h)
  then show ?thesis by (simp add: operation_kind_def assms(1) find_append)
qed

lemma ledger_operation_known:
  "consistent d \<Longrightarrow> e \<in> set (db_ledger d) \<Longrightarrow> lr_transaction_id e \<in> wg_id ` set (db_wagers d)"
  unfolding consistent_def records_def by (metis image_eqI)

lemma movements_append:
  assumes c: "consistent d" and g: "db_wagers d' = db_wagers d @ [g]" and l: "db_ledger d' = db_ledger d"
  shows "movements d' i = movements d i"
proof -
  have "operation_kind d' (lr_transaction_id e) = operation_kind d (lr_transaction_id e)"
    if "e \<in> set (wallet_ledger d i)" for e
    using that ledger_operation_known [OF c] by (intro operation_kind_append [OF g]) (simp add: wallet_ledger_def)
  moreover have "wallet_ledger d' i = wallet_ledger d i" by (simp add: wallet_ledger_def l)
  ultimately show ?thesis unfolding movements_def by (simp cong: filter_cong)
qed

lemma wager_row_ok_mono:
  assumes "wager_row_ok d g" and "set (db_wallets d) \<subseteq> set (db_wallets d')"
    and "set (db_ledger d) \<subseteq> set (db_ledger d')"
  shows "wager_row_ok d' g"
  using assms unfolding wager_row_ok_def by blast

lemma consistent_add_wager:
  assumes c: "consistent d" and new: "\<not> list_ex (wager_conflict g) (db_wagers d)"
    and p: "wg_status g \<noteq> WagerStatusProcessed"
    and wr: "r \<in> set (db_wallets d)" "wr_id r = wg_wallet_id g" "wr_player_id r = wg_player_id g"
      "wr_currency r = wg_currency g"
    and w: "db_wallets d' = db_wallets d" and g: "db_wagers d' = db_wagers d @ [g]"
    and l: "db_ledger d' = db_ledger d"
  shows "consistent d'"
  unfolding consistent_def
proof (intro conjI ballI)
  show "sorted_wrt (\<lambda>a b. \<not> wallet_conflict a b) (db_wallets d')"
    using c by (simp add: consistent_def w)
  show "sorted_wrt (\<lambda>a b. \<not> wager_conflict a b) (db_wagers d')"
    using c new wager_conflict_sym by (auto simp: consistent_def g sorted_wrt_append list_ex_iff)
  show "distinct (map lr_transaction_id (db_ledger d'))"
    using c by (simp add: consistent_def l)
  show "reversals_unique (db_wagers d')"
    using c p by (auto simp: consistent_def g reversals_unique_def successful_reversal_def)
next
  fix r
  assume "r \<in> set (db_wallets d')"
  then have "wallet_state_ok d r" using c by (simp add: w consistent_def)
  then show "wallet_state_ok d' r"
    by (simp add: wallet_state_ok_def movements_append [OF c g l] wallet_ledger_def l)
next
  fix e
  assume "e \<in> set (db_ledger d')"
  then show "\<exists>g \<in> set (db_wagers d'). records e g"
    using c unfolding consistent_def l g by auto
next
  fix h
  assume "h \<in> set (db_wagers d')"
  then consider "h \<in> set (db_wagers d)" | "h = g" by (auto simp: g)
  then show "wager_row_ok d' h"
  proof cases
    case 1
    then have "wager_row_ok d h" using c by (simp add: consistent_def)
    then show ?thesis by (rule wager_row_ok_mono) (simp_all add: w l)
  next
    case 2
    then show ?thesis using p wr by (auto simp: wager_row_ok_def w)
  qed
qed

text \<open>A movement: the wallet, the operation and the line of the ledger change together.\<close>

lemma sorted_wallets_map:
  assumes "sorted_wrt (\<lambda>a b. \<not> wallet_conflict a b) ws"
    and "\<And>w. w \<in> set ws \<Longrightarrow> wr_id (f w) = wr_id w \<and> wr_player_id (f w) = wr_player_id w \<and>
           wr_currency (f w) = wr_currency w"
  shows "sorted_wrt (\<lambda>a b. \<not> wallet_conflict a b) (map f ws)"
  unfolding sorted_wrt_map
  using assms by (intro sorted_wrt_mono_rel [OF _ assms(1)]) (auto simp: wallet_conflict_def)

lemma movements_movement:
  assumes "\<And>i. operation_kind d' i = operation_kind d i" and l: "db_ledger d' = db_ledger d @ [e]"
    and k: "operation_kind d (lr_transaction_id e) = Some k"
  shows "movements d' i = movements d i @ (if lr_wallet_id e = i \<and> k \<noteq> WagerKindOpening then [e] else [])"
    and "wallet_ledger d' i = wallet_ledger d i @ (if lr_wallet_id e = i then [e] else [])"
  using assms by (simp_all add: movements_def wallet_ledger_def)

lemma consistent_movement:
  assumes c: "consistent d"
    and g0: "g0 \<in> set (db_wagers d)" "wg_status g0 \<noteq> WagerStatusProcessed"
    and w0: "w0 \<in> set (db_wallets d)" "wr_id w0 = wg_wallet_id g0"
    and f: "\<And>g. g \<in> set (db_wagers d) \<Longrightarrow> g \<noteq> g0 \<Longrightarrow> f g = g" "same_identity g0 (f g0)"
    and h: "\<And>w. w \<in> set (db_wallets d) \<Longrightarrow> w \<noteq> w0 \<Longrightarrow> h w = w"
      "wr_id (h w0) = wr_id w0" "wr_player_id (h w0) = wr_player_id w0"
      "wr_currency (h w0) = wr_currency w0" "wr_balance_cents (h w0) = lr_balance_after_cents e"
      "sint (wr_version (h w0)) = sint (wr_version w0) + (if wg_kind g0 = WagerKindOpening then 0 else 1)"
    and e: "records e (f g0)" "lr_balance_before_cents e = wr_balance_cents w0"
      "sint (lr_balance_after_cents e) = sint (lr_balance_before_cents e) + signed_cents e"
      "0 \<le> sint (lr_balance_after_cents e)"
    and rev: "\<And>g x. successful_reversal (f g0) \<Longrightarrow> wg_reference_transaction_id (f g0) = Some x \<Longrightarrow>
        g \<in> set (db_wagers d) \<Longrightarrow> successful_reversal g \<Longrightarrow> wg_reference_transaction_id g \<noteq> Some x"
    and w: "db_wallets d' = map h (db_wallets d)" and g: "db_wagers d' = map f (db_wagers d)"
    and l: "db_ledger d' = db_ledger d @ [e]"
  shows "consistent d'"
proof -
  have same: "same_identity x (f x)" if "x \<in> set (db_wagers d)" for x
    using f that by (cases "x = g0") (simp_all add: same_identity_def)
  have hw: "wr_id (h x) = wr_id x \<and> wr_player_id (h x) = wr_player_id x \<and> wr_currency (h x) = wr_currency x"
    if "x \<in> set (db_wallets d)" for x
    using h that by (cases "x = w0") simp_all
  have kind: "operation_kind d' i = operation_kind d i" for i
    using same g by (rule operation_kind_map)
  have tx: "lr_transaction_id e = wg_id g0" and wal: "lr_wallet_id e = wr_id w0"
    using e(1) f(2) w0(2) by (simp_all add: records_def same_identity_def)
  have "operation_kind d (lr_transaction_id e) = Some (wg_kind g0)"
    using operation_kind_row [OF c g0(1)] by (simp add: tx)
  note mv = movements_movement [OF kind l this]
  have old: "\<exists>x \<in> set (db_wagers d). x \<noteq> g0 \<and> records e1 x" if "e1 \<in> set (db_ledger d)" for e1
    using that c g0(2) unfolding consistent_def records_def by metis
  show ?thesis
    unfolding consistent_def
  proof (intro conjI ballI)
    show "sorted_wrt (\<lambda>a b. \<not> wallet_conflict a b) (db_wallets d')"
      using c hw unfolding w consistent_def by (intro sorted_wallets_map) blast+
    show "sorted_wrt (\<lambda>a b. \<not> wager_conflict a b) (db_wagers d')"
      using c same unfolding g consistent_def by (intro sorted_no_conflict_map) blast+
    have "lr_transaction_id e \<notin> lr_transaction_id ` set (db_ledger d)"
    proof
      assume "lr_transaction_id e \<in> lr_transaction_id ` set (db_ledger d)"
      then obtain e1 where e1: "e1 \<in> set (db_ledger d)" "lr_transaction_id e1 = wg_id g0" by (auto simp: tx)
      then obtain x where "x \<in> set (db_wagers d)" "x \<noteq> g0" "records e1 x" using old by blast
      then show False using wager_row_unique [OF c _ g0(1), of x] e1(2) by (simp add: records_def)
    qed
    then show "distinct (map lr_transaction_id (db_ledger d'))"
      using c by (simp add: consistent_def l)
  next
    fix r'
    assume "r' \<in> set (db_wallets d')"
    then obtain r where r: "r \<in> set (db_wallets d)" "r' = h r" by (auto simp: w)
    have ok: "wallet_state_ok d r" using c r(1) by (simp add: consistent_def)
    show "wallet_state_ok d' r'"
    proof (cases "r = w0")
      case True
      then show ?thesis
        using ok h e(2-4) wal by (simp add: r(2) wallet_state_ok_def mv ledger_chain_append)
    next
      case False
      then have "lr_wallet_id e \<noteq> wr_id r" using wallet_row_unique [OF c r(1) w0(1)] wal by auto
      then show ?thesis using ok h(1) [OF r(1) False] by (simp add: r(2) wallet_state_ok_def mv)
    qed
  next
    fix e1
    assume "e1 \<in> set (db_ledger d')"
    then consider "e1 \<in> set (db_ledger d)" | "e1 = e" by (auto simp: l)
    then show "\<exists>x \<in> set (db_wagers d'). records e1 x"
    proof cases
      case 1
      then obtain x where "x \<in> set (db_wagers d)" "x \<noteq> g0" "records e1 x" using old by blast
      then show ?thesis using f(1) [of x] by (auto simp: g intro: bexI [of _ x])
    next
      case 2
      then show ?thesis using e(1) g0(1) by (auto simp: g)
    qed
  next
    fix x'
    assume "x' \<in> set (db_wagers d')"
    then obtain x where x: "x \<in> set (db_wagers d)" "x' = f x" by (auto simp: g)
    have ok: "wager_row_ok d x" using c x(1) by (simp add: consistent_def)
    then have wl: "\<exists>w \<in> set (db_wallets d'). wr_id w = wg_wallet_id x' \<and> wr_player_id w = wg_player_id x' \<and>
        wr_currency w = wg_currency x'"
      using hw same [OF x(1)] by (fastforce simp: wager_row_ok_def w x(2) same_identity_def)
    show "wager_row_ok d' x'"
    proof (cases "x = g0")
      case True
      then show ?thesis using wl e(1) by (auto simp: wager_row_ok_def x(2) l)
    next
      case False
      then show ?thesis using wl ok f(1) [OF x(1)] by (auto simp: wager_row_ok_def x(2) l)
    qed
  next
    have u: "reversals_unique (db_wagers d)" using c by (simp add: consistent_def)
    show "reversals_unique (db_wagers d')"
      unfolding reversals_unique_def g
    proof (intro ballI allI impI)
      fix a b x
      assume ab: "a \<in> set (map f (db_wagers d))" "b \<in> set (map f (db_wagers d))"
        and r: "successful_reversal a \<and> successful_reversal b \<and>
          wg_reference_transaction_id a = Some x \<and> wg_reference_transaction_id b = Some x"
      obtain a0 b0 where i: "a0 \<in> set (db_wagers d)" "a = f a0" "b0 \<in> set (db_wagers d)" "b = f b0"
        using ab by auto
      have clash: "False" if "successful_reversal (f g0)" "wg_reference_transaction_id (f g0) = Some x"
          "c0 \<in> set (db_wagers d)" "c0 \<noteq> g0" "successful_reversal (f c0)"
          "wg_reference_transaction_id (f c0) = Some x" for c0
        using rev [OF that(1,2,3)] that(5,6) f(1) [OF that(3,4)] by simp
      consider "a0 = g0" "b0 = g0" | "a0 = g0" "b0 \<noteq> g0" | "a0 \<noteq> g0" "b0 = g0" | "a0 \<noteq> g0" "b0 \<noteq> g0"
        by blast
      then show "wg_id a = wg_id b"
      proof cases
        case 1
        then show ?thesis using i by simp
      next
        case 2
        then show ?thesis using clash [of b0] r i by simp
      next
        case 3
        then show ?thesis using clash [of a0] r i by simp
      next
        case 4
        then show ?thesis using r i f(1) u unfolding reversals_unique_def by metis
      qed
    qed
  qed
qed

text \<open>A new wallet, with its opening when the balance is positive.\<close>

lemma consistent_add_wallet:
  assumes c: "consistent d" and new: "\<not> list_ex (wallet_conflict r) (db_wallets d)"
    and r: "wr_balance_cents r = 0" "wr_version r = 1"
    and w: "db_wallets d' = db_wallets d @ [r]" and g: "db_wagers d' = db_wagers d"
    and l: "db_ledger d' = db_ledger d"
  shows "consistent d'"
proof -
  have none: "wallet_ledger d (wr_id r) = []"
  proof -
    have "lr_wallet_id e \<noteq> wr_id r" if "e \<in> set (db_ledger d)" for e
      using that c new unfolding consistent_def wager_row_ok_def records_def list_ex_iff wallet_conflict_def
      by metis
    then show ?thesis by (auto simp: wallet_ledger_def filter_empty_conv)
  qed
  have kind: "operation_kind d' i = operation_kind d i" for i by (simp add: operation_kind_def g)
  show ?thesis
    unfolding consistent_def
  proof (intro conjI ballI)
    show "sorted_wrt (\<lambda>a b. \<not> wallet_conflict a b) (db_wallets d')"
      using c new wallet_conflict_sym by (auto simp: consistent_def w sorted_wrt_append list_ex_iff)
    show "sorted_wrt (\<lambda>a b. \<not> wager_conflict a b) (db_wagers d')" using c by (simp add: consistent_def g)
    show "distinct (map lr_transaction_id (db_ledger d'))" using c by (simp add: consistent_def l)
    show "reversals_unique (db_wagers d')" using c by (simp add: consistent_def g)
  next
    fix s
    assume "s \<in> set (db_wallets d')"
    then consider "s \<in> set (db_wallets d)" | "s = r" by (auto simp: w)
    then show "wallet_state_ok d' s"
    proof cases
      case 1
      then have "wallet_state_ok d s" using c by (simp add: consistent_def)
      then show ?thesis by (simp add: wallet_state_ok_def movements_def wallet_ledger_def l kind)
    next
      case 2
      then show ?thesis using none r by (simp add: wallet_state_ok_def movements_def wallet_ledger_def l)
    qed
  next
    fix e
    assume "e \<in> set (db_ledger d')"
    then show "\<exists>x \<in> set (db_wagers d'). records e x" using c by (simp add: consistent_def l g)
  next
    fix x
    assume "x \<in> set (db_wagers d')"
    then have "wager_row_ok d x" using c by (simp add: consistent_def g)
    then show "wager_row_ok d' x" by (rule wager_row_ok_mono) (auto simp: w l)
  qed
qed

lemma consistent_open_wallet:
  assumes c: "consistent d" and new: "\<not> list_ex (wallet_conflict r) (db_wallets d)"
      "\<not> list_ex (wager_conflict g) (db_wagers d)"
    and v: "wr_version r = 1"
    and k: "wg_kind g = WagerKindOpening" "wg_wallet_id g = wr_id r" "wg_player_id g = wr_player_id r"
      "wg_currency g = wr_currency r"
    and e: "records e g" "lr_balance_before_cents e = 0" "lr_balance_after_cents e = wr_balance_cents r"
      "sint (lr_balance_after_cents e) = signed_cents e" "0 \<le> sint (lr_balance_after_cents e)"
    and w: "db_wallets d' = db_wallets d @ [r]" and g: "db_wagers d' = db_wagers d @ [g]"
    and l: "db_ledger d' = db_ledger d @ [e]"
  shows "consistent d'"
proof -
  let ?r = "r\<lparr>wr_balance_cents := 0\<rparr>" and ?g = "g\<lparr>wg_status := WagerStatusPending\<rparr>"
  let ?d1 = "d\<lparr>db_wallets := db_wallets d @ [?r]\<rparr>"
  let ?d2 = "?d1\<lparr>db_wagers := db_wagers d @ [?g]\<rparr>"
  have "\<not> list_ex (wallet_conflict ?r) (db_wallets d)" "\<not> list_ex (wager_conflict ?g) (db_wagers d)"
    using new by (simp_all add: list_ex_iff wallet_conflict_def wager_conflict_def)
  note new' = this
  have c1: "consistent ?d1" by (rule consistent_add_wallet [OF c new'(1)]) (simp_all add: v)
  have c2: "consistent ?d2"
    by (rule consistent_add_wager [OF c1, of ?g ?r]) (use new'(2) k in simp_all)
  have wid: "x \<noteq> ?r" if "x \<in> set (db_wallets d)" for x
    using that new'(1) by (auto simp: list_ex_iff wallet_conflict_def)
  have gid: "x \<noteq> ?g" if "x \<in> set (db_wagers d)" for x
    using that new'(2) by (auto simp: list_ex_iff wager_conflict_def)
  show ?thesis
  proof (rule consistent_movement [OF c2, where ?g0.0 = ?g and ?w0.0 = ?r and e = e
        and f = "\<lambda>x. if x = ?g then g else x" and h = "\<lambda>x. if x = ?r then r else x"])
    show "db_wallets d' = map (\<lambda>x. if x = ?r then r else x) (db_wallets ?d2)"
      using wid by (auto simp: w intro!: nth_equalityI map_idI [symmetric])
    show "db_wagers d' = map (\<lambda>x. if x = ?g then g else x) (db_wagers ?d2)"
      using gid by (auto simp: g intro!: map_idI [symmetric])
  qed (use k e l in \<open>auto simp: same_identity_def successful_reversal_def\<close>)
qed

end
