(* ===== verification/Settlement.thy ===== *)
theory Settlement
  imports ProcessWager FinancialState
begin

text \<open>
  What \<open>processWager\<close> does to the tables: the step relation of its outcomes, the proof that the code
  takes no other step, and the consistency of the tables after each of them.
\<close>

section \<open>The repositories on the tables\<close>

lemma pg_select [simp]:
  "wallets_Create (pg_repositories pg) = WalletRepository_Create"
  "wallets_FindByIDForUpdate (pg_repositories pg) = WalletRepository_FindByIDForUpdate True"
  "wallets_Update (pg_repositories pg) = WalletRepository_Update"
  "wagers_Create (pg_repositories pg) = WagerRepository_Create"
  "wagers_FindByExternalID (pg_repositories pg) = WagerRepository_FindByExternalID"
  "wagers_FindByIdempotencyKey (pg_repositories pg) = WagerRepository_FindByIdempotencyKey"
  "wagers_HasSuccessfulReversal (pg_repositories pg) = WagerRepository_HasSuccessfulReversal"
  "wagers_Update (pg_repositories pg) = WagerRepository_Update"
  "wagers_ClaimPendingReference (pg_repositories pg) = ClaimPendingReference pg"
  "wagers_ScheduleReferenceRetry (pg_repositories pg) = ScheduleReferenceRetry"
  "ledger_Create (pg_repositories pg) = LedgerRepository_Create"
  "inbox_Register (pg_repositories pg) = InboxRepository_Register"
  "inbox_Complete (pg_repositories pg) = InboxRepository_Complete"
  "outbox_Create (pg_repositories pg) = OutboxRepository_Create pg"
  by (simp_all add: pg_repositories_def)

text \<open>Reads leave the tables alone.\<close>

lemma read_state [simp]:
  "snd (query_wager p d) = d"
  "snd (WagerRepository_FindByExternalID a b d) = d"
  "snd (WagerRepository_FindByIdempotencyKey a b d) = d"
  "snd (WagerRepository_HasSuccessfulReversal i d) = d"
  "snd (WalletRepository_FindByID i d) = d"
  "snd (WalletRepository_FindByIDForUpdate tx i d) = d"
  "snd (ClaimPendingReference pg d) = d"
  by (simp_all add: query_wager_def WagerRepository_FindByExternalID_def
      WagerRepository_FindByIdempotencyKey_def WagerRepository_HasSuccessfulReversal_def
      WalletRepository_FindByID_def WalletRepository_FindByIDForUpdate_def ClaimPendingReference_def Let_def
      split: option.split sum.split)

text \<open>Writes that succeed.\<close>

definition set_wager :: "wager_transaction \<Rightarrow> db \<Rightarrow> db" where
  "set_wager t d =
     d\<lparr>db_wagers := update_rows (\<lambda>r. wg_id r = t_id t \<and> wager_open r) (write_wager t) (db_wagers d)\<rparr>"

definition set_wallet :: "wallet \<Rightarrow> db \<Rightarrow> db" where
  "set_wallet w d =
     d\<lparr>db_wallets := update_rows (\<lambda>r. wr_id r = w_id w \<and> wr_version r = w_version w - 1)
        (\<lambda>r. r\<lparr>wr_balance_cents := amount (w_balance w), wr_version := w_version w,
              wr_updated_at := pg_time (w_updatedAt w)\<rparr>) (db_wallets d)\<rparr>"

definition add_ledger :: "ledger_entry \<Rightarrow> db \<Rightarrow> db" where
  "add_ledger e d = d\<lparr>db_ledger := db_ledger d @ [ledger_row_of e]\<rparr>"

lemma WagerRepository_Update_ok_iff:
  "WagerRepository_Update t d = (Inr u, d') \<longleftrightarrow>
     rows_affected (\<lambda>r. wg_id r = t_id t \<and> wager_open r) (db_wagers d) = 1 \<and> d' = set_wager t d"
  by (auto simp: WagerRepository_Update_def set_wager_def Let_def)

lemma WalletRepository_Update_ok_iff:
  "WalletRepository_Update w d = (Inr u, d') \<longleftrightarrow>
     rows_affected (\<lambda>r. wr_id r = w_id w \<and> wr_version r = w_version w - 1) (db_wallets d) \<noteq> 0 \<and>
     d' = set_wallet w d"
  by (auto simp: WalletRepository_Update_def set_wallet_def Let_def)

lemma LedgerRepository_Create_ok_iff [simp]:
  "LedgerRepository_Create e d = (Inr u, d') \<longleftrightarrow> d' = add_ledger e d"
  by (auto simp: LedgerRepository_Create_def add_ledger_def)

definition emits :: "pg_env \<Rightarrow> event \<Rightarrow> db \<Rightarrow> db \<Rightarrow> bool" where
  "emits pg ev d d' \<longleftrightarrow> OutboxRepository_Create pg ev d = (Inr (), d')"

text \<open>An emitted event is in the outbox, and nothing else changes.\<close>

lemma emits_frame:
  assumes "emits pg ev d d'"
  shows "db_wallets d' = db_wallets d" "db_wagers d' = db_wagers d" "db_ledger d' = db_ledger d"
    "db_inbox d' = db_inbox d" "db_clock d' = db_clock d"
    and "\<exists>new. db_outbox d' = db_outbox d @ new \<and> (\<forall>ob \<in> set new. ob_payload ob = event_document ev)"
    and "\<exists>ob \<in> set (db_outbox d'). ob_payload ob = event_document ev"
  using assms
  by (auto simp: emits_def OutboxRepository_Create_def Event_MarshalJSON_def outbox_row_of_def Let_def
      split: sum.splits option.splits if_splits dest: find_SomeD)

section \<open>The steps\<close>

definition find_reference :: "db \<Rightarrow> wager_transaction \<Rightarrow> error + wager_transaction" where
  "find_reference d t =
     fst (WagerRepository_FindByExternalID (t_providerID t) (the (t_referenceExternalTransactionID t)) d)"

definition reversed_in :: "db \<Rightarrow> uuid \<Rightarrow> bool" where
  "reversed_in d i \<longleftrightarrow>
     list_ex (\<lambda>r. wg_reference_transaction_id r = Some i \<and> successful_reversal r) (db_wagers d)"

definition reference_awaited :: "db \<Rightarrow> wager_transaction \<Rightarrow> bool" where
  "reference_awaited d t \<longleftrightarrow>
     needsReference t \<and>
     (find_reference d t = Inl ErrWagerNotFound \<or>
      (\<exists>ref. find_reference d t = Inr ref \<and> validateReference t (Some ref) = Some ErrReferenceNotProcessed \<and>
             \<not> IsTerminal ref))"

text \<open>The operation goes on to its movement, as \<open>t'\<close>, with the reference it resolved.\<close>

definition resolves ::
  "env \<Rightarrow> db \<Rightarrow> wager_transaction \<Rightarrow> wager_transaction \<Rightarrow> wager_transaction option \<Rightarrow> bool" where
  "resolves env d t t' reference \<longleftrightarrow>
     (if needsReference t then
        \<exists>ref. find_reference d t = Inr ref \<and> reference = Some ref \<and>
          ResolveReference (env_now env at_ResolveReference) t (Some ref) = Inr t' \<and>
          (t_kind t = WagerKindRefund \<or> t_kind t = WagerKindRollback \<longrightarrow> \<not> reversed_in d (t_id ref))
      else t' = t \<and> reference = None)"

definition movement ::
  "env \<Rightarrow> LedgerDirection \<Rightarrow> wallet \<Rightarrow> money \<Rightarrow> error + wallet" where
  "movement env direction w m =
     (if direction = LedgerDirectionDebit then Wallet_Debit (env_now env at_wallet_movement) w m
      else Wallet_Credit (env_now env at_wallet_movement) w m)"

definition rejected ::
  "pg_env \<Rightarrow> env \<Rightarrow> ProcessWagerInput \<Rightarrow> string \<Rightarrow> wager_transaction \<Rightarrow> db \<Rightarrow> wager_transaction \<Rightarrow> db \<Rightarrow> bool" where
  "rejected pg env input code t d t' d' \<longleftrightarrow>
     Wager_Reject (env_now env at_Reject) t code = Inr t' \<and>
     rows_affected (\<lambda>r. wg_id r = t_id t' \<and> wager_open r) (db_wagers d) = 1 \<and>
     (\<exists>ev. NewWagerTransactionRejected (env_id env id_rejected) t' (in_CorrelationID input)
             (in_CausationID input) = Inr ev \<and> emits pg ev (set_wager t' d) d')"

inductive outcome ::
  "pg_env \<Rightarrow> env \<Rightarrow> ProcessWagerInput \<Rightarrow> wallet \<Rightarrow> wager_transaction \<Rightarrow> db \<Rightarrow> wager_transaction \<Rightarrow> db \<Rightarrow> bool"
  for pg env input w where
  still_waiting:
    "reference_awaited d t \<Longrightarrow> t_status t = WagerStatusPendingReference \<Longrightarrow> outcome pg env input w t d t d"
| waits:
    "reference_awaited d t \<Longrightarrow> t_status t \<noteq> WagerStatusPendingReference \<Longrightarrow>
     MarkPendingReference (env_now env at_MarkPendingReference) t = Inr t' \<Longrightarrow>
     rows_affected (\<lambda>r. wg_id r = t_id t' \<and> wager_open r) (db_wagers d) = 1 \<Longrightarrow>
     NewWagerTransactionPendingReference (env_id env id_waiting) t' (in_CorrelationID input)
       (in_CausationID input) = Inr ev \<Longrightarrow>
     emits pg ev (set_wager t' d) d' \<Longrightarrow> outcome pg env input w t d t' d'"
| unsuccessful_reference:
    "needsReference t \<Longrightarrow> find_reference d t = Inr ref \<Longrightarrow>
     validateReference t (Some ref) = Some ErrReferenceNotProcessed \<Longrightarrow> IsTerminal ref \<Longrightarrow>
     rejected pg env input FailureReferenceUnsuccessful t d t' d' \<Longrightarrow> outcome pg env input w t d t' d'"
| invalid_reference:
    "needsReference t \<Longrightarrow> find_reference d t = Inr ref \<Longrightarrow>
     validateReference t (Some ref) = Some ErrInvalidWagerReference \<Longrightarrow>
     rejected pg env input FailureInvalidReference t d t' d' \<Longrightarrow> outcome pg env input w t d t' d'"
| already_reversed:
    "needsReference t \<Longrightarrow> find_reference d t = Inr ref \<Longrightarrow>
     ResolveReference (env_now env at_ResolveReference) t (Some ref) = Inr t1 \<Longrightarrow>
     t_kind t = WagerKindRefund \<or> t_kind t = WagerKindRollback \<Longrightarrow> reversed_in d (t_id ref) \<Longrightarrow>
     rejected pg env input FailureAlreadyReversed t1 d t' d' \<Longrightarrow> outcome pg env input w t d t' d'"
| insufficient:
    "resolves env d t t1 reference \<Longrightarrow> t_kind t \<noteq> WagerKindLoss \<Longrightarrow>
     movement env (movement_direction t1 reference) w (t_money t1) = Inl ErrInsufficientBalance \<Longrightarrow>
     rejected pg env input (if t_kind t = WagerKindRollback then FailureReversalInsufficientBalance
                            else FailureInsufficientBalance) t1 d t' d' \<Longrightarrow>
     outcome pg env input w t d t' d'"
| overflow:
    "resolves env d t t1 reference \<Longrightarrow> t_kind t \<noteq> WagerKindLoss \<Longrightarrow>
     movement env (movement_direction t1 reference) w (t_money t1) = Inl ErrMoneyOverflow \<Longrightarrow>
     rejected pg env input FailureMoneyOverflow t1 d t' d' \<Longrightarrow> outcome pg env input w t d t' d'"
| loses:
    "resolves env d t t1 reference \<Longrightarrow> t_kind t = WagerKindLoss \<Longrightarrow>
     MarkProcessed (env_now env at_MarkProcessed) t1 (w_balance w) = Inr t' \<Longrightarrow>
     rows_affected (\<lambda>r. wg_id r = t_id t' \<and> wager_open r) (db_wagers d) = 1 \<Longrightarrow>
     NewWagerTransactionProcessed (env_id env id_processed) t' (in_CorrelationID input)
       (in_CausationID input) = Inr ev \<Longrightarrow>
     emits pg ev (set_wager t' d) d' \<Longrightarrow> outcome pg env input w t d t' d'"
| moves:
    "resolves env d t t1 reference \<Longrightarrow> t_kind t \<noteq> WagerKindLoss \<Longrightarrow>
     movement env (movement_direction t1 reference) w (t_money t1) = Inr w' \<Longrightarrow>
     rows_affected (\<lambda>r. wr_id r = w_id w' \<and> wr_version r = w_version w' - 1) (db_wallets d) \<noteq> 0 \<Longrightarrow>
     MarkProcessed (env_now env at_MarkProcessed) t1 (w_balance w') = Inr t' \<Longrightarrow>
     rows_affected (\<lambda>r. wg_id r = t_id t' \<and> wager_open r) (db_wagers d) = 1 \<Longrightarrow>
     NewWagerTransactionProcessed (env_id env id_processed) t' (in_CorrelationID input)
       (in_CausationID input) = Inr ev \<Longrightarrow>
     emits pg ev (set_wager t' (set_wallet w' d)) d1 \<Longrightarrow>
     NewWalletLedgerEntry (env_id env id_entry) (env_now env at_NewWalletLedgerEntry) (w_id w') (t_id t')
       (movement_direction t1 reference) (t_money t') (w_balance w) (w_balance w') = Inr entry \<Longrightarrow>
     NewWalletBalanceChanged (env_id env id_changed) t' (Some entry) (w_version w') (in_CorrelationID input)
       (in_CausationID input) = Inr ev' \<Longrightarrow>
     emits pg ev' (add_ledger entry d1) d' \<Longrightarrow> outcome pg env input w t d t' d'"

section \<open>The code takes one of the steps\<close>

lemma rejectWager_ok_iff:
  "rejectWager env (pg_repositories pg) t input code d = (Inr t', d') \<longleftrightarrow>
     rejected pg env input code t d t' d'"
  by (auto simp: rejectWager_def rejected_def act_bind_ok_iff WagerRepository_Update_ok_iff emits_def)

lemma waitForReference_ok_iff:
  "waitForReference env (pg_repositories pg) t input d = (Inr t', d') \<longleftrightarrow>
     (if t_status t = WagerStatusPendingReference then t' = t \<and> d' = d
      else MarkPendingReference (env_now env at_MarkPendingReference) t = Inr t' \<and>
           rows_affected (\<lambda>r. wg_id r = t_id t' \<and> wager_open r) (db_wagers d) = 1 \<and>
           (\<exists>ev. NewWagerTransactionPendingReference (env_id env id_waiting) t' (in_CorrelationID input)
                   (in_CausationID input) = Inr ev \<and> emits pg ev (set_wager t' d) d'))"
  by (auto simp: waitForReference_def act_bind_ok_iff WagerRepository_Update_ok_iff emits_def)

lemma try_find_reference:
  "act_bind (act_try (WagerRepository_FindByExternalID (t_providerID t)
      (the (t_referenceExternalTransactionID t)))) f d = f (find_reference d t) d"
  by (simp add: act_bind_def act_try_apply find_reference_def)

lemma HasSuccessfulReversal_bind:
  "act_bind (WagerRepository_HasSuccessfulReversal i) f d = f (reversed_in d i) d"
  by (simp add: act_bind_def WagerRepository_HasSuccessfulReversal_def reversed_in_def)

text \<open>Only a missing row reports \<open>ErrWagerNotFound\<close>.\<close>

lemma first_error_Some: "first_error es = Some e \<Longrightarrow> Some e \<in> set es"
  by (auto simp: first_error_def split: list.splits dest!: arg_cong [where f = set])

lemma validation_errors:
  "validate_identity w = Some e \<Longrightarrow> e = ErrInvalidWagerTransaction"
  "validate_reference_id w = Some e \<Longrightarrow> e = ErrInvalidWagerReference"
  "validate_result_balance w = Some e \<Longrightarrow> e = ErrInvalidWagerMoney \<or> e = ErrCurrencyMismatch"
  "validate_status w = Some e \<Longrightarrow> e \<in> {ErrInvalidWagerStatus, ErrReferenceRequired, ErrInvalidWagerMoney}"
  "validateWagerMoney k m r = Some e \<Longrightarrow>
     e \<in> {ErrInvalidWagerMoney, ErrReferenceRequired, ErrInvalidWagerKind}"
  by (auto simp: validate_identity_def validate_reference_id_def validate_result_balance_def
      validate_status_def validateWagerMoney_def
      split: if_splits option.splits WagerStatus.splits WagerKind.splits)

lemma Wager_validate_errors:
  assumes "Wager_validate (Some w) = Some e"
  shows "e \<in> {ErrInvalidWagerTransaction, ErrInvalidWagerKind, ErrInvalidWagerMoney, ErrReferenceRequired,
      ErrInvalidWagerReference, ErrCurrencyMismatch, ErrInvalidWagerStatus}"
  using first_error_Some [OF assms [unfolded Wager_validate_def option.case]]
  by (auto dest!: sym [of "Some e"] validation_errors split: if_splits)

lemma query_wager_not_found:
  "fst (query_wager p d) = Inl e \<Longrightarrow> errors_Is e ErrWagerNotFound \<Longrightarrow>
   e = ErrWagerNotFound \<and> find p (db_wagers d) = None"
  by (auto simp: query_wager_def scanWager_def RehydrateWagerTransaction_def MoneyFromMinorUnits_def
      Money_Validate_def split: option.splits sum.splits if_splits dest!: Wager_validate_errors)

lemma find_reference_not_found:
  "find_reference d t = Inl e \<Longrightarrow> errors_Is e ErrWagerNotFound \<Longrightarrow> e = ErrWagerNotFound"
  by (simp add: find_reference_def WagerRepository_FindByExternalID_def query_wager_not_found)

lemma ResolveReference_error_cases:
  assumes "ResolveReference now t (Some ref) = Inl e"
  shows "errors_Is e ErrReferenceNotProcessed \<longleftrightarrow> e = ErrReferenceNotProcessed"
    and "errors_Is e ErrInvalidWagerReference \<longleftrightarrow> e = ErrInvalidWagerReference"
    and "e = ErrReferenceNotProcessed \<Longrightarrow> validateReference t (Some ref) = Some ErrReferenceNotProcessed"
    and "canChange t = None \<Longrightarrow> validateReference t (Some ref) = Some e"
proof -
  have "canChange t = Some e \<or> validateReference t (Some ref) = Some e \<and> canChange t = None"
    using assms by (auto simp: ResolveReference_def split: option.splits)
  moreover have "canChange t = Some e \<Longrightarrow> e \<noteq> ErrReferenceNotProcessed \<and> (\<forall>a b. e \<noteq> Joined a b)"
    by (auto simp: canChange_def split: option.splits if_splits dest: Wager_validate_errors)
  moreover have "validateReference t (Some ref) = Some e \<Longrightarrow> \<forall>a b. e \<noteq> Joined a b"
    by (auto dest: validateReference_errors)
  ultimately have *: "\<forall>a b. e \<noteq> Joined a b" by blast
  then show "errors_Is e ErrReferenceNotProcessed \<longleftrightarrow> e = ErrReferenceNotProcessed"
    and "errors_Is e ErrInvalidWagerReference \<longleftrightarrow> e = ErrInvalidWagerReference"
    by (cases e; simp)+
  show "e = ErrReferenceNotProcessed \<Longrightarrow> validateReference t (Some ref) = Some ErrReferenceNotProcessed"
    using \<open>canChange t = Some e \<or> _\<close> \<open>canChange t = Some e \<Longrightarrow> _\<close> by blast
  show "canChange t = None \<Longrightarrow> validateReference t (Some ref) = Some e"
    using \<open>canChange t = Some e \<or> _\<close> by simp
qed

lemma rejected_changeable: "rejected pg env input code t d t' d' \<Longrightarrow> canChange t = None"
  by (auto simp: rejected_def Wager_Reject_def split: option.splits)

lemma rejectWager_then:
  "act_bind (rejectWager env (pg_repositories pg) t input code) (\<lambda>t'. act_return (Inl t')) d = (Inr q, d') \<longleftrightarrow>
     (\<exists>t'. q = Inl t' \<and> rejected pg env input code t d t' d')"
  by (auto simp: act_bind_ok_iff rejectWager_ok_iff)

lemma waitForReference_then:
  assumes "act_bind (waitForReference env (pg_repositories pg) t input) (\<lambda>t'. act_return (Inl t')) d = (Inr q, d')"
    and a: "reference_awaited d t"
  shows "\<exists>t'. q = Inl t' \<and> outcome pg env input w t d t' d'"
proof -
  obtain t' where q: "q = Inl t'" and "waitForReference env (pg_repositories pg) t input d = (Inr t', d')"
    using assms(1) by (auto simp: act_bind_ok_iff)
  note ok = this(2) [unfolded waitForReference_ok_iff]
  have "outcome pg env input w t d t' d'"
  proof (cases "t_status t = WagerStatusPendingReference")
    case True
    then show ?thesis using ok outcome.still_waiting [OF a] by simp
  next
    case False
    then show ?thesis using ok outcome.waits [OF a False] by auto
  qed
  then show ?thesis using q by blast
qed

lemma resolve_operation_ok:
  assumes "resolve_operation env (pg_repositories pg) t input d = (Inr q, d')"
  shows "(\<exists>t'. q = Inl t' \<and> outcome pg env input w t d t' d') \<or>
    (\<exists>t1 reference. q = Inr (t1, reference) \<and> d' = d \<and> resolves env d t t1 reference)"
proof (cases "needsReference t")
  case False
  then show ?thesis using assms by (auto simp: resolve_operation_def resolves_def)
next
  case True
  show ?thesis
  proof (cases "find_reference d t")
    case (Inl e)
    then have run: "act_bind (waitForReference env (pg_repositories pg) t input)
        (\<lambda>t'. act_return (Inl t')) d = (Inr q, d')" and "e = ErrWagerNotFound"
      using assms True find_reference_not_found [OF Inl]
      by (auto simp: resolve_operation_def try_find_reference split: if_splits)
    then have "reference_awaited d t" using Inl True by (simp add: reference_awaited_def)
    then show ?thesis using waitForReference_then [OF run] by blast
  next
    case (Inr ref)
    note run = assms [unfolded resolve_operation_def, simplified True if_True pg_select try_find_reference
        Inr sum.case judge_reference_def]
    show ?thesis
    proof (cases "ResolveReference (env_now env at_ResolveReference) t (Some ref)")
      case (Inl e)
      note cases = ResolveReference_error_cases [OF Inl]
      consider "e = ErrReferenceNotProcessed" "\<not> IsTerminal ref"
        | "e = ErrReferenceNotProcessed" "IsTerminal ref" | "e = ErrInvalidWagerReference"
        using run by (auto simp: Inl cases split: if_splits)
      then show ?thesis
      proof cases
        case 1
        then have "reference_awaited d t"
          using cases(3) True \<open>find_reference d t = Inr ref\<close> by (auto simp: reference_awaited_def)
        then show ?thesis using waitForReference_then run 1 by (fastforce simp: Inl)
      next
        case 2
        then obtain t' where "q = Inl t'" "rejected pg env input FailureReferenceUnsuccessful t d t' d'"
          using run by (auto simp: Inl rejectWager_then)
        then show ?thesis
          using outcome.unsuccessful_reference [OF True \<open>find_reference d t = Inr ref\<close> cases(3) [OF 2(1)] 2(2)]
          by blast
      next
        case 3
        then obtain t' where t': "q = Inl t'" "rejected pg env input FailureInvalidReference t d t' d'"
          using run by (auto simp: Inl rejectWager_then)
        then show ?thesis
          using outcome.invalid_reference [OF True \<open>find_reference d t = Inr ref\<close>]
            cases(4) [OF rejected_changeable [OF t'(2)]] 3 by blast
      qed
    next
      case (Inr t1)
      have k: "t_kind t1 = t_kind t" using Inr by (auto simp: ResolveReference_ok_iff)
      show ?thesis
      proof (cases "(t_kind t = WagerKindRefund \<or> t_kind t = WagerKindRollback) \<and> reversed_in d (t_id ref)")
        case rev: True
        then obtain t' where "q = Inl t'" "rejected pg env input FailureAlreadyReversed t1 d t' d'"
          using run by (auto simp: Inr k HasSuccessfulReversal_bind rejectWager_then)
        then show ?thesis
          using outcome.already_reversed [OF True \<open>find_reference d t = Inr ref\<close> Inr] rev by blast
      next
        case False
        then have "q = Inr (t1, Some ref)" "d' = d"
          using run by (auto simp: Inr k HasSuccessfulReversal_bind split: if_splits)
        moreover have "resolves env d t t1 (Some ref)"
          using False True Inr \<open>find_reference d t = Inr ref\<close> by (auto simp: resolves_def)
        ultimately show ?thesis by blast
      qed
    qed
  qed
qed

lemma movement_errors:
  "movement env dir w m = Inl e \<Longrightarrow>
   e \<in> {ErrInvalidWallet, ErrInvalidMoney, ErrWalletCurrency, ErrInsufficientBalance, ErrMoneyOverflow,
        ErrCurrencyMismatch}"
  by (auto simp: movement_def Wallet_Debit_def Wallet_Credit_def Money_LessThan_eq Money_Add_eq Money_Sub_eq
      on_operands_def split: if_splits option.splits sum.splits dest: validateMovement_errors)

lemma resolves_kind: "resolves env d t t1 reference \<Longrightarrow> t_kind t1 = t_kind t"
  by (auto simp: resolves_def ResolveReference_ok_iff split: if_splits)

lemma record_outcome_ok:
  assumes "record_outcome env (pg_repositories pg) dir b w t input d = (Inr t', d')"
  obtains ev d1 where "MarkProcessed (env_now env at_MarkProcessed) t (w_balance w) = Inr t'"
    and "rows_affected (\<lambda>r. wg_id r = t_id t' \<and> wager_open r) (db_wagers d) = 1"
    and "NewWagerTransactionProcessed (env_id env id_processed) t' (in_CorrelationID input)
           (in_CausationID input) = Inr ev"
    and "emits pg ev (set_wager t' d) d1"
    and "t_kind t' = WagerKindLoss \<Longrightarrow> d' = d1"
    and "t_kind t' \<noteq> WagerKindLoss \<Longrightarrow> \<exists>entry ev'.
        NewWalletLedgerEntry (env_id env id_entry) (env_now env at_NewWalletLedgerEntry) (w_id w) (t_id t')
          dir (t_money t') b (w_balance w) = Inr entry \<and>
        NewWalletBalanceChanged (env_id env id_changed) t' (Some entry) (w_version w)
          (in_CorrelationID input) (in_CausationID input) = Inr ev' \<and>
        emits pg ev' (add_ledger entry d1) d'"
  using assms
  by (auto simp: record_outcome_def act_bind_ok_iff WagerRepository_Update_ok_iff emits_def split: if_splits)

lemma settle_operation_ok:
  assumes run: "settle_operation env (pg_repositories pg) w input t1 reference d = (Inr t', d')"
    and res: "resolves env d t t1 reference"
  shows "outcome pg env input w t d t' d'"
proof (cases "t_kind t = WagerKindLoss")
  case True
  have "record_outcome env (pg_repositories pg) (movement_direction t1 reference) (w_balance w) w t1 input d = (Inr t', d')"
    using run True resolves_kind [OF res] by (simp add: settle_operation_def Let_def)
  then show ?thesis
  proof (rule record_outcome_ok)
    fix ev d1
    assume m: "MarkProcessed (env_now env at_MarkProcessed) t1 (w_balance w) = Inr t'"
      and r: "rows_affected (\<lambda>r. wg_id r = t_id t' \<and> wager_open r) (db_wagers d) = 1"
      and e: "NewWagerTransactionProcessed (env_id env id_processed) t' (in_CorrelationID input)
           (in_CausationID input) = Inr ev" "emits pg ev (set_wager t' d) d1"
      and l: "t_kind t' = WagerKindLoss \<Longrightarrow> d' = d1"
    have "t_kind t' = WagerKindLoss" using m True resolves_kind [OF res] by (auto simp: MarkProcessed_ok_iff)
    then show ?thesis using outcome.loses [OF res True m r e(1)] e(2) l by simp
  qed
next
  case False
  let ?dir = "movement_direction t1 reference"
  have k: "t_kind t1 \<noteq> WagerKindLoss" using False resolves_kind [OF res] by simp
  note run' = run [unfolded settle_operation_def Let_def movement_def [symmetric]]
  show ?thesis
  proof (cases "movement env ?dir w (t_money t1)")
    case (Inl e)
    then consider "e = ErrInsufficientBalance" | "e = ErrMoneyOverflow"
      using movement_errors [OF Inl] run' k by (auto split: if_splits)
    then show ?thesis
    proof cases
      case 1
      then show ?thesis
        using outcome.insufficient [OF res False] Inl run' k resolves_kind [OF res]
        by (simp add: rejectWager_ok_iff)
    next
      case 2
      then show ?thesis
        using outcome.overflow [OF res False] Inl run' k by (simp add: rejectWager_ok_iff)
    qed
  next
    case (Inr w')
    have u: "rows_affected (\<lambda>r. wr_id r = w_id w' \<and> wr_version r = w_version w' - 1) (db_wallets d) \<noteq> 0"
      and rec: "record_outcome env (pg_repositories pg) ?dir (w_balance w) w' t1 input (set_wallet w' d) = (Inr t', d')"
      using run' k Inr by (auto simp: act_bind_ok_iff WalletRepository_Update_ok_iff)
    from rec show ?thesis
    proof (rule record_outcome_ok)
      fix ev d1
      assume m: "MarkProcessed (env_now env at_MarkProcessed) t1 (w_balance w') = Inr t'"
        and r: "rows_affected (\<lambda>r. wg_id r = t_id t' \<and> wager_open r) (db_wagers (set_wallet w' d)) = 1"
        and e: "NewWagerTransactionProcessed (env_id env id_processed) t' (in_CorrelationID input)
             (in_CausationID input) = Inr ev" "emits pg ev (set_wager t' (set_wallet w' d)) d1"
        and l: "t_kind t' \<noteq> WagerKindLoss \<Longrightarrow> \<exists>entry ev'.
          NewWalletLedgerEntry (env_id env id_entry) (env_now env at_NewWalletLedgerEntry) (w_id w') (t_id t')
            ?dir (t_money t') (w_balance w) (w_balance w') = Inr entry \<and>
          NewWalletBalanceChanged (env_id env id_changed) t' (Some entry) (w_version w')
            (in_CorrelationID input) (in_CausationID input) = Inr ev' \<and>
          emits pg ev' (add_ledger entry d1) d'"
      have r': "rows_affected (\<lambda>r. wg_id r = t_id t' \<and> wager_open r) (db_wagers d) = 1"
        using r by (simp add: set_wallet_def)
      have "t_kind t' \<noteq> WagerKindLoss" using m k by (auto simp: MarkProcessed_ok_iff)
      then show ?thesis using outcome.moves [OF res False Inr u m r' e] l by blast
    qed
  qed
qed

text \<open>The refinement: what \<open>processWager\<close> returns and leaves is one of the outcomes.\<close>

lemma processWager_refines_outcome:
  assumes "processWager env (pg_repositories pg) w t input d = (Inr t', d')"
  shows "outcome pg env input w t d t' d'"
proof -
  obtain q d1 where q: "resolve_operation env (pg_repositories pg) t input d = (Inr q, d1)"
    and k: "(case q of Inl t' \<Rightarrow> act_return t'
             | Inr p \<Rightarrow> settle_operation env (pg_repositories pg) w input (fst p) (snd p)) d1 = (Inr t', d')"
    using assms by (auto simp: processWager_def act_bind_ok_iff)
  show ?thesis
    using resolve_operation_ok [OF q, of w] k settle_operation_ok by (auto split: sum.splits)
qed

section \<open>Each step keeps the tables consistent\<close>

text \<open>The rows the computation works on are those of the transaction and of the wallet it holds.\<close>

definition stores_wager :: "wager_row \<Rightarrow> wager_transaction \<Rightarrow> bool" where
  "stores_wager g t \<longleftrightarrow>
     wg_id g = t_id t \<and> wg_wallet_id g = t_walletID t \<and> wg_player_id g = t_playerID t \<and>
     wg_kind g = t_kind t \<and> wg_amount_cents g = amount (t_money t) \<and>
     wg_currency g = currency (t_money t) \<and> wg_status g = t_status t"

definition stores_wallet :: "wallet_row \<Rightarrow> wallet \<Rightarrow> bool" where
  "stores_wallet r w \<longleftrightarrow>
     wr_id r = w_id w \<and> wr_player_id r = w_playerID w \<and> wr_balance_cents r = amount (w_balance w) \<and>
     wr_currency r = currency (w_balance w) \<and> wr_version r = w_version w"

definition working_on :: "db \<Rightarrow> wallet \<Rightarrow> wager_transaction \<Rightarrow> bool" where
  "working_on d w t \<longleftrightarrow>
     (\<exists>g \<in> set (db_wagers d). stores_wager g t) \<and> (\<exists>r \<in> set (db_wallets d). stores_wallet r w) \<and>
     w_id w = t_walletID t \<and> t_kind t \<noteq> WagerKindOpening"

lemma consistent_cong:
  "db_wallets d' = db_wallets d \<Longrightarrow> db_wagers d' = db_wagers d \<Longrightarrow> db_ledger d' = db_ledger d \<Longrightarrow>
   consistent d' = consistent d"
  by (simp add: consistent_def wallet_state_ok_def movements_def wallet_ledger_def operation_kind_def
      wager_row_ok_def)

lemma emits_consistent: "emits pg ev d d' \<Longrightarrow> consistent d' = consistent d"
  using emits_frame [of pg ev d d'] by (intro consistent_cong) simp_all

lemma write_wager_identity [simp]: "same_identity g (write_wager t g)"
  by (simp add: same_identity_def write_wager_def)

lemma same_identity_refl [simp]: "same_identity g g"
  by (simp add: same_identity_def)

lemma same_outcome_refl [simp]: "same_outcome g g"
  by (simp add: same_outcome_def)

lemma wager_open_not_processed: "wager_open g \<Longrightarrow> wg_status g \<noteq> WagerStatusProcessed"
  by (auto simp: wager_open_def)

lemma set_wager_consistent:
  assumes c: "consistent d"
    and l: "\<And>g. t_status t = WagerStatusProcessed \<Longrightarrow> g \<in> set (db_wagers d) \<Longrightarrow> wg_id g = t_id t \<Longrightarrow>
      wg_kind g = WagerKindLoss"
  shows "consistent (set_wager t d)"
proof (rule consistent_change_wagers [OF c,
      where f = "\<lambda>r. if wg_id r = t_id t \<and> wager_open r then write_wager t r else r"])
  fix g
  assume "g \<in> set (db_wagers d)"
    "wg_status (if wg_id g = t_id t \<and> wager_open g then write_wager t g else g) = WagerStatusProcessed"
    "wg_status g \<noteq> WagerStatusProcessed"
  then show "wg_kind g = WagerKindLoss" using l [of g] by (auto simp: write_wager_def split: if_splits)
qed (auto simp: set_wager_def update_rows_def dest: wager_open_not_processed)

lemma rejected_status: "rejected pg env input code t d t' d' \<Longrightarrow> t_status t' = WagerStatusRejected"
  by (auto simp: rejected_def Wager_Reject_ok_iff)

lemma rejected_consistent:
  assumes "consistent d" and "rejected pg env input code t d t' d'"
  shows "consistent d'"
proof -
  obtain ev where ev: "emits pg ev (set_wager t' d) d'" using assms(2) by (auto simp: rejected_def)
  have "consistent (set_wager t' d)"
    using rejected_status [OF assms(2)] by (intro set_wager_consistent assms(1)) simp
  then show ?thesis using emits_consistent [OF ev] by simp
qed

lemma movement_moved:
  assumes "movement env dir w m = Inr w'"
  shows "w_id w' = w_id w" "w_playerID w' = w_playerID w" "currency (w_balance w') = currency (w_balance w)"
    "w_version w' = w_version w + 1" "sint (w_version w') = sint (w_version w) + 1" "wallet_wf w" "wallet_wf w'"
    "w_createdAt w' = w_createdAt w" "w_updatedAt w' = env_now env at_wallet_movement"
proof -
  have m: "movable w m \<and> (\<exists>x. moved (env_now env at_wallet_movement) x w w')"
    using assms by (auto simp: movement_def Credit_ok_iff Debit_ok_iff split: if_splits)
  then show "w_id w' = w_id w" "w_playerID w' = w_playerID w"
    "currency (w_balance w') = currency (w_balance w)" "wallet_wf w"
    "w_createdAt w' = w_createdAt w" "w_updatedAt w' = env_now env at_wallet_movement"
    by (auto simp: moved_def movable_def)
  show v: "sint (w_version w') = sint (w_version w) + 1" using m by (auto simp: moved_def)
  have "sint (w_version w + 1) = sint (w_version w) + 1"
    using m by (intro version_succ) (simp add: movable_def)
  then show "w_version w' = w_version w + 1" using v by (metis signed_word_eqI)
  show "wallet_wf w'"
    using assms by (auto simp: movement_def split: if_splits dest: Credit_wf Debit_wf)
qed

lemma movement_direction_of_kind:
  "wager_valid t \<Longrightarrow> t_kind t \<noteq> WagerKindLoss \<Longrightarrow> direction_of_kind (t_kind t) (movement_direction t reference)"
  by (auto simp: direction_of_kind_def movement_direction_def LedgerDirection_IsValid_def wager_valid_iff
      WagerKind_IsValid_def split: WagerKind.splits)

lemma resolves_same:
  assumes "resolves env d t t1 reference"
  shows "same_operation t t1" "t_status t1 = t_status t"
  using assms by (auto simp: resolves_def same_operation_def ResolveReference_ok_iff split: if_splits)

lemma resolves_unreversed:
  assumes "resolves env d t t1 reference" and "t_kind t = WagerKindRefund \<or> t_kind t = WagerKindRollback"
    and "t_referenceTransactionID t1 = Some x" and "g \<in> set (db_wagers d)" and "successful_reversal g"
  shows "wg_reference_transaction_id g \<noteq> Some x"
proof -
  have "needsReference t" using assms(2) by (auto simp: needsReference_def)
  then obtain ref where r: "\<not> reversed_in d (t_id ref)"
      "ResolveReference (env_now env at_ResolveReference) t (Some ref) = Inr t1"
    using assms(1,2) by (auto simp: resolves_def)
  then have "t_referenceTransactionID t1 = Some (t_id ref)" by (auto simp: ResolveReference_ok_iff)
  note r = r(1) this
  then show ?thesis using r assms(3-5) by (auto simp: reversed_in_def list_ex_iff)
qed

lemma moves_consistent:
  assumes c: "consistent d" and on: "working_on d w t"
    and res: "resolves env d t t1 reference" and k: "t_kind t \<noteq> WagerKindLoss"
    and mv: "movement env (movement_direction t1 reference) w (t_money t1) = Inr w'"
    and mp: "MarkProcessed now t1 (w_balance w') = Inr t'"
    and em: "emits pg ev (set_wager t' (set_wallet w' d)) d1"
    and en: "NewWalletLedgerEntry i now' (w_id w') (t_id t') (movement_direction t1 reference) (t_money t')
       (w_balance w) (w_balance w') = Inr entry"
    and em': "emits pg ev' (add_ledger entry d1) d'"
  shows "consistent d'"
proof -
  obtain g0 where g0: "g0 \<in> set (db_wagers d)" "stores_wager g0 t" using on by (auto simp: working_on_def)
  obtain w0 where w0: "w0 \<in> set (db_wallets d)" "stores_wallet w0 w" using on by (auto simp: working_on_def)
  have id: "w_id w = t_walletID t" and ko: "t_kind t \<noteq> WagerKindOpening" using on by (simp_all add: working_on_def)
  note st = resolves_same [OF res]
  have t1: "wager_valid t1" "\<not> IsTerminal t1" "0 \<le> cents_of (w_balance w')"
    and t': "t' = t1\<lparr>t_status := WagerStatusProcessed, t_resultBalance := Some (w_balance w'), t_updatedAt := now\<rparr>"
    using mp unfolding MarkProcessed_ok_iff by blast+
  have open0: "wager_open g0"
    using not_terminal_valid [OF t1(1,2)] st(2) g0(2) by (auto simp: wager_open_def stores_wager_def)
  note moved = movement_moved [OF mv]
  let ?e = "ledger_row_of entry"
  let ?f = "\<lambda>r. if wg_id r = t_id t' \<and> wager_open r then write_wager t' r else r"
  let ?h = "\<lambda>r. if wr_id r = w_id w' \<and> wr_version r = w_version w' - 1
      then r\<lparr>wr_balance_cents := amount (w_balance w'), wr_version := w_version w',
             wr_updated_at := pg_time (w_updatedAt w')\<rparr> else r"
  have gid: "wg_id g0 = t_id t'" using g0(2) st(1) by (simp add: t' stores_wager_def same_operation_def)
  have wid: "wr_id w0 = w_id w'" "wr_version w0 = w_version w' - 1"
    using w0(2) moved by (simp_all add: stores_wallet_def)
  have e: "entry_balanced (movement_direction t1 reference) (t_money t') (w_balance w) (w_balance w')"
    "entry = \<lparr>e_id = i, e_walletID = w_id w', e_transactionID = t_id t',
       e_direction = movement_direction t1 reference, e_money = t_money t', e_balanceBefore = w_balance w,
       e_balanceAfter = w_balance w', e_createdAt = now'\<rparr>"
    using en unfolding NewWalletLedgerEntry_ok_iff by blast+
  have k1: "t_kind t1 = t_kind t" "t_money t1 = t_money t" using st(1) by (simp_all add: same_operation_def)
  let ?d = "add_ledger entry (set_wager t' (set_wallet w' d))"
  have "consistent ?d"
  proof (rule consistent_movement [OF c, where ?g0.0 = g0 and ?w0.0 = w0 and e = ?e and f = ?f and h = ?h])
    show "g0 \<in> set (db_wagers d)" "wg_status g0 \<noteq> WagerStatusProcessed"
      using g0(1) wager_open_not_processed [OF open0] by simp_all
    show "w0 \<in> set (db_wallets d)" "wr_id w0 = wg_wallet_id g0"
      using w0 g0 id by (simp_all add: stores_wager_def stores_wallet_def)
    show "?f g = g" if "g \<in> set (db_wagers d)" "g \<noteq> g0" for g
      using wager_row_unique [OF c that(1) g0(1)] that(2) gid by auto
    show "?h r = r" if "r \<in> set (db_wallets d)" "r \<noteq> w0" for r
      using wallet_row_unique [OF c that(1) w0(1)] that(2) wid by auto
    show "records ?e (?f g0)"
      using g0(2) gid open0 e(2) id k1 moved(1) movement_direction_of_kind [OF t1(1), of reference] k
      by (simp add: records_def ledger_row_of_def write_wager_def stores_wager_def t')
    show "sint (lr_balance_after_cents ?e) = sint (lr_balance_before_cents ?e) + signed_cents ?e"
      using e by (simp add: entry_balanced_def ledger_row_of_def signed_cents_def)
    show "wg_reference_transaction_id g \<noteq> Some x"
      if "successful_reversal (?f g0)" "wg_reference_transaction_id (?f g0) = Some x"
        "g \<in> set (db_wagers d)" "successful_reversal g" for g x
    proof (rule resolves_unreversed [OF res _ _ that(3,4)])
      show "t_kind t = WagerKindRefund \<or> t_kind t = WagerKindRollback"
        using that(1) g0(2) gid open0
        by (simp add: successful_reversal_def write_wager_def stores_wager_def)
      show "t_referenceTransactionID t1 = Some x"
        using that(2) gid open0 by (simp add: write_wager_def t')
    qed
  qed (use w0(2) wid t1(3) e(2) moved ko g0(2) in
      \<open>simp_all add: stores_wallet_def stores_wager_def ledger_row_of_def add_ledger_def set_wager_def
         set_wallet_def update_rows_def\<close>)
  moreover have "consistent (add_ledger entry d1) = consistent ?d"
    using emits_frame [OF em] by (intro consistent_cong) (simp_all add: add_ledger_def)
  ultimately show ?thesis using emits_consistent [OF em'] by simp
qed

theorem outcome_consistent:
  assumes "outcome pg env input w t d t' d'" and "consistent d" and "working_on d w t"
  shows "consistent d'"
  using assms
proof cases
  case (loses t1 reference ev)
  obtain g0 where g0: "g0 \<in> set (db_wagers d)" "stores_wager g0 t" using assms(3) by (auto simp: working_on_def)
  have "wg_id g0 = t_id t'"
    using g0(2) resolves_same(1) [OF loses(1)] loses(3)
    by (auto simp: stores_wager_def same_operation_def MarkProcessed_ok_iff)
  then have "wg_kind g = WagerKindLoss" if "g \<in> set (db_wagers d)" "wg_id g = t_id t'" for g
    using wager_row_unique [OF assms(2) that(1) g0(1)] that(2) g0(2) loses(2) by (simp add: stores_wager_def)
  then have "consistent (set_wager t' d)" by (intro set_wager_consistent assms)
  then show ?thesis using emits_consistent [OF loses(6)] by simp
next
  case (waits ev)
  have "t_status t' \<noteq> WagerStatusProcessed" using waits(3) by (auto simp: MarkPendingReference_ok_iff)
  then have "consistent (set_wager t' d)" by (intro set_wager_consistent assms) simp
  then show ?thesis using emits_consistent [OF waits(6)] by simp
next
  case (moves t1 reference w' ev d1 entry ev')
  then show ?thesis using moves_consistent [OF assms(2,3)] by blast
qed (use assms(2) rejected_consistent in blast)+

section \<open>What every outcome has in common\<close>

lemma constructed_event_valid:
  "NewWagerTransactionProcessed i t c k = Inr ev \<Longrightarrow> wager_valid t"
  "NewWagerTransactionRejected i t c k = Inr ev \<Longrightarrow> wager_valid t"
  "NewWagerTransactionPendingReference i t c k = Inr ev \<Longrightarrow> wager_valid t"
  using event_constructor_ok_iffs by blast+

lemma rejected_summary:
  assumes "rejected pg env input code t d t' d'"
  shows "db_wagers d' = db_wagers (set_wager t' d)" "same_operation t t'" "wager_valid t'"
    "t_status t' = WagerStatusRejected" "t_failureCode t' = Some code" "t_resultBalance t' = None"
    "rows_affected (\<lambda>r. wg_id r = t_id t' \<and> wager_open r) (db_wagers d) = 1"
    "db_wallets d' = db_wallets d" "db_ledger d' = db_ledger d"
proof -
  obtain ev where r: "Wager_Reject (env_now env at_Reject) t code = Inr t'"
      "rows_affected (\<lambda>r. wg_id r = t_id t' \<and> wager_open r) (db_wagers d) = 1"
      "NewWagerTransactionRejected (env_id env id_rejected) t' (in_CorrelationID input) (in_CausationID input) = Inr ev"
      "emits pg ev (set_wager t' d) d'"
    using assms by (auto simp: rejected_def)
  show "db_wagers d' = db_wagers (set_wager t' d)" "db_wallets d' = db_wallets d" "db_ledger d' = db_ledger d"
    using emits_frame [OF r(4)] by (simp_all add: set_wager_def)
  show "rows_affected (\<lambda>r. wg_id r = t_id t' \<and> wager_open r) (db_wagers d) = 1" by (rule r(2))
  show "wager_valid t'" using constructed_event_valid(2) [OF r(3)] .
  have w: "wager_valid t" "\<not> IsTerminal t"
    and t': "t' = t\<lparr>t_status := WagerStatusRejected, t_failureCode := Some code, t_updatedAt := env_now env at_Reject\<rparr>"
    using r(1) unfolding Wager_Reject_ok_iff by blast+
  show "same_operation t t'" "t_status t' = WagerStatusRejected" "t_failureCode t' = Some code"
    by (simp_all add: t' same_operation_def)
  show "t_resultBalance t' = None" using pending_fields [OF w] by (simp add: t')
qed

lemma MarkProcessed_same: "MarkProcessed now t b = Inr t' \<Longrightarrow> same_operation t t' \<and> t_status t' = WagerStatusProcessed"
  by (auto simp: MarkProcessed_ok_iff same_operation_def)

lemma MarkPendingReference_same:
  "MarkPendingReference now t = Inr t' \<Longrightarrow> same_operation t t' \<and> t_status t' = WagerStatusPendingReference"
  by (auto simp: MarkPendingReference_ok_iff same_operation_def)

lemma ResolveReference_same: "ResolveReference now t p = Inr t' \<Longrightarrow> same_operation t t' \<and> t_status t' = t_status t"
  by (auto simp: ResolveReference_ok_iff same_operation_def)

theorem outcome_summary:
  assumes "outcome pg env input w t d t' d'"
  shows "d' = d \<and> t' = t \<and> t_status t = WagerStatusPendingReference \<or>
     db_wagers d' = db_wagers (set_wager t' d) \<and> same_operation t t' \<and> wager_valid t' \<and>
     t_status t' \<in> {WagerStatusPendingReference, WagerStatusProcessed, WagerStatusRejected} \<and>
     rows_affected (\<lambda>r. wg_id r = t_id t' \<and> wager_open r) (db_wagers d) = 1"
  using assms
proof cases
  case still_waiting
  then show ?thesis by simp
next
  case (waits ev)
  then show ?thesis
    using emits_frame(2) [OF waits(6)] MarkPendingReference_same [OF waits(3)]
      constructed_event_valid(3) [OF waits(5)] waits(4) by simp
next
  case (unsuccessful_reference ref)
  then show ?thesis using rejected_summary [OF unsuccessful_reference(5)] by simp
next
  case (invalid_reference ref)
  then show ?thesis using rejected_summary [OF invalid_reference(4)] by simp
next
  case (already_reversed ref t1)
  then show ?thesis
    using rejected_summary [OF already_reversed(6)] ResolveReference_same [OF already_reversed(3)]
      same_operation_trans [of t t1 t'] by simp
next
  case (insufficient t1 reference)
  then show ?thesis
    using rejected_summary [OF insufficient(4)] same_operation_trans [OF resolves_same(1) [OF insufficient(1)]] by simp
next
  case (overflow t1 reference)
  then show ?thesis
    using rejected_summary [OF overflow(4)] same_operation_trans [OF resolves_same(1) [OF overflow(1)]] by simp
next
  case (loses t1 reference ev)
  then show ?thesis
    using emits_frame(2) [OF loses(6)] MarkProcessed_same [OF loses(3)] constructed_event_valid(1) [OF loses(5)]
      same_operation_trans [OF resolves_same(1) [OF loses(1)]] loses(4) by simp
next
  case (moves t1 reference w' ev d1 entry ev')
  have "db_wagers d' = db_wagers (set_wager t' d)"
    using emits_frame(2) [OF moves(8)] emits_frame(2) [OF moves(11)]
    by (simp add: add_ledger_def set_wager_def set_wallet_def)
  then show ?thesis
    using moves(6) MarkProcessed_same [OF moves(5)] constructed_event_valid(1) [OF moves(7)]
      same_operation_trans [OF resolves_same(1) [OF moves(1)]] by simp
qed

text \<open>Only a movement touches the wallets and the ledger.\<close>

definition moves_money :: "wager_transaction \<Rightarrow> bool" where
  "moves_money t \<longleftrightarrow> t_status t = WagerStatusProcessed \<and> t_kind t \<noteq> WagerKindLoss"

lemma outcome_without_money:
  assumes "outcome pg env input w t d t' d'" and "\<not> moves_money t'"
  shows "db_wallets d' = db_wallets d" and "db_ledger d' = db_ledger d"
proof -
  have "db_wallets d' = db_wallets d \<and> db_ledger d' = db_ledger d"
    using assms(1)
  proof cases
    case (waits ev)
    then show ?thesis using emits_frame [OF waits(6)] by (simp add: set_wager_def)
  next
    case (loses t1 reference ev)
    then show ?thesis using emits_frame [OF loses(6)] by (simp add: set_wager_def)
  next
    case (moves t1 reference w' ev d1 entry ev')
    have "moves_money t'"
      using MarkProcessed_same [OF moves(5)] resolves_kind [OF moves(1)] moves(2)
      by (simp add: moves_money_def same_operation_def)
    then show ?thesis using assms(2) by simp
  qed (use rejected_summary(8,9) in \<open>simp; blast\<close>)+
  then show "db_wallets d' = db_wallets d" and "db_ledger d' = db_ledger d" by simp_all
qed

text \<open>The evidence of a movement: the line of the ledger, the new balance and version.\<close>

lemma outcome_with_money:
  assumes out: "outcome pg env input w t d t' d'" and m: "moves_money t'"
  obtains w' entry dir where
    "db_ledger d' = db_ledger d @ [ledger_row_of entry]" and "db_wallets d' = db_wallets (set_wallet w' d)"
    and "w_id w' = w_id w" "w_version w' = w_version w + 1" "currency (w_balance w') = currency (w_balance w)"
    and "cents_of (w_balance w') = cents_of (w_balance w) + direction_sign dir * cents_of (t_money t)"
    and "0 \<le> cents_of (w_balance w')" and "t_resultBalance t' = Some (w_balance w')"
    and "e_walletID entry = w_id w" "e_transactionID entry = t_id t" "e_direction entry = dir"
      "e_money entry = t_money t" "e_balanceBefore entry = w_balance w" "e_balanceAfter entry = w_balance w'"
    and "direction_of_kind (t_kind t) dir"
  using out
proof cases
  case (moves t1 reference w' ev d1 entry ev')
  note mv = movement_moved [OF moves(3)]
  have t1: "same_operation t t1" using resolves_same(1) [OF moves(1)] .
  have t': "t' = t1\<lparr>t_status := WagerStatusProcessed, t_resultBalance := Some (w_balance w'),
      t_updatedAt := env_now env at_MarkProcessed\<rparr>" "wager_valid t1" "0 \<le> cents_of (w_balance w')"
    using moves(5) unfolding MarkProcessed_ok_iff by blast+
  have e: "entry_balanced (movement_direction t1 reference) (t_money t') (w_balance w) (w_balance w')"
    "entry = \<lparr>e_id = env_id env id_entry, e_walletID = w_id w', e_transactionID = t_id t',
       e_direction = movement_direction t1 reference, e_money = t_money t', e_balanceBefore = w_balance w,
       e_balanceAfter = w_balance w', e_createdAt = env_now env at_NewWalletLedgerEntry\<rparr>"
    using moves(9) unfolding NewWalletLedgerEntry_ok_iff by blast+
  have k: "t_kind t1 \<noteq> WagerKindLoss" using moves(2) t1 by (simp add: same_operation_def)
  show ?thesis
  proof (rule that [of entry w' "movement_direction t1 reference"])
    show "db_ledger d' = db_ledger d @ [ledger_row_of entry]" "db_wallets d' = db_wallets (set_wallet w' d)"
      using emits_frame [OF moves(8)] emits_frame [OF moves(11)]
      by (simp_all add: add_ledger_def set_wager_def set_wallet_def)
    show "direction_of_kind (t_kind t) (movement_direction t1 reference)"
      using movement_direction_of_kind [OF t'(2) k] t1 by (simp add: same_operation_def)
  qed (use e t' mv t1 in \<open>simp_all add: same_operation_def entry_balanced_def\<close>)
next
  case still_waiting
  then show ?thesis using m by (simp add: moves_money_def)
next
  case (waits ev)
  then show ?thesis using m MarkPendingReference_same by (auto simp: moves_money_def)
next
  case (loses t1 reference ev)
  then show ?thesis
    using m MarkProcessed_same [OF loses(3)] resolves_kind [OF loses(1)]
    by (simp add: moves_money_def same_operation_def)
qed (use m rejected_status in \<open>fastforce simp: moves_money_def\<close>)+

end
