(* ===== verification/UseCases.thy ===== *)
theory UseCases
  imports OpenWallet RetryReferences Settlement
begin

text \<open>
  The three use cases on the tables of PostgreSQL, in a transaction without faults: what a successful
  run went through, the consistency it keeps, the states it leaves, and what stays of the history.
\<close>

section \<open>What the rows say\<close>

lemma scan_wallet_stores: "scan_wallet r = Inr w \<Longrightarrow> stores_wallet r w"
  by (auto simp: scan_wallet_def RehydrateWallet_ok_iff stores_wallet_def MoneyFromMinorUnits_def
      split: sum.splits option.splits if_splits)

lemma scanWager_stores:
  assumes "scanWager r = Inr t"
  shows "stores_wager r t" "wager_valid t" "t_providerID t = coalesce_empty (wg_provider_id r)"
    "t_externalTransactionID t = coalesce_empty (wg_external_transaction_id r)"
    "t_idempotencyKey t = coalesce_empty (wg_idempotency_key r)"
    "t_payloadHash t = coalesce_empty (wg_payload_hash r)"
    "t_failureCode t = wg_failure_code r"
    "map_option amount (t_resultBalance t) = wg_result_balance_cents r"
    "t_referenceTransactionID t = wg_reference_transaction_id r"
  using assms
  by (auto simp: scanWager_def RehydrateWagerTransaction_def stores_wager_def MoneyFromMinorUnits_def
      split: sum.splits option.splits if_splits)

lemma find_wallet_ok:
  assumes "WalletRepository_FindByIDForUpdate True i d = (Inr w, d')"
  obtains r where "r \<in> set (db_wallets d)" "stores_wallet r w" "w_id w = i" "d' = d" "scan_wallet r = Inr w"
proof -
  obtain r where r: "find (\<lambda>r. wr_id r = i) (db_wallets d) = Some r" "scan_wallet r = Inr w" "d' = d"
    using assms by (auto simp: WalletRepository_FindByIDForUpdate_def WalletRepository_FindByID_def
        split: option.splits)
  then show ?thesis
    using that [of r] find_SomeD [OF r(1)] scan_wallet_stores [OF r(2)] by (auto simp: stores_wallet_def)
qed

lemma WagerRepository_Create_ok_iff:
  "WagerRepository_Create t d = (Inr u, d') \<longleftrightarrow>
     \<not> list_ex (wager_conflict (wager_row_of (db_clock d) t)) (db_wagers d) \<and>
     d' = d\<lparr>db_wagers := db_wagers d @ [wager_row_of (db_clock d) t]\<rparr>"
  by (auto simp: WagerRepository_Create_def Let_def)

lemma WagerRepository_Create_error:
  "WagerRepository_Create t d = (Inl e, d') \<Longrightarrow> e = ErrWagerConflict \<and> d' = d"
  by (auto simp: WagerRepository_Create_def Let_def split: if_splits)

lemma wager_row_of_stores [simp]: "stores_wager (wager_row_of now t) t"
  by (simp add: stores_wager_def wager_row_of_def)

section \<open>Replays\<close>

text \<open>The stored operation with the same key, or else with the same external identity.\<close>

definition stored_operation :: "db \<Rightarrow> wager_transaction \<Rightarrow> wager_row option" where
  "stored_operation d t =
     (case find (\<lambda>r. wg_provider_id r = Some (t_providerID t) \<and>
                     wg_idempotency_key r = Some (t_idempotencyKey t)) (db_wagers d) of
        Some g \<Rightarrow> Some g
      | None \<Rightarrow> find (\<lambda>r. wg_provider_id r = Some (t_providerID t) \<and>
                     wg_external_transaction_id r = Some (t_externalTransactionID t)) (db_wagers d))"

definition find_replay :: "db \<Rightarrow> wager_transaction \<Rightarrow> error + WagerResult option" where
  "find_replay d t =
     (case stored_operation d t of
        None \<Rightarrow> Inr None
      | Some g \<Rightarrow>
          (case scanWager g of
             Inl e \<Rightarrow> Inl e
           | Inr existing \<Rightarrow>
               if t_payloadHash existing \<noteq> t_payloadHash t \<or> t_idempotencyKey existing \<noteq> t_idempotencyKey t
                 then Inl ErrIdempotencyConflict
               else Inr (Some (wagerResult existing True))))"

lemma query_wager_error:
  fixes d :: db
  assumes "find p (db_wagers d) = Some g" and "scanWager g = Inl e"
  shows "\<not> errors_Is e ErrWagerNotFound"
  using assms query_wager_not_found [of p d e] by (auto simp: query_wager_def)

lemma judge_query:
  fixes d :: db
  shows "judge_replay t (fst (query_wager p d)) d =
     (case find p (db_wagers d) of
        None \<Rightarrow> Inr None
      | Some g \<Rightarrow> (case scanWager g of Inl e \<Rightarrow> Inl e
          | Inr existing \<Rightarrow> if t_payloadHash existing \<noteq> t_payloadHash t \<or>
                t_idempotencyKey existing \<noteq> t_idempotencyKey t then Inl ErrIdempotencyConflict
              else Inr (Some (wagerResult existing True))), d)"
  using query_wager_error [of p d]
  by (auto simp: query_wager_def judge_replay_def act_simps split: option.split sum.split)

lemma findWagerReplay_eq:
  "findWagerReplay (pg_repositories pg) t d = (find_replay d t, d)"
proof -
  let ?key = "\<lambda>r. wg_provider_id r = Some (t_providerID t) \<and> wg_idempotency_key r = Some (t_idempotencyKey t)"
  let ?ext = "\<lambda>r. wg_provider_id r = Some (t_providerID t) \<and>
      wg_external_transaction_id r = Some (t_externalTransactionID t)"
  have run: "findWagerReplay (pg_repositories pg) t d =
      (case fst (query_wager ?key d) of
         Inl e \<Rightarrow> if errors_Is e ErrWagerNotFound then judge_replay t (fst (query_wager ?ext d)) d
                  else judge_replay t (Inl e) d
       | Inr x \<Rightarrow> judge_replay t (Inr x) d)"
    by (simp add: findWagerReplay_def act_bind_try WagerRepository_FindByIdempotencyKey_def
        WagerRepository_FindByExternalID_def split: sum.split)
  show ?thesis
  proof (cases "find ?key (db_wagers d)")
    case None
    then have "fst (query_wager ?key d) = Inl ErrWagerNotFound" by (simp add: query_wager_def)
    then show ?thesis
      by (simp add: run judge_query find_replay_def stored_operation_def None split: option.split sum.split)
  next
    case (Some g)
    have "findWagerReplay (pg_repositories pg) t d = judge_replay t (fst (query_wager ?key d)) d"
      using query_wager_error [OF Some] by (auto simp: run query_wager_def Some split: sum.split)
    then show ?thesis by (simp add: judge_query find_replay_def stored_operation_def Some)
  qed
qed

section \<open>\<open>ProcessWager\<close>\<close>

text \<open>A run that processes the operation: the wallet it locked, the tables after the insertion, the outcome.\<close>

definition processed_run ::
  "pg_env \<Rightarrow> env \<Rightarrow> ProcessWagerInput \<Rightarrow> wager_transaction \<Rightarrow> db \<Rightarrow> wallet \<Rightarrow> wager_transaction \<Rightarrow> db \<Rightarrow> bool" where
  "processed_run pg env input t d w t' d' \<longleftrightarrow>
     find_replay d t = Inr None \<and>
     (\<exists>r \<in> set (db_wallets d). stores_wallet r w \<and> scan_wallet r = Inr w) \<and> w_id w = in_WalletID input \<and>
     w_playerID w = in_PlayerID input \<and> currency (w_balance w) = currency (in_Money input) \<and>
     \<not> list_ex (wager_conflict (wager_row_of (db_clock d) t)) (db_wagers d) \<and>
     outcome pg env input w t (d\<lparr>db_wagers := db_wagers d @ [wager_row_of (db_clock d) t]\<rparr>) t' d'"

lemma process_operation_ok:
  assumes "process_operation env input t (pg_repositories pg) d = (Inr result, d')"
  shows "(find_replay d t = Inr (Some result) \<and> d' = d) \<or>
    (\<exists>w t'. processed_run pg env input t d w t' d' \<and> result = wagerResult t' False)"
proof (cases "find_replay d t")
  case (Inl e)
  then show ?thesis using assms by (auto simp: process_operation_def act_bind_ok_iff findWagerReplay_eq)
next
  case (Inr replay)
  show ?thesis
  proof (cases replay)
    case (Some res)
    then show ?thesis using assms Inr by (auto simp: process_operation_def act_bind_ok_iff findWagerReplay_eq)
  next
    case None
    obtain w d0 where w: "WalletRepository_FindByIDForUpdate True (in_WalletID input) d = (Inr w, d0)"
      using assms Inr None by (auto simp: process_operation_def act_bind_ok_iff findWagerReplay_eq)
    obtain r where r: "r \<in> set (db_wallets d)" "stores_wallet r w" "w_id w = in_WalletID input" "d0 = d"
        "scan_wallet r = Inr w"
      using find_wallet_ok [OF w] .
    have fr: "findWagerReplay (pg_repositories pg) t d = (Inr None, d)" using Inr None by (simp add: findWagerReplay_eq)
    have bind_fr: "act_bind (findWagerReplay (pg_repositories pg) t) f d = f None d"
      for f :: "WagerResult option \<Rightarrow> (db, WagerResult) act" by (simp add: act_bind_def fr)
    have bind_w: "act_bind (WalletRepository_FindByIDForUpdate True (in_WalletID input)) f d = f w d"
      for f :: "wallet \<Rightarrow> (db, WagerResult) act" using w r(4) by (simp add: act_bind_def)
    have step: "process_operation env input t (pg_repositories pg) d =
        (if w_playerID w \<noteq> in_PlayerID input \<or> currency (w_balance w) \<noteq> currency (in_Money input)
           then act_raise ErrWalletIdentityMismatch
         else act_bind (act_try (wagers_Create (pg_repositories pg) t)) (\<lambda>created. case created of
           Inl e \<Rightarrow>
             if \<not> errors_Is e ErrWagerConflict then act_raise e
             else act_bind (findWagerReplay (pg_repositories pg) t) (\<lambda>replay. case replay of
                    None \<Rightarrow> act_raise ErrIdempotencyConflict
                  | Some result \<Rightarrow> act_return result)
         | Inr _ \<Rightarrow>
             act_bind (processWager env (pg_repositories pg) w t input) (\<lambda>t'. act_return (wagerResult t' False)))) d"
      by (simp add: process_operation_def bind_fr bind_w)
    have ids: "w_playerID w = in_PlayerID input" "currency (w_balance w) = currency (in_Money input)"
      using assms unfolding step by (auto split: if_splits)
    show ?thesis
    proof (cases "fst (WagerRepository_Create t d)")
      case (Inl e)
      have "WagerRepository_Create t d = (Inl e, snd (WagerRepository_Create t d))"
        using Inl by (metis prod.collapse)
      then have "e = ErrWagerConflict" "WagerRepository_Create t d = (Inl e, d)"
        using WagerRepository_Create_error by fastforce+
      then have "find_replay d t = Inr (Some result)"
        using assms unfolding step by (simp add: ids act_bind_try bind_fr)
      then show ?thesis using Inr None by simp
    next
      case (Inr u)
      have "WagerRepository_Create t d = (Inr u, snd (WagerRepository_Create t d))"
        using Inr by (metis prod.collapse)
      then have c: "\<not> list_ex (wager_conflict (wager_row_of (db_clock d) t)) (db_wagers d)"
          "WagerRepository_Create t d = (Inr u, d\<lparr>db_wagers := db_wagers d @ [wager_row_of (db_clock d) t]\<rparr>)"
        by (auto simp: WagerRepository_Create_ok_iff)
      then obtain t' where "processWager env (pg_repositories pg) w t input
          (d\<lparr>db_wagers := db_wagers d @ [wager_row_of (db_clock d) t]\<rparr>) = (Inr t', d')"
          "result = wagerResult t' False"
        using assms unfolding step by (auto simp: ids act_bind_try act_bind_ok_iff)
      then show ?thesis
        using processWager_refines_outcome r ids c(1) \<open>find_replay d t = Inr replay\<close> None
        unfolding processed_run_def by blast
    qed
  qed
qed

text \<open>
  The transaction \<open>prepare_wager\<close> hands over is a valid external operation on the wallet and the player of
  the input, in its currency, and pending.
\<close>

definition prepared :: "ProcessWagerInput \<Rightarrow> wager_transaction \<Rightarrow> bool" where
  "prepared input t \<longleftrightarrow>
     wager_valid t \<and> t_status t = WagerStatusPending \<and> t_kind t \<noteq> WagerKindOpening \<and>
     t_walletID t = in_WalletID input \<and> t_playerID t = in_PlayerID input \<and>
     t_providerID t = in_ProviderID input \<and> t_idempotencyKey t = in_IdempotencyKey input \<and>
     t_externalTransactionID t = in_ExternalTransactionID input \<and> t_money t = in_Money input \<and>
     t_kind t = in_Kind input \<and> t_referenceTransactionID t = None"

lemma prepare_wager_ok:
  assumes "prepare_wager env p input = Inr (input', t)"
  shows "prepared input' t" "in_ProviderID input = p"
    "payloadHash (env_uuid_String env) input = Inr (t_payloadHash t)"
    "input' = input\<lparr>in_CorrelationID := in_CorrelationID input'\<rparr>" "t_id t = env_id env id_transaction"
    "t_createdAt t = env_now env at_NewWagerTransaction"
proof -
  let ?new = "\<lambda>hash. NewWagerTransaction (env_id env id_transaction) (env_now env at_NewWagerTransaction)
      (in_ProviderID input) (in_ExternalTransactionID input) (in_IdempotencyKey input) hash
      (in_WalletID input) (in_PlayerID input) (in_RoundID input) (in_GameID input)
      (in_Kind input) (in_Money input) (in_ReferenceExternalTransactionID input)"
  have p: "in_ProviderID input = p"
    using assms by (simp add: prepare_wager_def split: if_splits)
  obtain hash where h: "payloadHash (env_uuid_String env) input = Inr hash"
    using assms by (cases "payloadHash (env_uuid_String env) input") (simp_all add: prepare_wager_def split: if_splits)
  obtain t0 where t0: "?new hash = Inr t0"
    using assms by (cases "?new hash") (simp_all add: prepare_wager_def h split: if_splits)
  have r: "(if TrimSpace_is_empty (in_CorrelationID input)
      then input\<lparr>in_CorrelationID := env_uuid_String env (env_id env id_correlation)\<rparr> else input, t0) = (input', t)"
    using assms unfolding prepare_wager_def h sum.case t0 by (simp split: if_splits)
  then have n: "?new hash = Inr t"
    and i: "input' = input \<or> input' = input\<lparr>in_CorrelationID := env_uuid_String env (env_id env id_correlation)\<rparr>"
    using t0 by (simp_all split: if_splits)
  note ok = NewWagerTransaction_ok [OF n]
  have "t_walletID t = in_WalletID input" "t_playerID t = in_PlayerID input" "t_providerID t = in_ProviderID input"
    "t_idempotencyKey t = in_IdempotencyKey input" "t_externalTransactionID t = in_ExternalTransactionID input"
    "t_money t = in_Money input" "t_kind t = in_Kind input" "t_referenceTransactionID t = None"
    by (simp_all add: ok(4))
  then have "prepared input t" using ok(1-3) by (simp add: prepared_def ok(4))
  then show "prepared input' t" using i by (elim disjE) (auto simp: prepared_def)
  show "in_ProviderID input = p" by (rule p)
  show "payloadHash (env_uuid_String env) input = Inr (t_payloadHash t)" using h ok(4) by simp
  show "input' = input\<lparr>in_CorrelationID := in_CorrelationID input'\<rparr>" using i by auto
  show "t_id t = env_id env id_transaction" "t_createdAt t = env_now env at_NewWagerTransaction"
    using ok(4) by simp_all
qed

lemma processed_run_consistent:
  assumes c: "consistent d" and p: "prepared input t" and run: "processed_run pg env input t d w t' d'"
  shows "consistent d'"
proof -
  let ?g = "wager_row_of (db_clock d) t"
  let ?d = "d\<lparr>db_wagers := db_wagers d @ [?g]\<rparr>"
  obtain r where r: "r \<in> set (db_wallets d)" "stores_wallet r w" using run by (auto simp: processed_run_def)
  have facts: "w_id w = in_WalletID input" "w_playerID w = in_PlayerID input"
    "currency (w_balance w) = currency (in_Money input)"
    "\<not> list_ex (wager_conflict ?g) (db_wagers d)" "outcome pg env input w t ?d t' d'"
    using run by (auto simp: processed_run_def)
  have "consistent ?d"
    by (rule consistent_add_wager [OF c facts(4) _ r(1)])
      (use r p facts(1-3) in \<open>simp_all add: prepared_def stores_wallet_def wager_row_of_def\<close>)
  moreover have "working_on ?d w t"
    using r p facts(1) by (auto simp: working_on_def prepared_def)
  ultimately show ?thesis using outcome_consistent [OF facts(5)] by blast
qed

text \<open>The inbox is not part of the financial state.\<close>

lemma inbox_frame:
  "InboxRepository_Register c m h d = (x, d') \<Longrightarrow>
     db_wallets d' = db_wallets d \<and> db_wagers d' = db_wagers d \<and> db_ledger d' = db_ledger d \<and>
     db_outbox d' = db_outbox d \<and> db_clock d' = db_clock d"
  "InboxRepository_Complete c m d = (y, d') \<Longrightarrow>
     db_wallets d' = db_wallets d \<and> db_wagers d' = db_wagers d \<and> db_ledger d' = db_ledger d \<and>
     db_outbox d' = db_outbox d \<and> db_clock d' = db_clock d"
  by (auto simp: InboxRepository_Register_def InboxRepository_Complete_def Let_def
      split: option.splits if_splits)

lemma wager_work_ok:
  assumes "wager_work env input t message (pg_repositories pg) d = (Inr result, d')"
  obtains (direct) "message = None" "process_operation env input t (pg_repositories pg) d = (Inr result, d')"
  | (duplicate) m h where "message = Some (m, h)"
      "InboxRepository_Register WagerConsumerName m h d = (Inr True, d)"
      "find_replay d t = Inr (Some result)" "d' = d"
  | (first) m h d1 d2 where "message = Some (m, h)"
      "InboxRepository_Register WagerConsumerName m h d = (Inr False, d1)"
      "process_operation env input t (pg_repositories pg) d1 = (Inr result, d2)"
      "InboxRepository_Complete WagerConsumerName m d2 = (Inr (), d')"
proof (cases message)
  case None
  then show ?thesis using assms direct by (simp add: wager_work_def)
next
  case (Some mh)
  obtain m h where mh: "message = Some (m, h)" using Some by (cases mh) simp
  obtain dup d1 where reg: "InboxRepository_Register WagerConsumerName m h d = (Inr dup, d1)"
    and rest: "(if dup then act_bind (findWagerReplay (pg_repositories pg) t) (\<lambda>replay. case replay of
                None \<Rightarrow> act_raise ErrInboxIncomplete | Some result \<Rightarrow> act_return result)
            else act_bind (process_operation env input t (pg_repositories pg)) (\<lambda>result.
              act_bind (inbox_Complete (pg_repositories pg) WagerConsumerName m) (\<lambda>_. act_return result))) d1 = (Inr result, d')"
    using assms by (auto simp: wager_work_def mh act_bind_ok_iff)
  show ?thesis
  proof (cases dup)
    case True
    then have "d1 = d"
      using reg by (auto simp: InboxRepository_Register_def split: option.splits if_splits)
    moreover have "find_replay d1 t = Inr (Some result)" "d' = d1"
      using rest True by (auto simp: act_bind_ok_iff findWagerReplay_eq split: option.splits)
    ultimately show ?thesis using duplicate [OF mh] reg True by simp
  next
    case False
    then show ?thesis using first [OF mh] reg rest by (auto simp: act_bind_ok_iff)
  qed
qed

lemma process_operation_consistent:
  assumes "process_operation env input t (pg_repositories pg) d = (Inr result, d')"
    and "prepared input t" and "consistent d"
  shows "consistent d'"
  using process_operation_ok [OF assms(1)] processed_run_consistent [OF assms(3,2)] assms(3) by blast

lemma wager_work_consistent:
  assumes run: "wager_work env input t message (pg_repositories pg) d = (Inr result, d')"
    and p: "prepared input t" and c: "consistent d"
  shows "consistent d'"
  using run
proof (cases rule: wager_work_ok)
  case direct
  then show ?thesis using process_operation_consistent p c by blast
next
  case (duplicate m h)
  then show ?thesis using c by simp
next
  case (first m h d1 d2)
  have "consistent d1" using c consistent_cong inbox_frame(1) [OF first(2)] by blast
  then have "consistent d2" using process_operation_consistent [OF first(3) p] by blast
  then show ?thesis using consistent_cong inbox_frame(2) [OF first(4)] by blast
qed

section \<open>\<open>OpenWallet\<close>\<close>

lemma WalletRepository_Create_ok_iff:
  "WalletRepository_Create w d = (Inr u, d') \<longleftrightarrow>
     \<not> list_ex (wallet_conflict (wallet_row_of w)) (db_wallets d) \<and>
     d' = d\<lparr>db_wallets := db_wallets d @ [wallet_row_of w]\<rparr>"
  by (auto simp: WalletRepository_Create_def Let_def)

definition opened_run ::
  "pg_env \<Rightarrow> env \<Rightarrow> wallet \<Rightarrow> string \<Rightarrow> db \<Rightarrow> wager_transaction \<Rightarrow> ledger_entry \<Rightarrow> db \<Rightarrow> bool" where
  "opened_run pg env w c d opening entry d' \<longleftrightarrow>
     NewOpeningTransaction (env_NewSHA1 env) (env_now env at_MarkProcessed) (Some w) = Inr opening \<and>
     \<not> list_ex (wager_conflict (wager_row_of (db_clock d) opening)) (db_wagers d) \<and>
     NewWalletLedgerEntry (env_id env id_entry) (env_now env at_NewWalletLedgerEntry) (w_id w) (t_id opening)
       LedgerDirectionCredit (w_balance w) \<lparr>amount = 0, currency = currency (w_balance w)\<rparr> (w_balance w) = Inr entry \<and>
     (\<exists>processed changed d1.
       NewWagerTransactionProcessed (env_id env id_processed) opening c '''' = Inr processed \<and>
       NewWalletBalanceChanged (env_id env id_changed) opening (Some entry) (w_version w) c '''' = Inr changed \<and>
       emits pg processed (d\<lparr>db_wallets := db_wallets d @ [wallet_row_of w],
                             db_wagers := db_wagers d @ [wager_row_of (db_clock d) opening],
                             db_ledger := db_ledger d @ [ledger_row_of entry]\<rparr>) d1 \<and>
       emits pg changed d1 d')"

lemma open_work_ok:
  assumes "open_work env w c (pg_repositories pg) d = (Inr u, d')"
  shows "\<not> list_ex (wallet_conflict (wallet_row_of w)) (db_wallets d)"
    and "Money_IsZero (w_balance w) \<Longrightarrow> d' = d\<lparr>db_wallets := db_wallets d @ [wallet_row_of w]\<rparr>"
    and "\<not> Money_IsZero (w_balance w) \<Longrightarrow> \<exists>ope entry. opened_run pg env w c d ope entry d'"
proof -
  let ?d1 = "d\<lparr>db_wallets := db_wallets d @ [wallet_row_of w]\<rparr>"
  show new: "\<not> list_ex (wallet_conflict (wallet_row_of w)) (db_wallets d)"
    using assms by (auto simp: open_work_def act_bind_ok_iff WalletRepository_Create_ok_iff)
  show "Money_IsZero (w_balance w) \<Longrightarrow> d' = ?d1"
    using assms by (auto simp: open_work_def act_bind_ok_iff WalletRepository_Create_ok_iff)
  assume z: "\<not> Money_IsZero (w_balance w)"
  obtain ope before entry processed changed d3 where
    op1: "NewOpeningTransaction (env_NewSHA1 env) (env_now env at_MarkProcessed) (Some w) = Inr ope"
      "\<not> list_ex (wager_conflict (wager_row_of (db_clock d) ope)) (db_wagers d)"
      "ZeroMoney (currency (w_balance w)) = Inr before"
      "NewWalletLedgerEntry (env_id env id_entry) (env_now env at_NewWalletLedgerEntry) (w_id w) (t_id ope)
         LedgerDirectionCredit (w_balance w) before (w_balance w) = Inr entry"
      "NewWagerTransactionProcessed (env_id env id_processed) ope c '''' = Inr processed"
      "NewWalletBalanceChanged (env_id env id_changed) ope (Some entry) (w_version w) c '''' = Inr changed"
    and op2: "emits pg processed (add_ledger entry (?d1\<lparr>db_wagers := db_wagers d @ [wager_row_of (db_clock d) ope]\<rparr>)) d3"
      "emits pg changed d3 d'"
    using assms z
    by (auto simp: open_work_def act_bind_ok_iff WalletRepository_Create_ok_iff WagerRepository_Create_ok_iff
        emits_def)
  have "before = \<lparr>amount = 0, currency = currency (w_balance w)\<rparr>"
    using op1(3) by (auto simp: ZeroMoney_def MoneyFromMinorUnits_def split: if_splits option.splits)
  then show "\<exists>ope entry. opened_run pg env w c d ope entry d'"
    using op1 op2 by (auto simp: opened_run_def add_ledger_def)
qed

lemma open_work_consistent:
  assumes run: "open_work env w c (pg_repositories pg) d = (Inr u, d')" and con: "consistent d"
    and v: "w_version w = 1"
  shows "consistent d'"
proof (cases "Money_IsZero (w_balance w)")
  case True
  then have "wr_balance_cents (wallet_row_of w) = 0" by (simp add: wallet_row_of_def Money_IsZero_iff)
  then show ?thesis
    using open_work_ok(1,2) [OF run] True v
    by (intro consistent_add_wallet [OF con, of "wallet_row_of w"]) (simp_all add: wallet_row_of_def)
next
  case False
  obtain ope entry where r: "opened_run pg env w c d ope entry d'"
    using open_work_ok(3) [OF run False] by blast
  let ?d = "d\<lparr>db_wallets := db_wallets d @ [wallet_row_of w],
             db_wagers := db_wagers d @ [wager_row_of (db_clock d) ope],
             db_ledger := db_ledger d @ [ledger_row_of entry]\<rparr>"
  obtain processed changed d1 where em: "emits pg processed ?d d1" "emits pg changed d1 d'"
    using r unfolding opened_run_def by blast
  have n: "NewOpeningTransaction (env_NewSHA1 env) (env_now env at_MarkProcessed) (Some w) = Inr ope"
    and g: "\<not> list_ex (wager_conflict (wager_row_of (db_clock d) ope)) (db_wagers d)"
    using r by (simp_all add: opened_run_def)
  note on = NewOpeningTransaction_ok [OF n]
  have e: "entry_balanced LedgerDirectionCredit (w_balance w) \<lparr>amount = 0, currency = currency (w_balance w)\<rparr> (w_balance w)"
    "entry = \<lparr>e_id = env_id env id_entry, e_walletID = w_id w, e_transactionID = t_id ope,
       e_direction = LedgerDirectionCredit, e_money = w_balance w,
       e_balanceBefore = \<lparr>amount = 0, currency = currency (w_balance w)\<rparr>,
       e_balanceAfter = w_balance w, e_createdAt = env_now env at_NewWalletLedgerEntry\<rparr>"
    using r unfolding opened_run_def NewWalletLedgerEntry_ok_iff by blast+
  have "consistent ?d"
    by (rule consistent_open_wallet [OF con open_work_ok(1) [OF run] g, where e = "ledger_row_of entry"])
      (use on e v in \<open>simp_all add: wallet_row_of_def wager_row_of_def ledger_row_of_def records_def
         direction_of_kind_def signed_cents_def direction_sign_def entry_balanced_def\<close>)
  then show ?thesis using emits_consistent [OF em(1)] emits_consistent [OF em(2)] by simp
qed

section \<open>\<open>RetryReferences\<close>\<close>

lemma ScheduleReferenceRetry_ok:
  assumes "ScheduleReferenceRetry i n delay d = (Inr u, d')"
  obtains f where "db_wagers d' = map f (db_wagers d)"
    and "\<And>g. same_identity g (f g)" and "\<And>g. same_outcome g (f g)"
    and "\<And>g. wg_failure_code (f g) = wg_failure_code g" and "\<And>g. wg_updated_at (f g) = wg_updated_at g"
    and "\<And>g. \<not> wager_open g \<Longrightarrow> f g = g"
    and "db_wallets d' = db_wallets d" "db_ledger d' = db_ledger d" "db_outbox d' = db_outbox d"
      "db_inbox d' = db_inbox d" "db_clock d' = db_clock d"
proof -
  let ?sel = "\<lambda>r. wg_id r = i \<and> wg_status r = WagerStatusPendingReference"
  let ?f = "\<lambda>r. if ?sel r then r\<lparr>wg_reference_attempts := n,
      wg_next_reference_attempt_at := db_clock d + Microseconds delay\<rparr> else r"
  have d': "d' = d\<lparr>db_wagers := map ?f (db_wagers d)\<rparr>"
    using assms by (auto simp: ScheduleReferenceRetry_def Let_def update_rows_def split: if_splits)
  show ?thesis
    by (rule that [of ?f]) (simp_all add: d' same_identity_def same_outcome_def wager_open_def)
qed

lemma schedule_consistent:
  assumes "ScheduleReferenceRetry i n delay d = (Inr u, d')" and c: "consistent d"
  shows "consistent d'"
proof (rule ScheduleReferenceRetry_ok [OF assms(1)])
  fix f
  assume f: "db_wagers d' = map f (db_wagers d)" "\<And>g. same_identity g (f g)" "\<And>g. same_outcome g (f g)"
    "db_wallets d' = db_wallets d" "db_ledger d' = db_ledger d"
  show ?thesis
    by (rule consistent_change_wagers [OF c f(2) f(3) _ f(4) f(1) f(5)])
      (use f(3) in \<open>simp add: same_outcome_def\<close>)
qed

lemma first_by_in: "first_by k rs = Some r \<Longrightarrow> r \<in> set rs"
  by (auto simp: first_by_def split: list.splits dest: arg_cong [where f = set])

text \<open>A claimed operation is a due row of the table, as its transaction reads it.\<close>

lemma claimed_ok:
  assumes "ClaimPendingReference pg d = (Inr (Some pending), d')"
  obtains row r where "row \<in> set (db_wagers d)" "reference_due d row" "d' = d"
    "r \<in> set (db_wagers d)" "wg_id r = wg_id row" "scanWager r = Inr (pr_Transaction pending)"
    "pr_Attempts pending = wg_reference_attempts row"
proof -
  let ?due = "\<lambda>c. first_by attempt_order
      (filter (\<lambda>t. wg_wallet_id t = wg_wallet_id c \<and> reference_due d t) (db_wagers d))"
  note run = assms [unfolded ClaimPendingReference_def Let_def]
  obtain candidate where cand: "first_by attempt_order
      (filter (\<lambda>t. reference_due d t \<and> list_ex (\<lambda>w. wr_id w = wg_wallet_id t) (db_wallets d) \<and>
         wg_wallet_id t \<notin> set (pe_locked pg)) (db_wagers d)) = Some candidate"
    using run by (cases "first_by attempt_order
      (filter (\<lambda>t. reference_due d t \<and> list_ex (\<lambda>w. wr_id w = wg_wallet_id t) (db_wallets d) \<and>
         wg_wallet_id t \<notin> set (pe_locked pg)) (db_wagers d))") simp_all
  note run2 = run [unfolded cand option.case]
  obtain row where row1: "?due candidate = Some row" using run2 by (cases "?due candidate") simp_all
  obtain p where p: "wg_provider_id row = Some p"
    using run2 [unfolded row1] by (cases "wg_provider_id row") simp_all
  obtain t where t: "fst (WagerRepository_FindByID p (wg_id row) d) = Inr t"
    using run2 [unfolded row1] p by (cases "fst (WagerRepository_FindByID p (wg_id row) d)") simp_all
  have pend: "pr_Transaction pending = t" "pr_Attempts pending = wg_reference_attempts row" "d' = d"
    using run2 [unfolded row1] p t by (auto split: option.splits)
  note row = row1 t
  obtain r where r: "find (\<lambda>r. coalesce_empty (wg_provider_id r) = p \<and> wg_id r = wg_id row) (db_wagers d) = Some r"
      "scanWager r = Inr t"
    using row(2) by (auto simp: WagerRepository_FindByID_def query_wager_def split: option.splits)
  show ?thesis
    using that [of row r] first_by_in [OF row(1)] find_SomeD [OF r(1)] r(2) pend by auto
qed

lemma scanned_pending:
  assumes "scanWager r = Inr t" and "wg_status r = WagerStatusPendingReference"
  shows "t_status t = WagerStatusPendingReference" "t_kind t \<noteq> WagerKindOpening" "needsReference t"
proof -
  show s: "t_status t = WagerStatusPendingReference"
    using scanWager_stores(1) [OF assms(1)] assms(2) by (simp add: stores_wager_def)
  show "needsReference t"
    using scanWager_stores(2) [OF assms(1)] s
    by (auto simp: wager_valid_iff validate_status_def split: if_splits)
  then show "t_kind t \<noteq> WagerKindOpening" by (auto simp: needsReference_def)
qed

text \<open>What one turn of the worker did.\<close>

definition resumed_run ::
  "pg_env \<Rightarrow> env \<Rightarrow> ReferenceRetryPolicy \<Rightarrow> PendingReference \<Rightarrow> db \<Rightarrow> ReferenceRetryResult \<Rightarrow> db \<Rightarrow> bool" where
  "resumed_run pg env policy pending d result d' \<longleftrightarrow>
     (\<exists>w. (\<exists>r \<in> set (db_wallets d). stores_wallet r w) \<and> w_id w = t_walletID (pr_Transaction pending) \<and>
       (if rp_MaxAttempts policy \<le> pr_Attempts pending then
          \<exists>t'. rejected pg env (tracing_input pending) FailureReferenceNotFound (pr_Transaction pending) d t' d' \<and>
               result = retry_result pending t' (pr_Attempts pending)
        else
          \<exists>d1 t' d2. ScheduleReferenceRetry (t_id (pr_Transaction pending)) (pr_Attempts pending + 1)
              (ReferenceRetryPolicy_delay policy (pr_Attempts pending + 1)) d = (Inr (), d1) \<and>
            outcome pg env (tracing_input pending) w (pr_Transaction pending) d1 t' d2 \<and>
            (if t_status t' = WagerStatusPendingReference \<and> rp_MaxAttempts policy \<le> pr_Attempts pending + 1 then
               \<exists>t''. rejected pg env (tracing_input pending) FailureReferenceNotFound t' d2 t'' d' \<and>
                     result = retry_result pending t'' (pr_Attempts pending + 1)
             else d' = d2 \<and> result = retry_result pending t' (pr_Attempts pending + 1))))"

lemma resume_operation_ok:
  assumes "resume_operation env policy (pg_repositories pg) pending d = (Inr result, d')"
  shows "resumed_run pg env policy pending d result d'"
proof -
  obtain w d0 where w: "WalletRepository_FindByIDForUpdate True (t_walletID (pr_Transaction pending)) d = (Inr w, d0)"
    using assms by (auto simp: resume_operation_def Let_def act_bind_ok_iff)
  obtain r where r: "r \<in> set (db_wallets d)" "stores_wallet r w" "w_id w = t_walletID (pr_Transaction pending)" "d0 = d"
    using find_wallet_ok [OF w] by metis
  have bind_w: "act_bind (WalletRepository_FindByIDForUpdate True (t_walletID (pr_Transaction pending))) f d = f w d"
    for f :: "wallet \<Rightarrow> (db, ReferenceRetryResult) act" using w r(4) by (simp add: act_bind_def)
  show ?thesis
  proof (cases "rp_MaxAttempts policy \<le> pr_Attempts pending")
    case True
    then have "\<exists>t'. rejected pg env (tracing_input pending) FailureReferenceNotFound (pr_Transaction pending) d t' d' \<and>
        result = retry_result pending t' (pr_Attempts pending)"
      using assms by (auto simp: resume_operation_def Let_def bind_w act_bind_ok_iff rejectWager_ok_iff)
    then show ?thesis using r True unfolding resumed_run_def by auto
  next
    case False
    then obtain d1 t' d2 where s: "ScheduleReferenceRetry (t_id (pr_Transaction pending)) (pr_Attempts pending + 1)
          (ReferenceRetryPolicy_delay policy (pr_Attempts pending + 1)) d = (Inr (), d1)"
      and p: "processWager env (pg_repositories pg) w (pr_Transaction pending) (tracing_input pending) d1 = (Inr t', d2)"
      and rest: "(if t_status t' = WagerStatusPendingReference \<and> rp_MaxAttempts policy \<le> pr_Attempts pending + 1 then
           act_bind (rejectWager env (pg_repositories pg) t' (tracing_input pending) FailureReferenceNotFound) (\<lambda>t''.
             act_return (retry_result pending t'' (pr_Attempts pending + 1)))
         else act_return (retry_result pending t' (pr_Attempts pending + 1))) d2 = (Inr result, d')"
      using assms by (auto simp: resume_operation_def Let_def bind_w act_bind_ok_iff)
    have "if t_status t' = WagerStatusPendingReference \<and> rp_MaxAttempts policy \<le> pr_Attempts pending + 1 then
           \<exists>t''. rejected pg env (tracing_input pending) FailureReferenceNotFound t' d2 t'' d' \<and>
                 result = retry_result pending t'' (pr_Attempts pending + 1)
         else d' = d2 \<and> result = retry_result pending t' (pr_Attempts pending + 1)"
      using rest by (auto simp: act_bind_ok_iff rejectWager_ok_iff split: if_splits)
    then show ?thesis
      using r(1-3) s processWager_refines_outcome [OF p] unfolding resumed_run_def if_not_P [OF False] by blast
  qed
qed

lemma retry_work_ok:
  assumes "retry_work env policy (pg_repositories pg) d = (Inr result, d')"
  obtains (idle) "result = None" "d' = d"
  | (resumed) pending res where "ClaimPendingReference pg d = (Inr (Some pending), d)" "result = Some res"
      "resumed_run pg env policy pending d res d'"
proof -
  obtain claimed d1 where c: "ClaimPendingReference pg d = (Inr claimed, d1)"
    and k: "(case claimed of None \<Rightarrow> act_return None
       | Some pending \<Rightarrow> act_bind (resume_operation env policy (pg_repositories pg) pending)
           (\<lambda>result. act_return (Some result))) d1 = (Inr result, d')"
    using assms by (auto simp: retry_work_def act_bind_ok_iff)
  have "d1 = d" using c read_state(7) [of pg d] by simp
  show ?thesis
  proof (cases claimed)
    case None
    then show ?thesis using k idle \<open>d1 = d\<close> by simp
  next
    case (Some pending)
    then obtain res where "resume_operation env policy (pg_repositories pg) pending d = (Inr res, d')" "result = Some res"
      using k \<open>d1 = d\<close> by (auto simp: act_bind_ok_iff)
    then show ?thesis using resumed [of pending res] resume_operation_ok c Some \<open>d1 = d\<close> by blast
  qed
qed

text \<open>The parts of a turn: a rejection at once, or the schedule of the next one, an outcome and maybe a rejection.\<close>

lemma resumed_parts:
  assumes claim: "ClaimPendingReference pg d = (Inr (Some pending), d)" and c: "consistent d"
    and run: "resumed_run pg env policy pending d res d'"
  obtains (exhausted) t' where "rp_MaxAttempts policy \<le> pr_Attempts pending"
      "rejected pg env (tracing_input pending) FailureReferenceNotFound (pr_Transaction pending) d t' d'"
      "res = retry_result pending t' (pr_Attempts pending)"
  | (attempted) w d1 t' d2 where "pr_Attempts pending < rp_MaxAttempts policy"
      "ScheduleReferenceRetry (t_id (pr_Transaction pending)) (pr_Attempts pending + 1)
         (ReferenceRetryPolicy_delay policy (pr_Attempts pending + 1)) d = (Inr (), d1)"
      "outcome pg env (tracing_input pending) w (pr_Transaction pending) d1 t' d2"
      "working_on d1 w (pr_Transaction pending)" "t_status (pr_Transaction pending) = WagerStatusPendingReference"
      "if t_status t' = WagerStatusPendingReference \<and> rp_MaxAttempts policy \<le> pr_Attempts pending + 1 then
         \<exists>t''. rejected pg env (tracing_input pending) FailureReferenceNotFound t' d2 t'' d' \<and>
               res = retry_result pending t'' (pr_Attempts pending + 1)
       else d' = d2 \<and> res = retry_result pending t' (pr_Attempts pending + 1)"
proof (cases "rp_MaxAttempts policy \<le> pr_Attempts pending")
  case True
  then show ?thesis using exhausted run unfolding resumed_run_def if_P [OF True] by blast
next
  case False
  let ?t = "pr_Transaction pending"
  obtain row r where row: "row \<in> set (db_wagers d)" "reference_due d row" "r \<in> set (db_wagers d)"
      "wg_id r = wg_id row" "scanWager r = Inr ?t"
    using claimed_ok [OF claim] by metis
  then have "wg_status r = WagerStatusPendingReference"
    using wager_row_unique [OF c row(3,1,4)] by (simp add: reference_due_def)
  note pend = scanned_pending [OF row(5) this]
  obtain w wr d1 t' d2 where w: "wr \<in> set (db_wallets d)" "stores_wallet wr w" "w_id w = t_walletID ?t"
    and s: "ScheduleReferenceRetry (t_id ?t) (pr_Attempts pending + 1)
        (ReferenceRetryPolicy_delay policy (pr_Attempts pending + 1)) d = (Inr (), d1)"
    and out: "outcome pg env (tracing_input pending) w ?t d1 t' d2"
    and final: "if t_status t' = WagerStatusPendingReference \<and> rp_MaxAttempts policy \<le> pr_Attempts pending + 1 then
             \<exists>t''. rejected pg env (tracing_input pending) FailureReferenceNotFound t' d2 t'' d' \<and>
                   res = retry_result pending t'' (pr_Attempts pending + 1)
           else d' = d2 \<and> res = retry_result pending t' (pr_Attempts pending + 1)"
    using run unfolding resumed_run_def if_not_P [OF False] by blast
  have "working_on d1 w ?t"
  proof (rule ScheduleReferenceRetry_ok [OF s])
    fix f
    assume f: "db_wagers d1 = map f (db_wagers d)" "\<And>g. same_identity g (f g)" "\<And>g. same_outcome g (f g)"
      "db_wallets d1 = db_wallets d"
    have "stores_wager (f r) ?t"
      using scanWager_stores(1) [OF row(5)] f(2) [of r] f(3) [of r]
      by (simp add: stores_wager_def same_identity_def same_outcome_def)
    then show ?thesis using w pend(2) row(3) by (auto simp: working_on_def f(1,4))
  qed
  then show ?thesis using attempted s out pend(1) final False by (simp add: not_le)
qed

end
