(* ===== verification/History.thy ===== *)
theory History
  imports UseCases "HOL-Library.Sublist"
begin

text \<open>
  What a committed use case may not undo: the ledger and the events only grow, terminal operations stay
  as they are, and no operation is left half way. The relation \<open>history_kept\<close> is the order of the
  histories; every use case moves along it.
\<close>

section \<open>The order of the histories\<close>

definition same_owner :: "wallet_row \<Rightarrow> wallet_row \<Rightarrow> bool" where
  "same_owner r s \<longleftrightarrow>
     wr_id s = wr_id r \<and> wr_player_id s = wr_player_id r \<and> wr_currency s = wr_currency r \<and>
     wr_created_at s = wr_created_at r"

definition history_kept :: "db \<Rightarrow> db \<Rightarrow> bool" where
  "history_kept d d' \<longleftrightarrow>
     prefix (db_ledger d) (db_ledger d') \<and>
     prefix (map ob_payload (db_outbox d)) (map ob_payload (db_outbox d')) \<and>
     (\<forall>g \<in> set (db_wagers d). \<exists>h \<in> set (db_wagers d'). same_identity g h \<and> (wager_open g \<or> h = g)) \<and>
     (\<forall>r \<in> set (db_wallets d). \<exists>s \<in> set (db_wallets d'). same_owner r s)"

lemma same_owner_refl [simp]: "same_owner r r"
  by (simp add: same_owner_def)

lemma row_kept_refl: "g \<in> set gs \<Longrightarrow> \<exists>h \<in> set gs. same_identity g h \<and> (wager_open g \<or> h = g)"
  by (rule bexI [of _ g]) simp_all

lemma owner_kept_refl: "r \<in> set rs \<Longrightarrow> \<exists>s \<in> set rs. same_owner r s"
  by (rule bexI [of _ r]) simp_all

lemma history_kept_refl [simp]: "history_kept d d"
  by (simp add: history_kept_def row_kept_refl owner_kept_refl)

lemma history_kept_trans:
  assumes "history_kept a b" and "history_kept b c"
  shows "history_kept a c"
  unfolding history_kept_def
proof (intro conjI ballI)
  show "prefix (db_ledger a) (db_ledger c)"
    using assms prefix_order.trans unfolding history_kept_def by blast
  show "prefix (map ob_payload (db_outbox a)) (map ob_payload (db_outbox c))"
    using assms prefix_order.trans unfolding history_kept_def by blast
next
  fix g
  assume "g \<in> set (db_wagers a)"
  then obtain h where h: "h \<in> set (db_wagers b)" "same_identity g h" "wager_open g \<or> h = g"
    using assms(1) unfolding history_kept_def by blast
  then obtain k where "k \<in> set (db_wagers c)" "same_identity h k" "wager_open h \<or> k = h"
    using assms(2) unfolding history_kept_def by blast
  then show "\<exists>k \<in> set (db_wagers c). same_identity g k \<and> (wager_open g \<or> k = g)"
    using h by (intro bexI [of _ k]) (auto simp: same_identity_def)
next
  fix r
  assume "r \<in> set (db_wallets a)"
  then show "\<exists>s \<in> set (db_wallets c). same_owner r s"
    using assms unfolding history_kept_def same_owner_def by metis
qed

text \<open>The pieces of a step.\<close>

lemma history_frame:
  assumes "prefix (db_ledger d) (db_ledger d')"
    and "prefix (map ob_payload (db_outbox d)) (map ob_payload (db_outbox d'))"
    and "\<And>g. g \<in> set (db_wagers d) \<Longrightarrow> \<exists>h \<in> set (db_wagers d'). same_identity g h \<and> (wager_open g \<or> h = g)"
    and "\<And>r. r \<in> set (db_wallets d) \<Longrightarrow> \<exists>s \<in> set (db_wallets d'). same_owner r s"
  shows "history_kept d d'"
  using assms by (auto simp: history_kept_def)

lemma set_wager_row_kept:
  assumes "g \<in> set (db_wagers d)"
  shows "\<exists>h \<in> set (db_wagers (set_wager t d)). same_identity g h \<and> (wager_open g \<or> h = g)"
  using assms
  by (intro bexI [of _ "if wg_id g = t_id t \<and> wager_open g then write_wager t g else g"])
    (auto simp: set_wager_def update_rows_def)

lemma set_wallet_row_kept:
  assumes "r \<in> set (db_wallets d)"
  shows "\<exists>s \<in> set (db_wallets (set_wallet w d)). same_owner r s"
  using assms
  by (intro bexI [of _ "if wr_id r = w_id w \<and> wr_version r = w_version w - 1
        then r\<lparr>wr_balance_cents := amount (w_balance w), wr_version := w_version w,
               wr_updated_at := pg_time (w_updatedAt w)\<rparr> else r"])
    (auto simp: set_wallet_def update_rows_def same_owner_def)

lemma emits_payloads:
  "emits pg ev d d' \<Longrightarrow> prefix (map ob_payload (db_outbox d)) (map ob_payload (db_outbox d'))"
  using emits_frame(6) [of pg ev d d'] by (auto simp: prefix_def)

lemma rejected_payloads:
  "rejected pg env input code t d t' d' \<Longrightarrow>
   prefix (map ob_payload (db_outbox d)) (map ob_payload (db_outbox d'))"
  by (auto simp: rejected_def set_wager_def dest!: emits_payloads)

lemma outcome_payloads:
  assumes "outcome pg env input w t d t' d'"
  shows "prefix (map ob_payload (db_outbox d)) (map ob_payload (db_outbox d'))"
  using assms
proof cases
  case (waits ev)
  then show ?thesis using emits_payloads [OF waits(6)] by (simp add: set_wager_def)
next
  case (loses t1 reference ev)
  then show ?thesis using emits_payloads [OF loses(6)] by (simp add: set_wager_def)
next
  case (moves t1 reference w' ev d1 entry ev')
  have "prefix (map ob_payload (db_outbox d)) (map ob_payload (db_outbox d1))"
    using emits_payloads [OF moves(8)] by (simp add: set_wager_def set_wallet_def)
  then show ?thesis using emits_payloads [OF moves(11)] by (simp add: add_ledger_def)
qed (use rejected_payloads in \<open>simp; blast\<close>)+

text \<open>The identifiers of the events stay distinct.\<close>

definition distinct_events :: "db \<Rightarrow> bool" where
  "distinct_events d \<longleftrightarrow> distinct (map ob_event_id (db_outbox d))"

lemma emits_rows:
  assumes "emits pg ev d d'"
  shows "db_outbox d' = db_outbox d \<or>
    (\<exists>row. db_outbox d' = db_outbox d @ [row] \<and> ob_event_id row \<notin> ob_event_id ` set (db_outbox d))"
  using assms
  by (auto simp: emits_def OutboxRepository_Create_def outbox_row_of_def Let_def find_None_iff image_iff
      split: sum.splits option.splits if_splits) blast

lemma emits_distinct: "emits pg ev d d' \<Longrightarrow> distinct_events d \<Longrightarrow> distinct_events d'"
  using emits_rows [of pg ev d d'] by (auto simp: distinct_events_def)

lemma distinct_events_cong: "db_outbox d' = db_outbox d \<Longrightarrow> distinct_events d' = distinct_events d"
  by (simp add: distinct_events_def)

lemma rejected_distinct: "rejected pg env input code t d t' d' \<Longrightarrow> distinct_events d \<Longrightarrow> distinct_events d'"
proof -
  assume "rejected pg env input code t d t' d'" and d: "distinct_events d"
  then obtain ev where "emits pg ev (set_wager t' d) d'" by (auto simp: rejected_def)
  then show "distinct_events d'"
    by (rule emits_distinct) (use d in \<open>simp add: set_wager_def distinct_events_def\<close>)
qed

lemma outcome_distinct:
  assumes "outcome pg env input w t d t' d'" and "distinct_events d"
  shows "distinct_events d'"
  using assms(1)
proof cases
  case (waits ev)
  show ?thesis
    by (rule emits_distinct [OF waits(6)]) (use assms(2) in \<open>simp add: set_wager_def distinct_events_def\<close>)
next
  case (loses t1 reference ev)
  show ?thesis
    by (rule emits_distinct [OF loses(6)]) (use assms(2) in \<open>simp add: set_wager_def distinct_events_def\<close>)
next
  case (moves t1 reference w' ev d1 entry ev')
  have "distinct_events d1"
    by (rule emits_distinct [OF moves(8)])
      (use assms(2) in \<open>simp add: set_wager_def set_wallet_def distinct_events_def\<close>)
  then show ?thesis
    by (intro emits_distinct [OF moves(11)]) (simp add: add_ledger_def distinct_events_def)
qed (use assms(2) rejected_distinct in \<open>simp; blast\<close>)+

lemma rejected_history:
  assumes "rejected pg env input code t d t' d'"
  shows "history_kept d d'"
  using rejected_summary [OF assms] rejected_payloads [OF assms]
  by (intro history_frame) (simp_all add: set_wager_row_kept owner_kept_refl)

lemma outcome_history:
  assumes out: "outcome pg env input w t d t' d'"
  shows "history_kept d d'"
proof (rule history_frame)
  show "prefix (map ob_payload (db_outbox d)) (map ob_payload (db_outbox d'))"
    by (rule outcome_payloads [OF out])
  show "\<exists>h \<in> set (db_wagers d'). same_identity g h \<and> (wager_open g \<or> h = g)" if "g \<in> set (db_wagers d)" for g
    using outcome_summary [OF out] set_wager_row_kept [OF that, of t'] row_kept_refl [OF that] by auto
  have "prefix (db_ledger d) (db_ledger d') \<and> (db_wallets d' = db_wallets d \<or> (\<exists>w'. db_wallets d' = db_wallets (set_wallet w' d)))"
  proof (cases "moves_money t'")
    case True
    then show ?thesis using out by (elim outcome_with_money) (auto simp: prefix_def)
  next
    case False
    then show ?thesis using outcome_without_money [OF out] by simp
  qed
  note frame = this
  show "prefix (db_ledger d) (db_ledger d')" using frame by blast
  show "\<exists>s \<in> set (db_wallets d'). same_owner r s" if "r \<in> set (db_wallets d)" for r
    using frame set_wallet_row_kept [OF that] owner_kept_refl [OF that] by auto
qed

section \<open>No operation is left half way\<close>

definition settled_status :: "WagerStatus \<Rightarrow> bool" where
  "settled_status s \<longleftrightarrow> s \<in> {WagerStatusPendingReference, WagerStatusProcessed, WagerStatusRejected}"

definition settled :: "db \<Rightarrow> bool" where
  "settled d \<longleftrightarrow> (\<forall>g \<in> set (db_wagers d). settled_status (wg_status g))"

lemma settled_set_wager:
  assumes c: "distinct (map wg_id (db_wagers d))"
    and others: "\<And>g. g \<in> set (db_wagers d) \<Longrightarrow> wg_id g \<noteq> t_id t \<Longrightarrow> settled_status (wg_status g)"
    and one: "rows_affected (\<lambda>r. wg_id r = t_id t \<and> wager_open r) (db_wagers d) = 1"
    and s: "settled_status (t_status t)" and w: "db_wagers d' = db_wagers (set_wager t d)"
  shows "settled d'"
proof -
  obtain g0 where g0: "g0 \<in> set (db_wagers d)" "wg_id g0 = t_id t" "wager_open g0"
  proof -
    have "filter (\<lambda>r. wg_id r = t_id t \<and> wager_open r) (db_wagers d) \<noteq> []"
      using one by (auto simp: rows_affected_def)
    then show ?thesis using that by (auto simp: filter_empty_conv)
  qed
  let ?f = "\<lambda>g. if wg_id g = t_id t \<and> wager_open g then write_wager t g else g"
  have "settled_status (wg_status (?f g))" if "g \<in> set (db_wagers d)" for g
    using that s others [OF that] g0 distinct_map_inj [OF c that g0(1)] by (auto simp: write_wager_def)
  then have "\<forall>h \<in> ?f ` set (db_wagers d). settled_status (wg_status h)" by blast
  moreover have "set (db_wagers d') = ?f ` set (db_wagers d)"
    by (simp add: w set_wager_def update_rows_def)
  ultimately show ?thesis by (simp add: settled_def)
qed

lemma outcome_settled:
  assumes out: "outcome pg env input w t d t' d'" and c: "consistent d" and on: "working_on d w t"
    and others: "\<And>g. g \<in> set (db_wagers d) \<Longrightarrow> wg_id g \<noteq> t_id t \<Longrightarrow> settled_status (wg_status g)"
  shows "settled d'"
  using outcome_summary [OF out]
proof (elim disjE conjE)
  assume s: "d' = d" "t_status t = WagerStatusPendingReference"
  obtain g0 where g0: "g0 \<in> set (db_wagers d)" "stores_wager g0 t" using on by (auto simp: working_on_def)
  have "settled_status (wg_status g)" if "g \<in> set (db_wagers d)" for g
  proof (cases "wg_id g = t_id t")
    case True
    then have "g = g0" using wager_row_unique [OF c that g0(1)] g0(2) by (simp add: stores_wager_def)
    then show ?thesis using g0(2) s(2) by (simp add: stores_wager_def settled_status_def)
  qed (rule others [OF that])
  then show ?thesis by (simp add: settled_def s(1))
next
  assume s: "db_wagers d' = db_wagers (set_wager t' d)" "same_operation t t'"
    "t_status t' \<in> {WagerStatusPendingReference, WagerStatusProcessed, WagerStatusRejected}"
    "rows_affected (\<lambda>r. wg_id r = t_id t' \<and> wager_open r) (db_wagers d) = 1"
  show ?thesis
    by (rule settled_set_wager [OF distinct_wager_ids [OF c] _ s(4) _ s(1)])
      (use s(2,3) others in \<open>auto simp: same_operation_def settled_status_def\<close>)
qed

lemma rejected_settled:
  assumes r: "rejected pg env input code t d t' d'" and "consistent d"
    and others: "\<And>g. g \<in> set (db_wagers d) \<Longrightarrow> wg_id g \<noteq> t_id t \<Longrightarrow> settled_status (wg_status g)"
  shows "settled d'"
  by (rule settled_set_wager [OF distinct_wager_ids [OF assms(2)] _ rejected_summary(7) [OF r] _ rejected_summary(1) [OF r]])
    (use rejected_summary(2,4) [OF r] others in \<open>auto simp: same_operation_def settled_status_def\<close>)
section \<open>The use cases\<close>

lemma history_grows:
  assumes "prefix (db_ledger d) (db_ledger d')" "prefix (map ob_payload (db_outbox d)) (map ob_payload (db_outbox d'))"
    and "set (db_wagers d) \<subseteq> set (db_wagers d')" "set (db_wallets d) \<subseteq> set (db_wallets d')"
  shows "history_kept d d'"
proof (rule history_frame [OF assms(1,2)])
  show "\<exists>h \<in> set (db_wagers d'). same_identity g h \<and> (wager_open g \<or> h = g)" if "g \<in> set (db_wagers d)" for g
    using that assms(3) row_kept_refl by blast
  show "\<exists>s \<in> set (db_wallets d'). same_owner r s" if "r \<in> set (db_wallets d)" for r
    using that assms(4) owner_kept_refl by blast
qed

text \<open>Every use case keeps the tables consistent and settled and goes forward in the history.\<close>

definition sound :: "db \<Rightarrow> bool" where
  "sound d \<longleftrightarrow> consistent d \<and> settled d \<and> distinct_events d"

definition sound_step :: "db \<Rightarrow> db \<Rightarrow> bool" where
  "sound_step d d' \<longleftrightarrow> (sound d \<longrightarrow> sound d' \<and> history_kept d d')"

lemma sound_step_refl [simp]: "sound_step d d"
  by (simp add: sound_step_def)

lemma sound_step_trans: "sound_step a b \<Longrightarrow> sound_step b c \<Longrightarrow> sound_step a c"
  using history_kept_trans by (auto simp: sound_step_def)

lemma same_tables_sound_step:
  assumes "db_wallets d' = db_wallets d" "db_wagers d' = db_wagers d" "db_ledger d' = db_ledger d"
    and "map ob_payload (db_outbox d') = map ob_payload (db_outbox d)"
    and "map ob_event_id (db_outbox d') = map ob_event_id (db_outbox d)"
  shows "sound_step d d'"
proof -
  have "consistent d' = consistent d" using assms by (intro consistent_cong) simp_all
  moreover have "history_kept d d'" using assms by (intro history_grows) simp_all
  ultimately show ?thesis by (simp add: sound_step_def sound_def settled_def distinct_events_def assms(2,5))
qed

lemma processed_run_sound:
  assumes p: "prepared input t" and run: "processed_run pg env input t d w t' d'"
  shows "sound_step d d'"
  unfolding sound_step_def
proof
  assume s: "sound d"
  let ?g = "wager_row_of (db_clock d) t"
  let ?d = "d\<lparr>db_wagers := db_wagers d @ [?g]\<rparr>"
  obtain r where r: "r \<in> set (db_wallets d)" "stores_wallet r w" using run by (auto simp: processed_run_def)
  have facts: "w_id w = in_WalletID input" "w_playerID w = in_PlayerID input"
    "currency (w_balance w) = currency (in_Money input)"
    "\<not> list_ex (wager_conflict ?g) (db_wagers d)" and out: "outcome pg env input w t ?d t' d'"
    using run by (auto simp: processed_run_def)
  have c: "consistent ?d"
    by (rule consistent_add_wager [OF _ facts(4) _ r(1)])
      (use s r p facts(1-3) in \<open>simp_all add: sound_def prepared_def stores_wallet_def wager_row_of_def\<close>)
  have on: "working_on ?d w t" using r p facts(1) by (auto simp: working_on_def prepared_def)
  have "settled_status (wg_status g)" if "g \<in> set (db_wagers ?d)" "wg_id g \<noteq> t_id t" for g
    using that s by (auto simp: sound_def settled_def wager_row_of_def)
  then have "settled d'" by (rule outcome_settled [OF out c on])
  moreover have "consistent d'" by (rule outcome_consistent [OF out c on])
  moreover have "history_kept d ?d" by (rule history_grows) auto
  ultimately show "sound d' \<and> history_kept d d'"
    using history_kept_trans outcome_history [OF out] outcome_distinct [OF out] s
    by (auto simp: sound_def distinct_events_def)
qed

lemma process_operation_sound:
  "process_operation env input t (pg_repositories pg) d = (Inr result, d') \<Longrightarrow> prepared input t \<Longrightarrow>
   sound_step d d'"
  by (auto dest!: process_operation_ok intro: processed_run_sound)

lemma wager_work_sound:
  assumes run: "wager_work env input t message (pg_repositories pg) d = (Inr result, d')"
    and p: "prepared input t"
  shows "sound_step d d'"
  using run
proof (cases rule: wager_work_ok)
  case direct
  then show ?thesis using process_operation_sound p by blast
next
  case (duplicate m h)
  then show ?thesis by simp
next
  case (first m h d1 d2)
  have "sound_step d d1" and "sound_step d2 d'"
    using inbox_frame(1) [OF first(2)] inbox_frame(2) [OF first(4)] by (auto intro: same_tables_sound_step)
  then show ?thesis using process_operation_sound [OF first(3) p] sound_step_trans by blast
qed

lemma open_work_sound:
  assumes run: "open_work env w c (pg_repositories pg) d = (Inr u, d')" and v: "w_version w = 1"
  shows "sound_step d d'"
  unfolding sound_step_def
proof
  assume s: "sound d"
  have c: "consistent d'" using open_work_consistent [OF run _ v] s by (simp add: sound_def)
  show "sound d' \<and> history_kept d d'"
  proof (cases "Money_IsZero (w_balance w)")
    case True
    then have d': "d' = d\<lparr>db_wallets := db_wallets d @ [wallet_row_of w]\<rparr>" using open_work_ok(2) [OF run] by simp
    have "settled d'" "distinct_events d'" using s by (simp_all add: d' sound_def settled_def distinct_events_def)
    moreover have "history_kept d d'" by (rule history_grows) (auto simp: d')
    ultimately show ?thesis using c by (simp add: sound_def)
  next
    case False
    then obtain ope entry processed changed d1 where
      n: "NewOpeningTransaction (env_NewSHA1 env) (env_now env at_MarkProcessed) (Some w) = Inr ope"
      and em: "emits pg processed (d\<lparr>db_wallets := db_wallets d @ [wallet_row_of w],
                db_wagers := db_wagers d @ [wager_row_of (db_clock d) ope],
                db_ledger := db_ledger d @ [ledger_row_of entry]\<rparr>) d1" "emits pg changed d1 d'"
      using open_work_ok(3) [OF run] unfolding opened_run_def by blast
    have g: "db_wagers d' = db_wagers d @ [wager_row_of (db_clock d) ope]"
        "db_wallets d' = db_wallets d @ [wallet_row_of w]" "db_ledger d' = db_ledger d @ [ledger_row_of entry]"
      using emits_frame [OF em(1)] emits_frame [OF em(2)] by simp_all
    have "prefix (map ob_payload (db_outbox d)) (map ob_payload (db_outbox d'))"
      using emits_payloads [OF em(1)] emits_payloads [OF em(2)] by simp
    then have "history_kept d d'" by (intro history_grows) (auto simp: g)
    moreover have "distinct_events d'"
      using emits_distinct [OF em(2)] emits_distinct [OF em(1)] s by (simp add: sound_def distinct_events_def)
    moreover have "settled d'"
      using s NewOpeningTransaction_ok(10) [OF n]
      by (auto simp: g sound_def settled_def wager_row_of_def settled_status_def)
    ultimately show ?thesis using c by (simp add: sound_def)
  qed
qed

lemma schedule_sound:
  assumes "ScheduleReferenceRetry i n delay d = (Inr u, d')"
  shows "sound_step d d'"
proof (rule ScheduleReferenceRetry_ok [OF assms])
  fix f
  assume f: "db_wagers d' = map f (db_wagers d)" "\<And>g. same_identity g (f g)" "\<And>g. same_outcome g (f g)"
    "\<And>g. \<not> wager_open g \<Longrightarrow> f g = g" "db_wallets d' = db_wallets d" "db_ledger d' = db_ledger d"
    "db_outbox d' = db_outbox d"
  have "\<exists>h \<in> set (db_wagers d'). same_identity g h \<and> (wager_open g \<or> h = g)" if "g \<in> set (db_wagers d)" for g
    using f(1,2,4) that by (intro bexI [of _ "f g"]) auto
  then have "history_kept d d'" by (intro history_frame) (simp_all add: f(5-7) owner_kept_refl)
  moreover have "settled d \<Longrightarrow> settled d'" using f(3) by (simp add: settled_def f(1) same_outcome_def)
  moreover have "distinct_events d' = distinct_events d" by (rule distinct_events_cong [OF f(7)])
  ultimately show ?thesis using schedule_consistent [OF assms] by (simp add: sound_step_def sound_def)
qed

lemma rejected_sound:
  assumes "rejected pg env input code t d t' d'"
  shows "sound_step d d'"
  using rejected_consistent [OF _ assms] rejected_settled [OF assms] rejected_history [OF assms]
    rejected_distinct [OF assms]
  by (auto simp: sound_step_def sound_def settled_def)

lemma retry_work_sound:
  assumes run: "retry_work env policy (pg_repositories pg) d = (Inr result, d')"
  shows "sound_step d d'"
  using run
proof (cases rule: retry_work_ok)
  case idle
  then show ?thesis by simp
next
  case (resumed pending res)
  show ?thesis
    unfolding sound_step_def
  proof
    assume "sound d"
    then have c: "consistent d" by (simp add: sound_def)
    show "sound d' \<and> history_kept d d'"
      using resumed(1) c resumed(3)
    proof (cases rule: resumed_parts)
      case (exhausted t')
      then show ?thesis using rejected_sound [OF exhausted(2)] \<open>sound d\<close> by (simp add: sound_step_def)
    next
      case (attempted w d1 t' d2)
      have s1: "sound d1" "history_kept d d1"
        using schedule_sound [OF attempted(2)] \<open>sound d\<close> by (simp_all add: sound_step_def)
      then have c1: "consistent d1" by (simp add: sound_def)
      have "settled d2"
        by (rule outcome_settled [OF attempted(3) c1 attempted(4)]) (use s1(1) in \<open>simp add: sound_def settled_def\<close>)
      then have s2: "sound d2" "history_kept d d2"
        using outcome_consistent [OF attempted(3) c1 attempted(4)] outcome_history [OF attempted(3)]
          history_kept_trans [OF s1(2)] outcome_distinct [OF attempted(3)] s1(1) by (simp_all add: sound_def)
      have "d' = d2 \<or> (\<exists>t''. rejected pg env (tracing_input pending) FailureReferenceNotFound t' d2 t'' d')"
        using attempted(6) by (auto split: if_splits)
      then show ?thesis
        using s2 rejected_sound history_kept_trans unfolding sound_step_def by blast
    qed
  qed
qed

section \<open>The order of the statuses\<close>

text \<open>
  A status comes before another when the diagram of the states leads from it to the other: pending, then waiting, then
  one of the final ones, which are not comparable.
\<close>

fun status_rank :: "WagerStatus \<Rightarrow> nat" where
  "status_rank WagerStatusPending = 1"
| "status_rank WagerStatusPendingReference = 2"
| "status_rank WagerStatusProcessed = 3"
| "status_rank WagerStatusRejected = 3"
| "status_rank WagerStatusFailed = 3"
| "status_rank (WagerStatusOther _) = 0"

instantiation WagerStatus :: order
begin

definition less_eq_WagerStatus :: "WagerStatus \<Rightarrow> WagerStatus \<Rightarrow> bool" where
  "less_eq_WagerStatus s t \<longleftrightarrow> s = t \<or> status_rank s < status_rank t"

definition less_WagerStatus :: "WagerStatus \<Rightarrow> WagerStatus \<Rightarrow> bool" where
  "less_WagerStatus s t \<longleftrightarrow> status_rank s < status_rank t"

instance
  by standard (auto simp: less_eq_WagerStatus_def less_WagerStatus_def)

end

lemma settled_forward:
  assumes "settled_status (wg_status g)" and "settled_status (wg_status h)" and "wager_open g \<or> h = g"
  shows "wg_status g \<le> wg_status h"
  using assms by (auto simp: settled_status_def less_eq_WagerStatus_def wager_open_def)

end
