(* ===== verification/PublishOutbox.thy ===== *)
theory PublishOutbox
  imports Backoff History
begin

text \<open>
  \<open>internal/application/publish_outbox.go\<close> and \<open>internal/infrastructure/postgres/outbox_publisher_repository.go\<close>:
  the publication of the stored events under a lease. Each statement commits on its own, so anything may
  happen to the tables between two of them. The publisher (SQS) is a parameter.
\<close>

section \<open>The repository\<close>

record PendingEvent =
  pv_EventID :: uuid
  pv_AggregateID :: uuid
  pv_EventType :: string
  pv_CorrelationID :: string
  pv_TransactionID :: string
  pv_ProviderID :: string
  pv_Payload :: event
  pv_Attempts :: int
  pv_OccurredAt :: time
  pv_LockToken :: uuid

fun event_provider :: "event \<Rightarrow> string" where
  "event_provider (WagerTransactionProcessed _ d _) = ed_ProviderID d"
| "event_provider (WagerTransactionRejected _ d _) = ed_ProviderID d"
| "event_provider (WagerTransactionPendingReference _ d) = ed_ProviderID d"
| "event_provider (WalletBalanceChanged _ _) = ''''"

text \<open>A row nobody holds: not published, due, without a lease that still runs.\<close>

definition claimable :: "timestamptz \<Rightarrow> outbox_row \<Rightarrow> bool" where
  "claimable now r \<longleftrightarrow>
     ob_published_at r = None \<and> ob_next_attempt_at r \<le> now \<and>
     (case ob_locked_until r of None \<Rightarrow> True | Some u \<Rightarrow> u \<le> now)"

definition pending_event :: "(uuid \<Rightarrow> string) \<Rightarrow> uuid \<Rightarrow> outbox_row \<Rightarrow> PendingEvent" where
  "pending_event uuid_String token r =
     \<lparr>pv_EventID = ob_event_id r, pv_AggregateID = ob_aggregate_id r, pv_EventType = ob_event_type r,
      pv_CorrelationID = ev_CorrelationID (event_metadata_of (ob_payload r)),
      pv_TransactionID = uuid_String (event_transaction_id (ob_payload r)),
      pv_ProviderID = event_provider (ob_payload r), pv_Payload = ob_payload r,
      pv_Attempts = ob_attempts r, pv_OccurredAt = go_time (ob_occurred_at r), pv_LockToken = token\<rparr>"

text \<open>
  \<open>skipped\<close> are the rows that statements in flight hold locked, \<open>token\<close> is the fresh identifier of the lease.
\<close>

definition OutboxPublisher_Claim ::
  "(uuid \<Rightarrow> string) \<Rightarrow> uuid list \<Rightarrow> uuid \<Rightarrow> duration \<Rightarrow> (db, PendingEvent option) act" where
  "OutboxPublisher_Claim uuid_String skipped token lease d =
     (case first_by (\<lambda>r. (ob_next_attempt_at r, ob_event_id r))
             (filter (\<lambda>r. claimable (db_clock d) r \<and> ob_event_id r \<notin> set skipped) (db_outbox d)) of
        None \<Rightarrow> (Inr None, d)
      | Some candidate \<Rightarrow>
          let claim = (\<lambda>r. r\<lparr>ob_lock_token := Some token,
                             ob_locked_until := Some (db_clock d + Microseconds lease),
                             ob_attempts := min (ob_attempts r + 1) 2147483647\<rparr>)
          in (Inr (Some (pending_event uuid_String token (claim candidate))),
              d\<lparr>db_outbox := update_rows (\<lambda>r. ob_event_id r = ob_event_id candidate) claim (db_outbox d)\<rparr>))"

definition leased_by :: "db \<Rightarrow> PendingEvent \<Rightarrow> outbox_row \<Rightarrow> bool" where
  "leased_by d ev r \<longleftrightarrow>
     ob_event_id r = pv_EventID ev \<and> ob_lock_token r = Some (pv_LockToken ev) \<and> ob_published_at r = None \<and>
     (case ob_locked_until r of None \<Rightarrow> False | Some u \<Rightarrow> db_clock d < u)"

definition OutboxPublisher_MarkPublished :: "PendingEvent \<Rightarrow> (db, unit) act" where
  "OutboxPublisher_MarkPublished ev d =
     (if rows_affected (leased_by d ev) (db_outbox d) \<noteq> 1 then (Inl ErrOutboxLeaseLost, d)
      else (Inr (), d\<lparr>db_outbox := update_rows (leased_by d ev)
              (\<lambda>r. r\<lparr>ob_published_at := Some (db_clock d), ob_locked_until := None, ob_lock_token := None\<rparr>)
              (db_outbox d)\<rparr>))"

definition OutboxPublisher_Retry :: "PendingEvent \<Rightarrow> duration \<Rightarrow> (db, unit) act" where
  "OutboxPublisher_Retry ev delay d =
     (if rows_affected (leased_by d ev) (db_outbox d) \<noteq> 1 then (Inl ErrOutboxLeaseLost, d)
      else (Inr (), d\<lparr>db_outbox := update_rows (leased_by d ev)
              (\<lambda>r. r\<lparr>ob_next_attempt_at := db_clock d + Microseconds delay,
                     ob_locked_until := None, ob_lock_token := None\<rparr>)
              (db_outbox d)\<rparr>))"

section \<open>The use case\<close>

text \<open>
  The interface \<open>ports.OutboxPublisherRepository\<close>, and what the publisher promises to the next instance:
  a row that is leased or published is not handed out.
\<close>

record 's publisher_repository =
  pub_Claim :: "duration \<Rightarrow> ('s, PendingEvent option) act"
  pub_MarkPublished :: "PendingEvent \<Rightarrow> ('s, unit) act"
  pub_Retry :: "PendingEvent \<Rightarrow> duration \<Rightarrow> ('s, unit) act"

definition pg_publisher :: "(uuid \<Rightarrow> string) \<Rightarrow> uuid list \<Rightarrow> uuid \<Rightarrow> db publisher_repository" where
  "pg_publisher uuid_String skipped token =
     \<lparr>pub_Claim = OutboxPublisher_Claim uuid_String skipped token,
      pub_MarkPublished = OutboxPublisher_MarkPublished, pub_Retry = OutboxPublisher_Retry\<rparr>"

definition error_of :: "error + 'a \<Rightarrow> error option" where
  "error_of r = (case r of Inl e \<Rightarrow> Some e | Inr _ \<Rightarrow> None)"

definition errors_Join :: "error \<Rightarrow> error option \<Rightarrow> error" where
  "errors_Join e other = (case other of None \<Rightarrow> e | Some e' \<Rightarrow> Joined e e')"

text \<open>
  The result is the pair of the event and the error. \<open>publish\<close> is what the queue answers, \<open>ctx_err\<close> the state
  of the context after it, and \<open>meanwhile\<close> what the other instances did during the call.
\<close>

definition PublishOutbox_Execute ::
  "'s publisher_repository \<Rightarrow> (PendingEvent \<Rightarrow> error option) \<Rightarrow> error option \<Rightarrow> ('s \<Rightarrow> 's) \<Rightarrow> OutboxPolicy \<Rightarrow>
   's \<Rightarrow> (PendingEvent option \<times> error option) \<times> 's" where
  "PublishOutbox_Execute repository publish ctx_err meanwhile policy s =
     (case OutboxPolicy_Validate policy of
        Some e \<Rightarrow> ((None, Some e), s)
      | None \<Rightarrow>
          (case pub_Claim repository (op_LeaseDuration policy) s of
             (Inl e, s1) \<Rightarrow> ((None, Some e), s1)
           | (Inr None, s1) \<Rightarrow> ((None, None), s1)
           | (Inr (Some event), s1) \<Rightarrow>
               (let s2 = meanwhile s1
                in case publish event of
                     Some err \<Rightarrow>
                       (case ctx_err of
                          Some _ \<Rightarrow> ((Some event, Some err), s2)
                        | None \<Rightarrow>
                            (case pub_Retry repository event
                                    (OutboxPolicy_delay policy (pv_Attempts event)) s2 of
                               (r, s3) \<Rightarrow> ((Some event, Some (errors_Join err (error_of r))), s3)))
                   | None \<Rightarrow>
                       (case pub_MarkPublished repository event s2 of
                          (r, s3) \<Rightarrow> ((Some event, error_of r), s3)))))"

section \<open>The life of a row\<close>

text \<open>
  What any statement on the outbox may do to a row at time \<open>now\<close>. Only a claim may set a lease, on a claimable row;
  only the holder of a running lease may end it.
\<close>

inductive row_step :: "timestamptz \<Rightarrow> outbox_row \<Rightarrow> outbox_row \<Rightarrow> bool" for now where
  unchanged: "row_step now r r"
| claimed: "claimable now r \<Longrightarrow>
    row_step now r (r\<lparr>ob_lock_token := Some token, ob_locked_until := Some u,
                      ob_attempts := min (ob_attempts r + 1) 2147483647\<rparr>)"
| published: "ob_lock_token r = Some token \<Longrightarrow> ob_published_at r = None \<Longrightarrow> ob_locked_until r = Some u \<Longrightarrow> now < u \<Longrightarrow>
    row_step now r (r\<lparr>ob_published_at := Some now, ob_locked_until := None, ob_lock_token := None\<rparr>)"
| retried: "ob_lock_token r = Some token \<Longrightarrow> ob_published_at r = None \<Longrightarrow> ob_locked_until r = Some u \<Longrightarrow> now < u \<Longrightarrow>
    row_step now r (r\<lparr>ob_next_attempt_at := later, ob_locked_until := None, ob_lock_token := None\<rparr>)"

inductive_cases row_stepE: "row_step now r r'"

lemma outbox_first_in: "first_by k rs = Some r \<Longrightarrow> r \<in> set rs"
  by (auto simp: first_by_def split: list.splits dest: arg_cong [where f = set])

lemma row_step_identity:
  "row_step now r r' \<Longrightarrow>
   ob_event_id r' = ob_event_id r \<and> ob_payload r' = ob_payload r \<and> ob_aggregate_id r' = ob_aggregate_id r \<and>
   ob_event_type r' = ob_event_type r \<and> ob_occurred_at r' = ob_occurred_at r"
  by (elim row_stepE) simp_all

text \<open>A published row stays as it is.\<close>

lemma published_final: "row_step now r r' \<Longrightarrow> ob_published_at r \<noteq> None \<Longrightarrow> r' = r"
  by (elim row_stepE) (auto simp: claimable_def)

definition outbox_step :: "db \<Rightarrow> db \<Rightarrow> bool" where
  "outbox_step d d' \<longleftrightarrow>
     list_all2 (row_step (db_clock d)) (db_outbox d) (db_outbox d') \<and> d' = d\<lparr>db_outbox := db_outbox d'\<rparr>"

lemma update_rows_step:
  assumes "\<And>r. r \<in> set rs \<Longrightarrow> p r \<Longrightarrow> row_step now r (f r)"
  shows "list_all2 (row_step now) rs (update_rows p f rs)"
  using assms by (induction rs) (auto simp: update_rows_def intro: row_step.intros)

lemma unchanged_rows: "list_all2 (row_step now) rs rs"
  by (simp add: list_all2_same row_step.unchanged)

lemma claim_step:
  assumes "OutboxPublisher_Claim s skipped token lease d = (r, d')" and "distinct_events d"
  shows "outbox_step d d'"
proof (cases "first_by (\<lambda>r. (ob_next_attempt_at r, ob_event_id r))
             (filter (\<lambda>r. claimable (db_clock d) r \<and> ob_event_id r \<notin> set skipped) (db_outbox d))")
  case None
  then show ?thesis using assms unchanged_rows by (simp add: OutboxPublisher_Claim_def outbox_step_def)
next
  case (Some c)
  have c: "c \<in> set (db_outbox d)" "claimable (db_clock d) c" using outbox_first_in [OF Some] by auto
  have "claimable (db_clock d) r" if "r \<in> set (db_outbox d)" "ob_event_id r = ob_event_id c" for r
    using distinct_map_inj [OF assms(2) [unfolded distinct_events_def] that(1) c(1)] that(2) c(2) by simp
  then have "list_all2 (row_step (db_clock d)) (db_outbox d)
      (update_rows (\<lambda>r. ob_event_id r = ob_event_id c)
        (\<lambda>r. r\<lparr>ob_lock_token := Some token, ob_locked_until := Some (db_clock d + Microseconds lease),
              ob_attempts := min (ob_attempts r + 1) 2147483647\<rparr>) (db_outbox d))"
    by (intro update_rows_step row_step.claimed)
  then show ?thesis using assms(1) Some by (auto simp: OutboxPublisher_Claim_def outbox_step_def Let_def)
qed

lemma leased_row_step:
  assumes "leased_by d ev r"
  shows "row_step (db_clock d) r
      (r\<lparr>ob_published_at := Some (db_clock d), ob_locked_until := None, ob_lock_token := None\<rparr>)"
    and "row_step (db_clock d) r
      (r\<lparr>ob_next_attempt_at := later, ob_locked_until := None, ob_lock_token := None\<rparr>)"
proof -
  obtain u where "ob_lock_token r = Some (pv_LockToken ev)" "ob_published_at r = None"
      "ob_locked_until r = Some u" "db_clock d < u"
    using assms by (auto simp: leased_by_def split: option.splits)
  then show "row_step (db_clock d) r
      (r\<lparr>ob_published_at := Some (db_clock d), ob_locked_until := None, ob_lock_token := None\<rparr>)"
    and "row_step (db_clock d) r
      (r\<lparr>ob_next_attempt_at := later, ob_locked_until := None, ob_lock_token := None\<rparr>)"
    by (rule row_step.published, rule row_step.retried)
qed

lemma finish_step:
  "OutboxPublisher_MarkPublished ev d = (r, d') \<Longrightarrow> outbox_step d d'"
  "OutboxPublisher_Retry ev delay d = (r, d') \<Longrightarrow> outbox_step d d'"
  by (auto simp: OutboxPublisher_MarkPublished_def OutboxPublisher_Retry_def outbox_step_def
      unchanged_rows leased_row_step intro!: update_rows_step split: if_splits)

text \<open>The result of a claim is a row that was claimable, now leased with the fresh token.\<close>

lemma claim_ok:
  assumes "OutboxPublisher_Claim s skipped token lease d = (Inr (Some ev), d')"
  obtains c where "c \<in> set (db_outbox d)" "claimable (db_clock d) c" "ob_event_id c \<notin> set skipped"
    "pv_EventID ev = ob_event_id c" "pv_Payload ev = ob_payload c" "pv_LockToken ev = token"
    "pv_Attempts ev = min (ob_attempts c + 1) 2147483647"
    "db_clock d' = db_clock d"
    "\<And>r. r \<in> set (db_outbox d') \<Longrightarrow> ob_event_id r = pv_EventID ev \<Longrightarrow>
        ob_lock_token r = Some token \<and> ob_locked_until r = Some (db_clock d + Microseconds lease)"
proof (cases "first_by (\<lambda>r. (ob_next_attempt_at r, ob_event_id r))
             (filter (\<lambda>r. claimable (db_clock d) r \<and> ob_event_id r \<notin> set skipped) (db_outbox d))")
  case None
  then show ?thesis using assms by (simp add: OutboxPublisher_Claim_def)
next
  case (Some c)
  then show ?thesis
    using assms outbox_first_in [OF Some]
    by (intro that [of c]) (auto simp: OutboxPublisher_Claim_def Let_def pending_event_def update_rows_def)
qed

end
