(* ===== verification/System.thy ===== *)
theory System
  imports History PublishOutbox
begin

text \<open>
  The service as a transition system on the tables: the use cases run in transactions that may fail at
  any statement or at the commit, the publisher's statements commit on their own, and the clock of the
  server advances. Transactions on a wallet exclude each other by the lock they take first; here every
  transaction is one step. What holds in every reachable state holds at every commit.
\<close>

section \<open>Steps\<close>

inductive sys_step :: "db \<Rightarrow> db \<Rightarrow> bool" where
  open_wallet:
    "OpenWallet_Execute env ctx_err (WithinTransaction pg run) input d = (r, d') \<Longrightarrow> sys_step d d'"
| process_wager:
    "ProcessWager_Execute env ctx_err (WithinTransaction pg run) p i d = (q, d') \<Longrightarrow> sys_step d d'"
| process_message:
    "ProcessWager_ExecuteMessage env ctx_err (WithinTransaction pg run) p i m body d = (q, d') \<Longrightarrow> sys_step d d'"
| retry_references:
    "RetryReferences_Execute env (WithinTransaction pg run) policy d = (x, d') \<Longrightarrow> sys_step d d'"
| publish_claim:
    "OutboxPublisher_Claim uuid_String skipped token lease d = (c, d') \<Longrightarrow> sys_step d d'"
| publish_mark: "OutboxPublisher_MarkPublished ev d = (u, d') \<Longrightarrow> sys_step d d'"
| publish_retry: "OutboxPublisher_Retry ev delay d = (u, d') \<Longrightarrow> sys_step d d'"
| tick: "db_clock d \<le> now \<Longrightarrow> sys_step d (d\<lparr>db_clock := now\<rparr>)"

inductive reachable :: "db \<Rightarrow> bool" where
  initial: "reachable (empty_db now)"
| step: "reachable d \<Longrightarrow> sys_step d d' \<Longrightarrow> reachable d'"

inductive_cases sys_stepE: "sys_step d d'"

section \<open>Faults do not break the invariants\<close>

text \<open>Whatever fails, the tables are those of before or of the complete work.\<close>

lemma within_tables:
  assumes sim: "simulates_tx c_db (work (conn_repositories pg)) (work' (pg_repositories pg))"
    and run: "WithinTransaction pg run work d = (r, d')"
  shows "d' = d \<or> (\<exists>x. work' (pg_repositories pg) d = (Inr x, d'))"
  using WithinTransaction_outcome [where work' = work', OF sim run]
  by (auto simp: atomically_def split: prod.splits sum.splits)

lemma open_tables:
  assumes "OpenWallet_Execute env ctx_err (WithinTransaction pg run) input d = (r, d')"
  shows "d' = d \<or> (\<exists>w c u. w_version w = 1 \<and> validCurrency (currency (w_balance w)) \<and> open_work env w c (pg_repositories pg) d = (Inr u, d'))"
proof (cases ctx_err)
  case (Some e)
  then show ?thesis using assms by (simp add: OpenWallet_Execute_def act_simps)
next
  case None
  show ?thesis
  proof (cases "NewWallet (env_id env id_wallet) (env_now env at_NewWallet) (ow_PlayerID input) (ow_InitialBalance input)")
    case (Inl e)
    then show ?thesis using assms None by (simp add: OpenWallet_Execute_def act_simps)
  next
    case (Inr w)
    have v: "w_version w = 1" "validCurrency (currency (w_balance w))" using Inr by (simp_all add: NewWallet_ok_iff)
    obtain c where "act_bind (WithinTransaction pg run (open_work env w c)) (\<lambda>_. act_return w) d = (r, d')"
      using assms None Inr by (auto simp: OpenWallet_Execute_def Let_def split: if_splits)
    then obtain q where "WithinTransaction pg run (open_work env w c) d = (q, d')"
      by (auto simp: act_bind_def act_return_def split: prod.splits sum.splits)
    with ports.open_work_sim [OF pg_ports.ports_axioms]
    have "d' = d \<or> (\<exists>x. open_work env w c (pg_repositories pg) d = (Inr x, d'))"
      by (rule within_tables [where work' = "open_work env w c"])
    then show ?thesis using v by blast
  qed
qed

lemma execute_wager_tables:
  assumes "execute_wager env ctx_err (WithinTransaction pg run) p i m d = (q, d')"
  shows "d' = d \<or> (\<exists>i' t x. prepare_wager env p i = Inr (i', t) \<and>
     wager_work env i' t m (pg_repositories pg) d = (Inr x, d'))"
proof (cases ctx_err)
  case (Some e)
  then show ?thesis using assms by (simp add: execute_wager_def act_simps)
next
  case None
  show ?thesis
  proof (cases "prepare_wager env p i")
    case (Inl e)
    then show ?thesis using assms None by (simp add: execute_wager_def act_simps)
  next
    case (Inr it)
    then obtain i' t where it: "prepare_wager env p i = Inr (i', t)" by (cases it) simp
    then have "WithinTransaction pg run (wager_work env i' t m) d = (q, d')"
      using assms None by (simp add: execute_wager_def)
    with ports.wager_work_sim [OF pg_ports.ports_axioms]
    have "d' = d \<or> (\<exists>x. wager_work env i' t m (pg_repositories pg) d = (Inr x, d'))"
      by (rule within_tables [where work' = "wager_work env i' t m"])
    then show ?thesis using it by blast
  qed
qed

lemma retry_tables:
  assumes "RetryReferences_Execute env (WithinTransaction pg run) policy d = (x, d')"
  shows "d' = d \<or> (\<exists>y. retry_work env policy (pg_repositories pg) d = (Inr y, d'))"
proof (cases "ReferenceRetryPolicy_Validate policy")
  case (Some e)
  then show ?thesis using assms by (simp add: RetryReferences_Execute_def act_simps)
next
  case None
  then have "WithinTransaction pg run (retry_work env policy) d = (x, d')"
    using assms by (simp add: RetryReferences_Execute_def)
  with ports.retry_work_sim [OF pg_ports.ports_axioms] show ?thesis
    by (rule within_tables [where work' = "retry_work env policy"])
qed

lemma open_sound:
  assumes "OpenWallet_Execute env ctx_err (WithinTransaction pg run) input d = (r, d')"
  shows "sound_step d d'"
  using open_tables [OF assms] open_work_sound sound_step_refl by metis

lemma execute_wager_sound:
  assumes "execute_wager env ctx_err (WithinTransaction pg run) p i m d = (q, d')"
  shows "sound_step d d'"
  using execute_wager_tables [OF assms] wager_work_sound prepare_wager_ok(1) sound_step_refl by metis

lemma retry_sound:
  assumes "RetryReferences_Execute env (WithinTransaction pg run) policy d = (x, d')"
  shows "sound_step d d'"
  using retry_tables [OF assms] retry_work_sound sound_step_refl by metis

lemma outbox_step_sound:
  assumes "outbox_step d d'"
  shows "sound_step d d'"
proof -
  have rows: "list_all2 (row_step (db_clock d)) (db_outbox d) (db_outbox d')" and d': "d' = d\<lparr>db_outbox := db_outbox d'\<rparr>"
    using assms by (simp_all add: outbox_step_def)
  have "map ob_payload ys = map ob_payload xs \<and> map ob_event_id ys = map ob_event_id xs"
    if "list_all2 (row_step (db_clock d)) xs ys" for xs ys
    using that by (induction rule: list_all2_induct) (auto dest: row_step_identity)
  then have "map ob_payload (db_outbox d') = map ob_payload (db_outbox d)"
    "map ob_event_id (db_outbox d') = map ob_event_id (db_outbox d)" using rows by blast+
  moreover have "db_wallets d' = db_wallets d" "db_wagers d' = db_wagers d" "db_ledger d' = db_ledger d"
    by (subst d', simp)+
  ultimately show ?thesis by (intro same_tables_sound_step)
qed

text \<open>Every step of the service keeps the invariants and goes forward in the history.\<close>

theorem sys_step_sound:
  assumes "sys_step d d'"
  shows "sound_step d d'"
  using assms
proof cases
  case (publish_claim s skipped token lease c)
  then show ?thesis
    using claim_step outbox_step_sound unfolding sound_step_def sound_def by blast
next
  case (tick now)
  then show ?thesis by (intro same_tables_sound_step) simp_all
next
  case (process_message env ctx_err pg run p i m body q)
  then show ?thesis
    by (auto simp: ProcessWager_ExecuteMessage_def act_simps split: if_splits intro: execute_wager_sound)
qed (use open_sound execute_wager_sound retry_sound finish_step outbox_step_sound ProcessWager_Execute_def in metis)+

theorem reachable_sound: "reachable d \<Longrightarrow> sound d"
proof (induction rule: reachable.induct)
  case (initial now)
  then show ?case
    by (simp add: sound_def consistent_empty) (simp add: empty_db_def settled_def distinct_events_def)
next
  case (step d d')
  then show ?case using sys_step_sound unfolding sound_step_def by blast
qed

lemma reachable_consistent: "reachable d \<Longrightarrow> consistent d"
  using reachable_sound by (auto simp: sound_def)

text \<open>Any number of steps.\<close>

lemma steps_history:
  assumes "sys_step\<^sup>*\<^sup>* d d'" and "sound d"
  shows "history_kept d d' \<and> sound d'"
  using assms
proof (induction rule: rtranclp_induct)
  case (step y z)
  then show ?case using sys_step_sound [OF step(2)] history_kept_trans unfolding sound_step_def by blast
qed simp

end
