(* ===== verification/Progress.thy ===== *)
theory Progress
  imports UseCases
begin

text \<open>
  The other direction of \<open>Settlement\<close>: every outcome is taken, and a well-formed request on a readable wallet
  never gets stuck in an internal error.
\<close>

section \<open>Every outcome is a run\<close>

lemma act_bind_ok: "m s = (Inr x, s') \<Longrightarrow> f x s' = (Inr y, s'') \<Longrightarrow> act_bind m f s = (Inr y, s'')"
  by (simp add: act_bind_Inr)

lemma resolve_not_found:
  assumes "needsReference t" and "find_reference d t = Inl ErrWagerNotFound"
    and "waitForReference env (pg_repositories pg) t input d = (Inr t', d')"
  shows "resolve_operation env (pg_repositories pg) t input d = (Inr (Inl t'), d')"
  using assms by (simp add: resolve_operation_def try_find_reference act_bind_Inr act_return_apply)

lemma resolve_found:
  "needsReference t \<Longrightarrow> find_reference d t = Inr ref \<Longrightarrow>
   resolve_operation env (pg_repositories pg) t input d = judge_reference env (pg_repositories pg) t input ref d"
  by (simp add: resolve_operation_def try_find_reference)

lemma ResolveReference_error:
  "canChange t = None \<Longrightarrow> validateReference t p = Some e \<Longrightarrow> ResolveReference now t p = Inl e"
  by (simp add: ResolveReference_def)

lemma resolve_rejects:
  assumes "canChange t = None" and "needsReference t" and "find_reference d t = Inr ref"
    and "validateReference t (Some ref) = Some e"
    and "e = ErrReferenceNotProcessed \<and> IsTerminal ref \<and> code = FailureReferenceUnsuccessful \<or>
         e = ErrInvalidWagerReference \<and> code = FailureInvalidReference"
    and "rejected pg env input code t d t' d'"
  shows "resolve_operation env (pg_repositories pg) t input d = (Inr (Inl t'), d')"
  using assms(5,6)
  by (auto simp: resolve_found [OF assms(2,3)] judge_reference_def ResolveReference_error [OF assms(1,4)]
      rejectWager_then)

lemma resolve_goes_on:
  assumes "resolves env d t t1 reference"
  shows "resolve_operation env (pg_repositories pg) t input d = (Inr (Inr (t1, reference)), d)"
proof (cases "needsReference t")
  case True
  then obtain ref where r: "find_reference d t = Inr ref" "reference = Some ref"
      "ResolveReference (env_now env at_ResolveReference) t (Some ref) = Inr t1"
      "t_kind t = WagerKindRefund \<or> t_kind t = WagerKindRollback \<longrightarrow> \<not> reversed_in d (t_id ref)"
    using assms by (auto simp: resolves_def)
  then have "t_kind t1 = t_kind t" using resolves_kind [OF assms] by simp
  then show ?thesis
    using r by (simp add: resolve_found [OF True] judge_reference_def HasSuccessfulReversal_bind act_return_apply)
qed (use assms in \<open>simp add: resolves_def resolve_operation_def act_return_apply\<close>)

lemma resolve_already_reversed:
  assumes "needsReference t" and "find_reference d t = Inr ref"
    and "ResolveReference (env_now env at_ResolveReference) t (Some ref) = Inr t1"
    and "t_kind t = WagerKindRefund \<or> t_kind t = WagerKindRollback" and "reversed_in d (t_id ref)"
    and "rejected pg env input FailureAlreadyReversed t1 d t' d'"
  shows "resolve_operation env (pg_repositories pg) t input d = (Inr (Inl t'), d')"
proof -
  have "t_kind t1 = t_kind t" using assms(3) by (auto simp: ResolveReference_ok_iff)
  then show ?thesis
    using assms(3-6)
    by (simp add: resolve_found [OF assms(1,2)] judge_reference_def HasSuccessfulReversal_bind rejectWager_then)
qed

lemma resolve_waits:
  assumes "canChange t = None" and "reference_awaited d t"
    and "waitForReference env (pg_repositories pg) t input d = (Inr t', d')"
  shows "resolve_operation env (pg_repositories pg) t input d = (Inr (Inl t'), d')"
proof -
  have n: "needsReference t" using assms(2) by (simp add: reference_awaited_def)
  show ?thesis
  proof (cases "find_reference d t = Inl ErrWagerNotFound")
    case False
    then obtain ref where ref: "find_reference d t = Inr ref"
        "validateReference t (Some ref) = Some ErrReferenceNotProcessed" "\<not> IsTerminal ref"
      using assms(2) by (auto simp: reference_awaited_def)
    show ?thesis
      using assms(3) ref(3)
      by (simp add: resolve_found [OF n ref(1)] judge_reference_def ResolveReference_error [OF assms(1) ref(2)]
          act_bind_Inr act_return_apply)
  qed (use n assms(3) resolve_not_found in blast)
qed

lemma stops_at:
  "resolve_operation env (pg_repositories pg) t input d = (Inr (Inl t'), d') \<Longrightarrow>
   processWager env (pg_repositories pg) w t input d = (Inr t', d')"
  by (simp add: processWager_def act_bind_Inr act_return_apply)

lemma goes_on:
  "resolves env d t t1 reference \<Longrightarrow>
   processWager env (pg_repositories pg) w t input d = settle_operation env (pg_repositories pg) w input t1 reference d"
  by (simp add: processWager_def act_bind_Inr resolve_goes_on)

lemma record_outcome_runs:
  assumes "MarkProcessed (env_now env at_MarkProcessed) t (w_balance w) = Inr t'"
    and "rows_affected (\<lambda>r. wg_id r = t_id t' \<and> wager_open r) (db_wagers d) = 1"
    and "NewWagerTransactionProcessed (env_id env id_processed) t' (in_CorrelationID input)
           (in_CausationID input) = Inr ev"
    and "emits pg ev (set_wager t' d) d1"
    and "t_kind t' = WagerKindLoss \<Longrightarrow> d' = d1"
    and "t_kind t' \<noteq> WagerKindLoss \<Longrightarrow> \<exists>entry ev'.
        NewWalletLedgerEntry (env_id env id_entry) (env_now env at_NewWalletLedgerEntry) (w_id w) (t_id t')
          dir (t_money t') b (w_balance w) = Inr entry \<and>
        NewWalletBalanceChanged (env_id env id_changed) t' (Some entry) (w_version w)
          (in_CorrelationID input) (in_CausationID input) = Inr ev' \<and>
        emits pg ev' (add_ledger entry d1) d'"
  shows "record_outcome env (pg_repositories pg) dir b w t input d = (Inr t', d')"
  using assms
  by (auto simp: record_outcome_def act_bind_ok_iff WagerRepository_Update_ok_iff emits_def)

lemma outcome_runs:
  assumes "canChange t = None" and "outcome pg env input w t d t' d'"
  shows "processWager env (pg_repositories pg) w t input d = (Inr t', d')"
  using assms(2)
proof cases
  case still_waiting
  then show ?thesis
    by (intro stops_at resolve_waits [OF assms(1)]) (simp_all add: waitForReference_ok_iff)
next
  case (waits ev)
  then show ?thesis
    by (intro stops_at resolve_waits [OF assms(1)]) (auto simp: waitForReference_ok_iff)
next
  case (unsuccessful_reference ref)
  then show ?thesis by (intro stops_at resolve_rejects [OF assms(1)]) auto
next
  case (invalid_reference ref)
  then show ?thesis by (intro stops_at resolve_rejects [OF assms(1)]) auto
next
  case (already_reversed ref t1)
  then show ?thesis by (intro stops_at resolve_already_reversed)
next
  case (insufficient t1 reference)
  then show ?thesis
    using resolves_kind [OF insufficient(1)]
    by (simp add: goes_on settle_operation_def movement_def [symmetric] rejectWager_ok_iff)
next
  case (overflow t1 reference)
  then show ?thesis
    using resolves_kind [OF overflow(1)]
    by (simp add: goes_on settle_operation_def movement_def [symmetric] rejectWager_ok_iff)
next
  case (loses t1 reference ev)
  then have "t_kind t1 = WagerKindLoss" "t_kind t' = WagerKindLoss"
    using resolves_kind [OF loses(1)] by (auto simp: MarkProcessed_ok_iff)
  then show ?thesis
    using record_outcome_runs [OF loses(3-6)] by (simp add: goes_on [OF loses(1)] settle_operation_def)
next
  case (moves t1 reference w' ev d1 entry ev')
  then have k: "t_kind t1 \<noteq> WagerKindLoss" "t_kind t' \<noteq> WagerKindLoss"
    using resolves_kind [OF moves(1)] by (auto simp: MarkProcessed_ok_iff)
  have "rows_affected (\<lambda>r. wg_id r = t_id t' \<and> wager_open r) (db_wagers (set_wallet w' d)) = 1"
    using moves(6) by (simp add: set_wallet_def)
  then have "record_outcome env (pg_repositories pg) (movement_direction t1 reference) (w_balance w) w' t1 input
      (set_wallet w' d) = (Inr t', d')"
    using k moves(9-11) by (intro record_outcome_runs [OF moves(5) _ moves(7,8)]) auto
  then show ?thesis
    using k moves(3,4)
    by (auto simp: goes_on [OF moves(1)] settle_operation_def movement_def [symmetric] act_bind_ok_iff
        WalletRepository_Update_ok_iff)
qed

section \<open>Events are stored\<close>

text \<open>A constructed event that the outbox accepts under a fresh identifier.\<close>

definition storable :: "event \<Rightarrow> uuid \<Rightarrow> bool" where
  "storable ev i \<longleftrightarrow>
     ev_EventID (event_metadata_of ev) = i \<and> ev_AggregateID (event_metadata_of ev) \<noteq> uuid_Nil \<and>
     ev_OccurredAt (event_metadata_of ev) \<noteq> 0 \<and> (\<forall>m \<in> set (event_monies ev). validCurrency (currency m))"

lemma document_metadata [simp]:
  "ev_EventID (event_metadata_of (event_document ev)) = ev_EventID (event_metadata_of ev)"
  "ev_AggregateID (event_metadata_of (event_document ev)) = ev_AggregateID (event_metadata_of ev)"
  "ev_OccurredAt (event_metadata_of (event_document ev)) = ev_OccurredAt (event_metadata_of ev)"
  by (cases ev; simp add: coerce_metadata_def)+

lemma storable_emits:
  assumes "storable ev i" and "i \<noteq> uuid_Nil" and "i \<notin> ob_event_id ` set (db_outbox d)"
  shows "\<exists>d'. emits pg ev d d' \<and> ob_event_id ` set (db_outbox d') = insert i (ob_event_id ` set (db_outbox d))"
proof -
  have "find (\<lambda>ob. ob_event_id ob = i) (db_outbox d) = None"
    using assms(3) by (auto simp: find_None_iff)
  then show ?thesis
    using assms
    by (auto simp: emits_def OutboxRepository_Create_def Event_MarshalJSON_def storable_def EventID_def
        list_ex_iff Time_IsZero_def outbox_row_of_def Let_def)
qed

lemma processed_event:
  assumes "wager_valid t" and "t_status t = WagerStatusProcessed" and "t_updatedAt t \<noteq> 0"
    and "\<not> TrimSpace_is_empty corr"
  shows "\<exists>ev. NewWagerTransactionProcessed i t corr caus = Inr ev \<and> storable ev i"
proof -
  have "t_walletID t \<noteq> uuid_Nil" "validCurrency (currency (t_money t))"
    using assms(1) wager_valid_currency by (auto simp: wager_valid_iff)
  moreover have "\<exists>b. t_resultBalance t = Some b \<and> currency b = currency (t_money t)"
    using assms(1,2)
    by (auto simp: wager_valid_iff validate_result_balance_def validate_status_def split: if_splits option.splits)
  ultimately show ?thesis
    using assms
    by (clarsimp simp: NewWagerTransactionProcessed_def newEventMetadata_def Time_IsZero_def storable_def newWagerEventData_def)
qed

lemma rejected_event:
  assumes "wager_valid t" and "t_status t = WagerStatusRejected" and "t_updatedAt t \<noteq> 0"
    and "\<not> TrimSpace_is_empty corr"
  shows "\<exists>ev. NewWagerTransactionRejected i t corr caus = Inr ev \<and> storable ev i"
proof -
  have "t_walletID t \<noteq> uuid_Nil" using assms(1) by (simp add: wager_valid_iff)
  then show ?thesis
    using assms wager_valid_currency [OF assms(1)]
    by (simp add: NewWagerTransactionRejected_def newEventMetadata_def Time_IsZero_def storable_def newWagerEventData_def)
qed

lemma waiting_event:
  assumes "wager_valid t" and "t_status t = WagerStatusPendingReference" and "t_updatedAt t \<noteq> 0"
    and "\<not> TrimSpace_is_empty corr"
  shows "\<exists>ev. NewWagerTransactionPendingReference i t corr caus = Inr ev \<and> storable ev i"
proof -
  have "t_walletID t \<noteq> uuid_Nil" using assms(1) by (simp add: wager_valid_iff)
  then show ?thesis
    using assms wager_valid_currency [OF assms(1)]
    by (simp add: NewWagerTransactionPendingReference_def newEventMetadata_def Time_IsZero_def storable_def newWagerEventData_def)
qed

lemma changed_event:
  assumes t: "wager_valid t" "t_status t = WagerStatusProcessed" "t_updatedAt t \<noteq> 0" "t_kind t \<noteq> WagerKindOpening"
    and e: "NewWalletLedgerEntry j now (t_walletID t) (t_id t) dir (t_money t) b a = Inr entry"
    and nz: "j \<noteq> uuid_Nil" "now \<noteq> 0" and res: "t_resultBalance t = Some a"
    and dir: "direction_of_kind (t_kind t) dir" and nn: "0 \<le> cents_of b" "0 \<le> cents_of a" and v: "1 < sint v"
    and c: "\<not> TrimSpace_is_empty corr"
  shows "\<exists>ev. NewWalletBalanceChanged i t (Some entry) v corr caus = Inr ev \<and> storable ev i"
proof -
  have en: "entry_balanced dir (t_money t) b a" "entry = \<lparr>e_id = j, e_walletID = t_walletID t, e_transactionID = t_id t,
      e_direction = dir, e_money = t_money t, e_balanceBefore = b, e_balanceAfter = a, e_createdAt = now\<rparr>"
    using e by (auto simp: NewWalletLedgerEntry_ok_iff)
  have parts: "LedgerDirection_IsValid dir" "validCurrency (currency (t_money t))" "0 < cents_of (t_money t)"
      "currency b = currency (t_money t)" "currency a = currency (t_money t)"
      "cents_of a = cents_of b + direction_sign dir * cents_of (t_money t)"
    using en(1) unfolding entry_balanced_def by blast+
  have bal: "validateLedgerBalance dir (t_money t) b a = None"
    using validateLedgerBalance_None [OF parts(4) [symmetric] parts(5) [symmetric] parts(2), of dir] parts(1,6) by blast
  have money: "Money_IsPositive (t_money t)" "Money_Validate b = None" "Money_Validate a = None"
      "\<not> amount b <s 0" "\<not> amount a <s 0" "\<not> v <s 1" "\<not> v <s 2"
    using parts(2-5) nn v by (simp_all add: Money_IsPositive_iff word_sless_alt)
  have wid: "t_walletID t \<noteq> uuid_Nil" using t(1) by (simp add: wager_valid_iff)
  obtain m where m: "newEventMetadata i ''WalletBalanceChanged'' (t_walletID t) (t_updatedAt t) corr caus = Inr m"
      "ev_EventID m = i" "ev_AggregateID m = t_walletID t" "ev_OccurredAt m = t_updatedAt t"
    using wid t(3) c by (simp add: newEventMetadata_def Time_IsZero_def)
  have "NewWalletBalanceChanged i t (Some entry) v corr caus = Inr (WalletBalanceChanged m
      \<lparr>eb_WalletID = t_walletID t, eb_TransactionID = t_id t, eb_Direction = dir, eb_Money = t_money t,
       eb_BalanceBefore = b, eb_BalanceAfter = a, eb_WalletVersion = v\<rparr>)"
    using bal dir t(4) en(2)
    by (cases "t_kind t"; clarsimp simp: direction_of_kind_def)
      (simp_all add: NewWalletBalanceChanged_def t nz Time_IsZero_def money res m)
  then show ?thesis
    using parts(2,4,5) wid t(3) by (simp add: storable_def m)
qed

section \<open>A well-formed request gets an answer\<close>

text \<open>
  What the surroundings owe to a request: clocks that are not behind the creation of the operation, fresh
  non-nil identifiers, and a correlation.
\<close>

definition fresh_ids :: "env \<Rightarrow> db \<Rightarrow> bool" where
  "fresh_ids env d \<longleftrightarrow>
     (\<forall>s. env_id env s \<noteq> uuid_Nil) \<and> env_id env id_processed \<noteq> env_id env id_changed \<and>
     (\<forall>s \<in> {id_processed, id_rejected, id_waiting, id_changed}. env_id env s \<notin> ob_event_id ` set (db_outbox d))"

definition ready :: "env \<Rightarrow> ProcessWagerInput \<Rightarrow> time \<Rightarrow> db \<Rightarrow> bool" where
  "ready env input created d \<longleftrightarrow>
     0 < created \<and> (\<forall>s. created \<le> env_now env s) \<and> fresh_ids env d \<and>
     \<not> TrimSpace_is_empty (in_CorrelationID input)"

definition readable :: "db \<Rightarrow> bool" where
  "readable d \<longleftrightarrow> (\<forall>g \<in> set (db_wagers d). \<exists>t. scanWager g = Inr t)"

definition usable_wallet :: "db \<Rightarrow> wallet \<Rightarrow> bool" where
  "usable_wallet d w \<longleftrightarrow>
     wallet_wf w \<and> w_version w \<noteq> MaxInt64 \<and> (\<exists>r \<in> set (db_wallets d). stores_wallet r w)"

definition stored_open :: "db \<Rightarrow> wager_transaction \<Rightarrow> bool" where
  "stored_open d t \<longleftrightarrow> rows_affected (\<lambda>r. wg_id r = t_id t \<and> wager_open r) (db_wagers d) = 1"

lemma failure_codes_not_blank [simp]:
  "\<not> TrimSpace_is_empty FailureInsufficientBalance" "\<not> TrimSpace_is_empty FailureReversalInsufficientBalance"
  "\<not> TrimSpace_is_empty FailureInvalidReference" "\<not> TrimSpace_is_empty FailureReferenceUnsuccessful"
  "\<not> TrimSpace_is_empty FailureAlreadyReversed" "\<not> TrimSpace_is_empty FailureMoneyOverflow"
  "\<not> TrimSpace_is_empty FailureReferenceNotFound"
  unfolding failure_codes by code_simp+

lemma rejected_runs:
  assumes r: "ready env input (t_createdAt t) d" and v: "wager_valid t" "\<not> IsTerminal t" and o1: "stored_open d t"
    and c: "\<not> TrimSpace_is_empty code"
  shows "\<exists>t' d'. rejected pg env input code t d t' d'"
proof -
  let ?t = "t\<lparr>t_status := WagerStatusRejected, t_failureCode := Some code, t_updatedAt := env_now env at_Reject\<rparr>"
  have t: "Wager_Reject (env_now env at_Reject) t code = Inr ?t" using v c by (simp add: Wager_Reject_ok_iff)
  have now: "t_createdAt t \<le> env_now env at_Reject" "env_now env at_Reject \<noteq> 0"
    using r by (auto simp: ready_def dest: spec [where x = at_Reject])
  obtain ev where ev: "NewWagerTransactionRejected (env_id env id_rejected) ?t (in_CorrelationID input)
      (in_CausationID input) = Inr ev" "storable ev (env_id env id_rejected)"
    using rejected_event [of ?t "in_CorrelationID input" "env_id env id_rejected" "in_CausationID input"]
      Wager_Reject_valid [OF t now(1)] now(2) r by (auto simp: ready_def)
  have "env_id env id_rejected \<notin> ob_event_id ` set (db_outbox (set_wager ?t d))"
    using r by (simp add: ready_def fresh_ids_def set_wager_def)
  then obtain d' where "emits pg ev (set_wager ?t d) d'"
    using storable_emits [OF ev(2), of "set_wager ?t d" pg] r by (auto simp: ready_def fresh_ids_def)
  then show ?thesis using t ev(1) o1 by (auto simp: rejected_def stored_open_def)
qed

lemma find_reference_readable:
  "readable d \<Longrightarrow> find_reference d t = Inl ErrWagerNotFound \<or> (\<exists>ref. find_reference d t = Inr ref)"
  by (auto simp: find_reference_def WagerRepository_FindByExternalID_def query_wager_def readable_def
      split: option.split dest!: find_SomeD)

lemma loses_runs:
  assumes r: "ready env input (t_createdAt t1) d" and v: "wager_valid t1" "\<not> IsTerminal t1" and o1: "stored_open d t1"
    and w: "wallet_wf w" "currency (w_balance w) = currency (t_money t1)" and k: "t_kind t1 \<noteq> WagerKindOpening"
    and ref: "needsReference t1 \<longrightarrow> t_referenceTransactionID t1 \<noteq> None"
  obtains t' ev d' where "MarkProcessed (env_now env at_MarkProcessed) t1 (w_balance w) = Inr t'"
    "rows_affected (\<lambda>r. wg_id r = t_id t' \<and> wager_open r) (db_wagers d) = 1"
    "NewWagerTransactionProcessed (env_id env id_processed) t' (in_CorrelationID input)
       (in_CausationID input) = Inr ev"
    "emits pg ev (set_wager t' d) d'" "wager_valid t'" "t_updatedAt t' \<noteq> 0"
    "ob_event_id ` set (db_outbox d') = insert (env_id env id_processed) (ob_event_id ` set (db_outbox d))"
proof -
  let ?t = "t1\<lparr>t_status := WagerStatusProcessed, t_resultBalance := Some (w_balance w),
      t_updatedAt := env_now env at_MarkProcessed\<rparr>"
  have t: "MarkProcessed (env_now env at_MarkProcessed) t1 (w_balance w) = Inr ?t"
    using v w k ref by (auto simp: MarkProcessed_ok_iff wallet_wf_def)
  have now: "t_createdAt t1 \<le> env_now env at_MarkProcessed" "env_now env at_MarkProcessed \<noteq> 0"
    using r by (auto simp: ready_def dest: spec [where x = at_MarkProcessed])
  have v': "wager_valid ?t" by (rule MarkProcessed_valid [OF t now(1)])
  obtain ev where ev: "NewWagerTransactionProcessed (env_id env id_processed) ?t (in_CorrelationID input)
      (in_CausationID input) = Inr ev" "storable ev (env_id env id_processed)"
    using processed_event [of ?t "in_CorrelationID input" "env_id env id_processed" "in_CausationID input"] v' now(2) r by (auto simp: ready_def)
  have out: "db_outbox (set_wager ?t d) = db_outbox d" by (simp add: set_wager_def)
  have "env_id env id_processed \<notin> ob_event_id ` set (db_outbox (set_wager ?t d))"
    using r by (simp add: ready_def fresh_ids_def out)
  then obtain d' where "emits pg ev (set_wager ?t d) d'"
      "ob_event_id ` set (db_outbox d') = insert (env_id env id_processed) (ob_event_id ` set (db_outbox d))"
    using storable_emits [OF ev(2), of "set_wager ?t d" pg] r by (auto simp: ready_def fresh_ids_def out)
  then show ?thesis using that [OF t _ ev(1)] o1 v' now(2) by (simp add: stored_open_def)
qed

lemma movement_cases:
  assumes w: "wallet_wf w" "w_version w \<noteq> MaxInt64" and m: "0 < cents_of m" "currency (w_balance w) = currency m"
  obtains (moved) w' where "movement env dir w m = Inr w'"
  | (insufficient) "movement env dir w m = Inl ErrInsufficientBalance"
  | (overflow) "movement env dir w m = Inl ErrMoneyOverflow"
proof -
  have mv: "movable w m" using w m by (simp add: movable_def)
  show ?thesis
  proof (cases "dir = LedgerDirectionDebit")
    case True
    then show ?thesis
      using Debit_total [OF mv, of "env_now env at_wallet_movement"]
        Debit_insufficient [OF mv, of "env_now env at_wallet_movement"] moved insufficient
      by (cases "cents_of m \<le> cents_of (w_balance w)") (auto simp: movement_def)
  next
    case False
    then show ?thesis
      using Credit_total [OF mv, of "env_now env at_wallet_movement"]
        Credit_overflow [OF mv, of "env_now env at_wallet_movement"] moved overflow
      by (cases "in_i64 (cents_of (w_balance w) + cents_of m)") (auto simp: movement_def)
  qed
qed

lemma movement_balanced:
  assumes "movement env dir w m = Inr w'" and "LedgerDirection_IsValid dir"
  shows "entry_balanced dir m (w_balance w) (w_balance w')"
  using assms
  by (auto simp: movement_def Debit_ok_iff Credit_ok_iff entry_balanced_def movable_def moved_def direction_valid_iff
      direction_sign_def wallet_wf_def)

lemma moves_runs:
  assumes r: "ready env input (t_createdAt t1) d" and v: "wager_valid t1" "\<not> IsTerminal t1" and o1: "stored_open d t1"
    and w: "usable_wallet d w" "w_id w = t_walletID t1" "currency (w_balance w) = currency (t_money t1)"
    and k: "t_kind t1 \<noteq> WagerKindOpening" "t_kind t1 \<noteq> WagerKindLoss" and k': "t_kind t1 = t_kind t"
    and ref: "needsReference t1 \<longrightarrow> t_referenceTransactionID t1 \<noteq> None"
    and res: "resolves env d t t1 reference"
    and mv: "movement env (movement_direction t1 reference) w (t_money t1) = Inr w'"
  shows "\<exists>t' d'. outcome pg env input w t d t' d'"
proof -
  let ?dir = "movement_direction t1 reference"
  note m = movement_moved [OF mv]
  have r2: "ready env input (t_createdAt t1) (set_wallet w' d)" and o2: "stored_open (set_wallet w' d) t1"
    using r o1 by (simp_all add: ready_def fresh_ids_def stored_open_def set_wallet_def)
  obtain t' ev d1 where p: "MarkProcessed (env_now env at_MarkProcessed) t1 (w_balance w') = Inr t'"
    "rows_affected (\<lambda>r. wg_id r = t_id t' \<and> wager_open r) (db_wagers (set_wallet w' d)) = 1"
    "NewWagerTransactionProcessed (env_id env id_processed) t' (in_CorrelationID input)
       (in_CausationID input) = Inr ev"
    "emits pg ev (set_wager t' (set_wallet w' d)) d1" "wager_valid t'" "t_updatedAt t' \<noteq> 0"
    "ob_event_id ` set (db_outbox d1) = insert (env_id env id_processed) (ob_event_id ` set (db_outbox (set_wallet w' d)))"
    by (rule loses_runs [OF r2 v o2 m(7) _ k(1) ref]) (use m(3) w(3) in auto)
  have t': "t_id t' = t_id t1" "t_money t' = t_money t1" "t_walletID t' = t_walletID t1" "t_kind t' = t_kind t1"
      "t_resultBalance t' = Some (w_balance w')" "t_status t' = WagerStatusProcessed"
    using p(1) by (auto simp: MarkProcessed_ok_iff)
  have rows: "rows_affected (\<lambda>r. wg_id r = t_id t' \<and> wager_open r) (db_wagers d) = 1"
    using p(2) by (simp add: set_wallet_def)
  obtain row where row: "row \<in> set (db_wallets d)" "stores_wallet row w" using w(1) by (auto simp: usable_wallet_def)
  then have upd: "rows_affected (\<lambda>r. wr_id r = w_id w' \<and> wr_version r = w_version w' - 1) (db_wallets d) \<noteq> 0"
    using m(1,4) by (auto simp: rows_affected_def stores_wallet_def filter_empty_conv)
  have dir: "direction_of_kind (t_kind t') ?dir"
    using movement_direction_of_kind [OF v(1) k(2)] t'(4) by simp
  have nz: "w_id w' \<noteq> uuid_Nil" "t_id t' \<noteq> uuid_Nil" using v(1) w(2) m(1) t'(1) by (auto simp: wager_valid_iff)
  obtain entry where entry: "NewWalletLedgerEntry (env_id env id_entry) (env_now env at_NewWalletLedgerEntry) (w_id w')
      (t_id t') ?dir (t_money t') (w_balance w) (w_balance w') = Inr entry"
    using movement_balanced [OF mv direction_of_kind_valid [OF dir]] nz t'(2) by (simp add: NewWalletLedgerEntry_ok_iff)
  have now: "env_now env at_NewWalletLedgerEntry \<noteq> 0" using r by (auto simp: ready_def dest: spec [where x = at_NewWalletLedgerEntry])
  have nn: "0 \<le> cents_of (w_balance w)" "0 \<le> cents_of (w_balance w')" "1 < sint (w_version w')"
    using m(5,6,7) by (auto simp: wallet_wf_def)
  obtain ev' where ev': "NewWalletBalanceChanged (env_id env id_changed) t' (Some entry) (w_version w')
      (in_CorrelationID input) (in_CausationID input) = Inr ev'" "storable ev' (env_id env id_changed)"
    using changed_event [OF p(5) t'(6) p(6) _ entry [unfolded m(1) w(2) t'(3) [symmetric]] _ now t'(5) dir nn,
        of "in_CorrelationID input" "env_id env id_changed" "in_CausationID input"] k(1) t'(4) r
    by (auto simp: ready_def fresh_ids_def)
  have "env_id env id_changed \<notin> ob_event_id ` set (db_outbox (add_ledger entry d1))"
    using p(7) r by (auto simp: add_ledger_def set_wallet_def ready_def fresh_ids_def)
  then obtain d2 where "emits pg ev' (add_ledger entry d1) d2"
    using storable_emits [OF ev'(2), of "add_ledger entry d1" pg] r by (auto simp: ready_def fresh_ids_def)
  then show ?thesis
    using outcome.moves [OF res _ mv upd p(1) rows p(3,4) entry ev'(1)] k(2) k' by auto
qed

text \<open>From a resolved operation.\<close>

lemma settlement_progress:
  assumes r: "ready env input (t_createdAt t) d" and v: "wager_valid t" "\<not> IsTerminal t" and o1: "stored_open d t"
    and w: "usable_wallet d w" "w_id w = t_walletID t" "currency (w_balance w) = currency (t_money t)"
    and k: "t_kind t \<noteq> WagerKindOpening" and res: "resolves env d t t1 reference"
  shows "\<exists>t' d'. outcome pg env input w t d t' d'"
proof -
  have same: "same_operation t t1" "t_status t1 = t_status t" by (rule resolves_same [OF res])+
  have fields: "t_id t1 = t_id t" "t_createdAt t1 = t_createdAt t" "t_walletID t1 = t_walletID t"
      "t_money t1 = t_money t" "t_kind t1 = t_kind t"
    using same(1) by (simp_all add: same_operation_def)
  have now: "t_createdAt t \<le> env_now env at_ResolveReference" using r by (simp add: ready_def)
  have resolved: "t1 = t \<and> \<not> needsReference t \<or>
      (\<exists>p. ResolveReference (env_now env at_ResolveReference) t p = Inr t1)"
    using res by (auto simp: resolves_def split: if_splits)
  then have v1: "wager_valid t1" using v(1) ResolveReference_valid [OF _ now] by blast
  have ref: "needsReference t1 \<longrightarrow> t_referenceTransactionID t1 \<noteq> None"
    using resolved by (auto simp: ResolveReference_ok_iff needsReference_def)
  have t1: "\<not> IsTerminal t1" using v(2) same(2) by (simp add: IsTerminal_def)
  have r1: "ready env input (t_createdAt t1) d" "stored_open d t1" using r o1 fields by (simp_all add: stored_open_def)
  have wf: "wallet_wf w" "w_version w \<noteq> MaxInt64" using w(1) by (simp_all add: usable_wallet_def)
  show ?thesis
  proof (cases "t_kind t = WagerKindLoss")
    case True
    obtain t' ev d' where "MarkProcessed (env_now env at_MarkProcessed) t1 (w_balance w) = Inr t'"
      "rows_affected (\<lambda>r. wg_id r = t_id t' \<and> wager_open r) (db_wagers d) = 1"
      "NewWagerTransactionProcessed (env_id env id_processed) t' (in_CorrelationID input)
         (in_CausationID input) = Inr ev" "emits pg ev (set_wager t' d) d'"
      by (rule loses_runs [OF r1(1) v1 t1 r1(2) wf(1) _ _ ref]) (use w(3) k fields in auto)
    then show ?thesis using outcome.loses [OF res True] by blast
  next
    case False
    have pos: "0 < cents_of (t_money t1)" using wager_valid_amount [OF v1] False fields by simp
    have cur: "currency (w_balance w) = currency (t_money t1)" using w(3) fields by simp
    have rej: "\<exists>t' d'. rejected pg env input code t1 d t' d'" if "\<not> TrimSpace_is_empty code" for code
      by (rule rejected_runs [OF r1(1) v1 t1 r1(2) that])
    show ?thesis
    proof (cases rule: movement_cases [OF wf pos cur, of env "movement_direction t1 reference"])
      case moved: (1 w')
      show ?thesis
        by (rule moves_runs [OF r1(1) v1 t1 r1(2) w(1) _ cur _ _ fields(5) ref res moved])
          (use w(2) k False fields in simp_all)
    next
      case insufficient: 2
      obtain t' d' where "rejected pg env input (if t_kind t = WagerKindRollback then FailureReversalInsufficientBalance
          else FailureInsufficientBalance) t1 d t' d'"
        using rej failure_codes_not_blank by metis
      then show ?thesis using outcome.insufficient [OF res False insufficient] by blast
    next
      case overflow: 3
      then show ?thesis using outcome.overflow [OF res False overflow] rej failure_codes_not_blank by blast
    qed
  qed
qed

lemma waiting_runs:
  assumes r: "ready env input (t_createdAt t) d" and v: "wager_valid t" "\<not> IsTerminal t" and o1: "stored_open d t"
    and first: "t_status t = WagerStatusPending \<longrightarrow> t_referenceTransactionID t = None" and a: "reference_awaited d t"
  shows "\<exists>t' d'. outcome pg env input w t d t' d'"
proof (cases "t_status t = WagerStatusPendingReference")
  case True
  then show ?thesis using outcome.still_waiting [OF a] by blast
next
  case False
  let ?t = "t\<lparr>t_status := WagerStatusPendingReference, t_updatedAt := env_now env at_MarkPendingReference\<rparr>"
  have s: "t_status t = WagerStatusPending"
    using False v not_terminal_valid [OF v(1)] by auto
  then have t: "MarkPendingReference (env_now env at_MarkPendingReference) t = Inr ?t"
    using v(1) first a by (simp add: MarkPendingReference_ok_iff reference_awaited_def)
  have now: "t_createdAt t \<le> env_now env at_MarkPendingReference" "env_now env at_MarkPendingReference \<noteq> 0"
    using r by (auto simp: ready_def dest: spec [where x = at_MarkPendingReference])
  obtain ev where ev: "NewWagerTransactionPendingReference (env_id env id_waiting) ?t (in_CorrelationID input)
      (in_CausationID input) = Inr ev" "storable ev (env_id env id_waiting)"
    using waiting_event [of ?t "in_CorrelationID input" "env_id env id_waiting" "in_CausationID input"]
      MarkPendingReference_valid [OF t now(1)] now(2) r by (auto simp: ready_def)
  have "env_id env id_waiting \<notin> ob_event_id ` set (db_outbox (set_wager ?t d))"
    using r by (simp add: ready_def fresh_ids_def set_wager_def)
  then obtain d' where "emits pg ev (set_wager ?t d) d'"
    using storable_emits [OF ev(2), of "set_wager ?t d" pg] r by (auto simp: ready_def fresh_ids_def)
  moreover have "rows_affected (\<lambda>r. wg_id r = t_id ?t \<and> wager_open r) (db_wagers d) = 1"
    using o1 by (simp add: stored_open_def)
  ultimately show ?thesis using outcome.waits [OF a False t _ ev(1)] by blast
qed

lemma processWager_progress:
  assumes r: "ready env input (t_createdAt t) d" and rd: "readable d"
    and v: "wager_valid t" "\<not> IsTerminal t" and o1: "stored_open d t"
    and w: "usable_wallet d w" "w_id w = t_walletID t" "currency (w_balance w) = currency (t_money t)"
    and k: "t_kind t \<noteq> WagerKindOpening"
    and first: "t_status t = WagerStatusPending \<longrightarrow> t_referenceTransactionID t = None"
  shows "\<exists>t' d'. processWager env (pg_repositories pg) w t input d = (Inr t', d')"
proof -
  have ch: "canChange t = None" using v by (simp add: canChange_None)
  note settle = settlement_progress [OF r v o1 w k]
  note reject = rejected_runs [OF r v o1]
  have "\<exists>t' d'. outcome pg env input w t d t' d'"
  proof (cases "needsReference t")
    case False
    then show ?thesis by (intro settle [of t None]) (simp add: resolves_def)
  next
    case n: True
    consider "find_reference d t = Inl ErrWagerNotFound" | ref where "find_reference d t = Inr ref"
      using find_reference_readable [OF rd] by blast
    then show ?thesis
    proof cases
      case 1
      then show ?thesis using waiting_runs [OF r v o1 first] n by (simp add: reference_awaited_def)
    next
      case 2
      show ?thesis
      proof (cases "validateReference t (Some ref)")
        case (Some e)
        then consider "e = ErrReferenceNotProcessed" "IsTerminal ref" | "e = ErrReferenceNotProcessed" "\<not> IsTerminal ref"
          | "e = ErrInvalidWagerReference"
          using validateReference_errors by blast
        then show ?thesis
        proof cases
          case 1
          then show ?thesis
            using outcome.unsuccessful_reference [OF n 2] Some reject failure_codes_not_blank by blast
        next
          case pending: 2
          then show ?thesis using waiting_runs [OF r v o1 first] n 2 Some by (simp add: reference_awaited_def)
        next
          case 3
          then show ?thesis using outcome.invalid_reference [OF n 2] Some reject failure_codes_not_blank by blast
        qed
      next
        case None
        then obtain t1 where t1: "ResolveReference (env_now env at_ResolveReference) t (Some ref) = Inr t1"
          using v by (auto simp: ResolveReference_ok_iff)
        show ?thesis
        proof (cases "(t_kind t = WagerKindRefund \<or> t_kind t = WagerKindRollback) \<and> reversed_in d (t_id ref)")
          case True
          have "wager_valid t1" "\<not> IsTerminal t1" "t_createdAt t1 = t_createdAt t" "t_id t1 = t_id t"
            using t1 v ResolveReference_valid [OF t1] r by (auto simp: ResolveReference_ok_iff IsTerminal_def ready_def)
          then have "\<exists>t' d'. rejected pg env input FailureAlreadyReversed t1 d t' d'"
            using rejected_runs [of env input t1 d] r o1 by (simp add: stored_open_def)
          then show ?thesis using outcome.already_reversed [OF n 2 t1] True by blast
        next
          case False
          then show ?thesis using settle [of t1 "Some ref"] n 2 t1 by (auto simp: resolves_def)
        qed
      qed
    qed
  qed
  then show ?thesis using outcome_runs [OF ch] by blast
qed

section \<open>The whole request\<close>

lemma no_stored_no_conflict:
  assumes "stored_operation d t = None" and "t_id t \<notin> wg_id ` set (db_wagers d)" and "t_kind t \<noteq> WagerKindOpening"
  shows "\<not> list_ex (wager_conflict (wager_row_of now t)) (db_wagers d)"
proof -
  have "\<not> wager_conflict (wager_row_of now t) g" if "g \<in> set (db_wagers d)" for g
  proof -
    have "wg_id g \<noteq> t_id t" using assms(2) that by (metis image_eqI)
    then show ?thesis
      using assms(1,3) that
      by (auto simp: stored_operation_def wager_conflict_def wager_row_of_def same_key_def nullif_empty_def
          find_None_iff split: option.splits if_splits)
  qed
  then show ?thesis by (auto simp: list_ex_iff)
qed

lemma find_unused_replay: "stored_operation d t = None \<Longrightarrow> find_replay d t = Inr None"
  by (simp add: find_replay_def)

lemma find_wallet_runs:
  assumes "consistent d" and "r \<in> set (db_wallets d)" and "scan_wallet r = Inr w" and "wr_id r = i"
  shows "WalletRepository_FindByIDForUpdate True i d = (Inr w, d)"
  using find_by_key [OF distinct_wallet_ids [OF assms(1)] assms(2)] assms(3,4)
  by (simp add: WalletRepository_FindByIDForUpdate_def WalletRepository_FindByID_def)

lemma process_operation_runs:
  assumes c: "consistent d" and rd: "readable d" and p: "prepared input t" and us: "1000 \<le> t_createdAt t"
    and r: "ready env input (t_createdAt t) d"
    and w: "r \<in> set (db_wallets d)" "scan_wallet r = Inr w" "wr_id r = in_WalletID input"
      "w_playerID w = in_PlayerID input" "currency (w_balance w) = currency (in_Money input)" "w_version w \<noteq> MaxInt64"
    and new: "stored_operation d t = None" "t_id t \<notin> wg_id ` set (db_wagers d)"
  shows "\<exists>t' d'. process_operation env input t (pg_repositories pg) d = (Inr (wagerResult t' False), d') \<and>
    outcome pg env input w t (d\<lparr>db_wagers := db_wagers d @ [wager_row_of (db_clock d) t]\<rparr>) t' d'"
proof -
  let ?d = "d\<lparr>db_wagers := db_wagers d @ [wager_row_of (db_clock d) t]\<rparr>"
  have pr: "wager_valid t" "t_status t = WagerStatusPending" "t_kind t \<noteq> WagerKindOpening" "t_walletID t = in_WalletID input"
      "t_money t = in_Money input" "t_referenceTransactionID t = None"
    using p unfolding prepared_def by blast+
  have w': "stores_wallet r w" using scan_wallet_stores [OF w(2)] .
  have wf: "wallet_wf w" using w(2) by (auto simp: scan_wallet_def RehydrateWallet_ok_iff wallet_wf_def split: sum.splits)
  have rd': "readable ?d"
    using rd scanWager_row_of [OF pr(1) us] by (auto simp: readable_def)
  have ids: "filter (\<lambda>g. wg_id g = t_id t \<and> wager_open g) (db_wagers d) = []"
  proof (rule filter_False, intro ballI notI)
    fix g
    assume "g \<in> set (db_wagers d)" "wg_id g = t_id t \<and> wager_open g"
    then show False using new(2) by (metis image_eqI)
  qed
  have st: "stored_open ?d t"
    using ids by (simp add: stored_open_def rows_affected_def wager_row_of_def wager_open_def pr(2))
  have r': "ready env input (t_createdAt t) ?d" using r by (simp add: ready_def fresh_ids_def)
  have uw: "usable_wallet ?d w" using w(1,6) w' wf by (auto simp: usable_wallet_def)
  have not_final: "\<not> IsTerminal t" using pr(2) by (simp add: IsTerminal_def)
  have wid: "w_id w = t_walletID t" using w' w(3) pr(4) by (simp add: stores_wallet_def)
  obtain t' d' where run: "processWager env (pg_repositories pg) w t input ?d = (Inr t', d')"
    using processWager_progress [OF r' rd' pr(1) not_final st uw wid _ pr(3), of pg] w(5) pr(5,6) by auto
  have "WagerRepository_Create t d = (Inr (), ?d)"
    using no_stored_no_conflict [OF new pr(3)] by (simp add: WagerRepository_Create_ok_iff)
  then have "process_operation env input t (pg_repositories pg) d = (Inr (wagerResult t' False), d')"
    using w run find_unused_replay [OF new(1)] find_wallet_runs [OF c w(1-3)]
    by (simp add: process_operation_def findWagerReplay_eq act_bind_Inr act_try_apply act_return_apply)
  then show ?thesis using processWager_refines_outcome [OF run] by blast
qed

section \<open>Bets\<close>

lemma bet_outcome:
  assumes out: "outcome pg env input w t d t' d'" and k: "t_kind t = WagerKindBet"
    and w: "wallet_wf w" "w_version w \<noteq> MaxInt64" "currency (w_balance w) = currency (t_money t)"
    and m: "0 < cents_of (t_money t)"
  shows "if cents_of (t_money t) \<le> cents_of (w_balance w)
    then t_status t' = WagerStatusProcessed \<and>
      (\<exists>b. t_resultBalance t' = Some b \<and> cents_of b = cents_of (w_balance w) - cents_of (t_money t))
    else t_status t' = WagerStatusRejected \<and> t_failureCode t' = Some FailureInsufficientBalance"
proof -
  have n: "\<not> needsReference t" using k by (simp add: needsReference_def)
  have mv: "movable w (t_money t)" using w m by (simp add: movable_def)
  have dir: "movement env (movement_direction t reference) w (t_money t) =
      Wallet_Debit (env_now env at_wallet_movement) w (t_money t)" for reference
    using k by (simp add: movement_def movement_direction_def)
  show ?thesis
    using out
  proof cases
    case (insufficient t1 reference)
    then have "t1 = t" using n by (simp add: resolves_def)
    then have "\<not> cents_of (t_money t) \<le> cents_of (w_balance w)"
      using insufficient(3) Debit_total [OF mv, of "env_now env at_wallet_movement"] by (auto simp: dir)
    then show ?thesis using rejected_summary(4,5) [OF insufficient(4)] k by simp
  next
    case (overflow t1 reference)
    then have t1: "t1 = t" using n by (simp add: resolves_def)
    then have "Wallet_Debit (env_now env at_wallet_movement) w (t_money t) = Inl ErrMoneyOverflow"
      using overflow(3) by (simp add: dir)
    then have False
      using Debit_total [OF mv, of "env_now env at_wallet_movement"]
        Debit_insufficient [OF mv, of "env_now env at_wallet_movement"]
      by (cases "cents_of (t_money t) \<le> cents_of (w_balance w)") auto
    then show ?thesis ..
  next
    case (moves t1 reference w' ev d1 entry ev')
    then have "t1 = t" using n by (simp add: resolves_def)
    then have "Wallet_Debit (env_now env at_wallet_movement) w (t_money t) = Inr w'" using moves(3) by (simp add: dir)
    then show ?thesis using moves(5) by (auto simp: Debit_ok_iff moved_def MarkProcessed_ok_iff)
  qed (use n k in \<open>auto simp: reference_awaited_def\<close>)
qed

end
