(* ===== verification/Replay.thy ===== *)
theory Replay
  imports System Progress
begin

text \<open>
  Idempotency: what a processed operation leaves in the tables, and what a repetition of the request gets, after
  any number of steps of the service.
\<close>

section \<open>The stored answer\<close>

lemma replay_is_marked: "find_replay d t = Inr (Some result) \<Longrightarrow> wres_IdempotentReplay result"
  by (auto simp: find_replay_def wagerResult_def split: option.splits sum.splits if_splits)

lemma stored_replay:
  assumes c: "consistent d" and g: "g \<in> set (db_wagers d)"
    and k: "wg_provider_id g = Some (t_providerID t)" "wg_idempotency_key g = Some (t_idempotencyKey t)"
    and s: "scanWager g = Inr e"
  shows "find_replay d t =
    (if t_payloadHash e = t_payloadHash t then Inr (Some (wagerResult e True)) else Inl ErrIdempotencyConflict)"
proof -
  let ?P = "\<lambda>r. wg_provider_id r = Some (t_providerID t) \<and> wg_idempotency_key r = Some (t_idempotencyKey t)"
  obtain h where h: "find ?P (db_wagers d) = Some h" using g k by (cases "find ?P (db_wagers d)") (auto simp: find_None_iff)
  then have hp: "h \<in> set (db_wagers d)" "?P h" using find_SomeD by fast+
  then have "wager_conflict h g" using k by (simp add: wager_conflict_def same_key_def)
  then have "h = g"
    using no_conflict_unique [of wager_conflict "db_wagers d", OF _ wager_conflict_sym hp(1) g] c
    unfolding consistent_def by blast
  moreover have "t_idempotencyKey e = t_idempotencyKey t"
    using scanWager_stores(5) [OF s] k(2) by (simp add: coalesce_empty_def)
  ultimately show ?thesis using h s by (simp add: find_replay_def stored_operation_def)
qed

text \<open>A first run stores its operation as it leaves it.\<close>

lemma processed_run_row:
  assumes run: "processed_run pg env input t d w t' d'" and p: "prepared input t" and c: "consistent d"
  shows "wager_row_of (db_clock d) t' \<in> set (db_wagers d')" "same_operation t t'" "wager_valid t'"
proof -
  let ?g = "wager_row_of (db_clock d) t"
  have out: "outcome pg env input w t (d\<lparr>db_wagers := db_wagers d @ [?g]\<rparr>) t' d'"
    using run by (simp add: processed_run_def)
  have pending: "t_status t = WagerStatusPending" using p unfolding prepared_def by blast
  then have s: "db_wagers d' = db_wagers (set_wager t' (d\<lparr>db_wagers := db_wagers d @ [?g]\<rparr>))" "same_operation t t'"
      "wager_valid t'"
    using outcome_summary [OF out] by auto
  then show "same_operation t t'" "wager_valid t'" by blast+
  have "wg_id ?g = t_id t' \<and> wager_open ?g"
    using s(2) pending by (simp add: wager_row_of_def same_operation_def wager_open_def)
  then have "write_wager t' ?g \<in> set (db_wagers d')"
    by (auto simp: s(1) set_wager_def update_rows_def)
  then show "wager_row_of (db_clock d) t' \<in> set (db_wagers d')" by (simp add: write_wager_row_of [OF s(2)])
qed

lemma wagerResult_micros [simp]: "wagerResult (wager_micros t) r = wagerResult t r"
  by (simp add: wagerResult_def)

lemma closed_row_kept:
  assumes "history_kept d d'" and "g \<in> set (db_wagers d)" and "\<not> wager_open g"
  shows "g \<in> set (db_wagers d')"
  using assms unfolding history_kept_def by metis

text \<open>A repetition, any number of steps later.\<close>

lemma repeated_replay:
  assumes reach: "reachable d" and prep: "prepare_wager env p i = Inr (i', t)" and us: "1000 \<le> t_createdAt t"
    and run: "wager_work env i' t message (pg_repositories pg) d = (Inr result, d')"
    and new: "\<not> wres_IdempotentReplay result" and final: "wres_Status result \<noteq> WagerStatusPendingReference"
    and steps: "sys_step\<^sup>*\<^sup>* d' d''" and reach': "sound d'"
    and prep2: "prepare_wager env2 p i2 = Inr (i2', t2)" and key: "in_IdempotencyKey i2 = in_IdempotencyKey i"
  shows "find_replay d'' t2 =
    (if t_payloadHash t2 = t_payloadHash t then Inr (Some (result\<lparr>wres_IdempotentReplay := True\<rparr>))
     else Inl ErrIdempotencyConflict)"
proof -
  obtain d0 d1 where r0: "process_operation env i' t (pg_repositories pg) d0 = (Inr result, d1)"
    and same: "consistent d0" "db_clock d0 = db_clock d" "db_wagers d' = db_wagers d1"
    using run
  proof (cases rule: wager_work_ok)
    case direct
    then show ?thesis using that reachable_consistent [OF reach] by blast
  next
    case (duplicate m h)
    then show ?thesis using replay_is_marked new by blast
  next
    case (first m h e1 e2)
    note f1 = inbox_frame(1) [OF first(2)] and f2 = inbox_frame(2) [OF first(4)]
    show ?thesis
      by (rule that [OF first(3)])
        (use f1 f2 consistent_cong [of e1 d] reachable_consistent [OF reach] in simp_all)
  qed
  obtain w t' where pr: "processed_run pg env i' t d0 w t' d1" and res: "result = wagerResult t' False"
    using process_operation_ok [OF r0] replay_is_marked new by blast
  note row = processed_run_row [OF pr prepare_wager_ok(1) [OF prep] same(1)]
  let ?h = "wager_row_of (db_clock d0) t'"
  have sameop: "t_createdAt t' = t_createdAt t" "t_providerID t' = t_providerID t"
      "t_idempotencyKey t' = t_idempotencyKey t" "t_payloadHash t' = t_payloadHash t"
    using row(2) by (simp_all add: same_operation_def)
  have read: "scanWager ?h = Inr (wager_micros t')"
    using row(3) us sameop(1) by (simp add: scanWager_row_of)
  have "t_status t' \<in> {WagerStatusProcessed, WagerStatusRejected}"
    using outcome_summary pr final prepare_wager_ok(1) [OF prep]
    by (fastforce simp: processed_run_def res wagerResult_def prepared_def)
  then have "\<not> wager_open ?h" by (auto simp: wager_open_def wager_row_of_def)
  then have h: "?h \<in> set (db_wagers d'')"
    using steps_history [OF steps reach'] closed_row_kept row(1) same(3) by metis
  have con: "consistent d''"
    using steps_history [OF steps reach'] by (simp add: sound_def)
  have ids: "t_providerID t2 = t_providerID t" "t_idempotencyKey t2 = t_idempotencyKey t"
  proof -
    have "in_ProviderID i' = in_ProviderID i" "in_IdempotencyKey i' = in_IdempotencyKey i"
      by (subst prepare_wager_ok(4) [OF prep], simp)+
    moreover have "in_ProviderID i2' = in_ProviderID i2" "in_IdempotencyKey i2' = in_IdempotencyKey i2"
      by (subst prepare_wager_ok(4) [OF prep2], simp)+
    ultimately show "t_providerID t2 = t_providerID t" "t_idempotencyKey t2 = t_idempotencyKey t"
      using prepare_wager_ok(1,2) [OF prep] prepare_wager_ok(1,2) [OF prep2] key by (simp_all add: prepared_def)
  qed
  have nonempty: "t_providerID t \<noteq> []" "t_idempotencyKey t \<noteq> []"
    using prepare_wager_ok(1) [OF prep]
    by (auto simp: prepared_def wager_valid_iff validate_identity_def split: if_splits)
  show ?thesis
    using stored_replay [OF con h _ _ read, of t2] nonempty
    by (simp add: ids sameop wager_row_of_def nullif_empty_def res wagerResult_def)
qed

lemma replayed_run:
  assumes "find_replay d t = r" and "r \<noteq> Inr None"
  shows "reference_unit pg (wager_work env i t None) d = (case r of Inl e \<Rightarrow> Inl e | Inr x \<Rightarrow> Inr (the x), d)"
  using assms
  by (auto simp: reference_unit_def atomically_def wager_work_def process_operation_def findWagerReplay_eq act_bind_def
      act_return_def split: sum.split option.split)

lemma wager_unit_agrees:
  "agrees_up_to_faults (WithinTransaction pg run (wager_work env i t message) d)
     (reference_unit pg (wager_work env i t message) d) d"
  by (intro WithinTransaction_agrees ports.wager_work_sim pg_ports.ports_axioms)

lemma quiet_wager_work:
  "wager_work env i t message (pg_repositories pg) d = (Inr x, d') \<Longrightarrow>
   WithinTransaction pg fault_free (wager_work env i t message) d = (Inr x, d')"
  by (intro WithinTransaction_fault_free [where work' = "wager_work env i t message"] ports.wager_work_sim
      quiet_ports.ports_axioms)

end
