(* ===== verification/Retries.thy ===== *)
theory Retries
  imports History
begin

text \<open>
  A turn of the worker that resumes waiting operations: it takes a due operation, and either settles it or counts
  one more attempt below the limit and puts it off by the delay of the policy.
\<close>

lemma set_wager_stores:
  assumes "rows_affected (\<lambda>r. wg_id r = t_id t \<and> wager_open r) (db_wagers d) = 1"
  obtains h where "h \<in> set (db_wagers (set_wager t d))" "wg_id h = t_id t" "wg_status h = t_status t"
proof -
  have "filter (\<lambda>r. wg_id r = t_id t \<and> wager_open r) (db_wagers d) \<noteq> []"
    using assms by (auto simp: rows_affected_def)
  then obtain g where g: "g \<in> set (db_wagers d)" "wg_id g = t_id t" "wager_open g"
    by (auto simp: filter_empty_conv)
  then have "write_wager t g \<in> set (db_wagers (set_wager t d))"
    by (auto simp: set_wager_def update_rows_def)
  then show ?thesis using that [of "write_wager t g"] g(2) by (simp add: write_wager_def)
qed

text \<open>The row a turn takes.\<close>

lemma claimed_row:
  assumes "ClaimPendingReference pg d = (Inr (Some pending), d)" and "consistent d"
  obtains g where "g \<in> set (db_wagers d)" "wg_status g = WagerStatusPendingReference"
    "wg_next_reference_attempt_at g \<le> db_clock d" "scanWager g = Inr (pr_Transaction pending)"
    "wg_id g = t_id (pr_Transaction pending)" "wg_reference_attempts g = pr_Attempts pending"
proof -
  obtain row r where row: "row \<in> set (db_wagers d)" "reference_due d row" "r \<in> set (db_wagers d)"
      "wg_id r = wg_id row" "scanWager r = Inr (pr_Transaction pending)"
      "pr_Attempts pending = wg_reference_attempts row"
    using claimed_ok [OF assms(1)] by metis
  have "r = row" by (rule wager_row_unique [OF assms(2) row(3,1,4)])
  then show ?thesis
    using that [of row] row scanWager_stores(1) [OF row(5)] by (auto simp: reference_due_def stores_wager_def)
qed

definition put_off :: "ReferenceRetryPolicy \<Rightarrow> timestamptz \<Rightarrow> wager_row \<Rightarrow> wager_row" where
  "put_off policy now g =
     g\<lparr>wg_reference_attempts := wg_reference_attempts g + 1,
       wg_next_reference_attempt_at := now + Microseconds (ReferenceRetryPolicy_delay policy (wg_reference_attempts g + 1))\<rparr>"

lemma schedule_puts_off:
  assumes "ScheduleReferenceRetry (wg_id g) (wg_reference_attempts g + 1)
      (ReferenceRetryPolicy_delay policy (wg_reference_attempts g + 1)) d = (Inr u, d1)"
    and "g \<in> set (db_wagers d)" and "wg_status g = WagerStatusPendingReference"
  shows "put_off policy (db_clock d) g \<in> set (db_wagers d1)"
  using assms
  by (auto simp: ScheduleReferenceRetry_def Let_def put_off_def update_rows_def split: if_splits)

definition turn_ends :: "ReferenceRetryPolicy \<Rightarrow> db \<Rightarrow> ReferenceRetryResult \<Rightarrow> db \<Rightarrow> wager_row \<Rightarrow> bool" where
  "turn_ends policy d res d' g \<longleftrightarrow>
     wg_id g = rr_TransactionID res \<and> wg_status g = WagerStatusPendingReference \<and>
     wg_next_reference_attempt_at g \<le> db_clock d \<and>
     (if rr_Status res = WagerStatusPendingReference then
        put_off policy (db_clock d) g \<in> set (db_wagers d') \<and> rr_Attempts res = wg_reference_attempts g + 1 \<and>
        rr_Attempts res < rp_MaxAttempts policy
      else rr_Status res \<in> {WagerStatusProcessed, WagerStatusRejected} \<and>
        (\<exists>h \<in> set (db_wagers d'). same_identity g h \<and> wg_status h = rr_Status res))"

text \<open>A settled operation is found again under its identifier.\<close>

lemma settled_turn:
  assumes "sound d" and "sound_step d d'" and "g \<in> set (db_wagers d)" and "wg_id g = t_id t'"
    and "db_wagers d' = db_wagers (set_wager t' d2)"
    and "rows_affected (\<lambda>r. wg_id r = t_id t' \<and> wager_open r) (db_wagers d2) = 1"
  shows "\<exists>h \<in> set (db_wagers d'). same_identity g h \<and> wg_status h = t_status t'"
proof -
  obtain h where h: "h \<in> set (db_wagers d')" "wg_id h = t_id t'" "wg_status h = t_status t'"
    using set_wager_stores [OF assms(6)] assms(5) by metis
  obtain k where k: "k \<in> set (db_wagers d')" "same_identity g k"
    using assms(1-3) unfolding sound_step_def history_kept_def by blast
  have "consistent d'" using assms(1,2) by (simp add: sound_step_def sound_def)
  then have "k = h" by (rule wager_row_unique) (use h k assms(4) in \<open>simp_all add: same_identity_def\<close>)
  then show ?thesis using h k by blast
qed

lemma retry_turn:
  assumes s: "sound d" and run: "retry_work env policy (pg_repositories pg) d = (Inr (Some res), d')"
  shows "\<exists>g \<in> set (db_wagers d). turn_ends policy d res d' g"
  using run
proof (cases rule: retry_work_ok)
  case (resumed pending res')
  have c: "consistent d" using s by (simp add: sound_def)
  have step: "sound_step d d'" by (rule retry_work_sound [OF run])
  obtain g where g: "g \<in> set (db_wagers d)" "wg_status g = WagerStatusPendingReference"
    "wg_next_reference_attempt_at g \<le> db_clock d" "scanWager g = Inr (pr_Transaction pending)"
    "wg_id g = t_id (pr_Transaction pending)" "wg_reference_attempts g = pr_Attempts pending"
    by (rule claimed_row [OF resumed(1) c])
  have finish: "\<exists>h \<in> set (db_wagers d'). same_identity g h \<and> wg_status h = t_status t'"
    if "rejected pg env i code t d2 t' d'" "t_id t = wg_id g" for i code t d2 t'
  proof (rule settled_turn [OF s step g(1) _ rejected_summary(1,7) [OF that(1)]])
    show "wg_id g = t_id t'" using rejected_summary(2) [OF that(1)] that(2) by (simp add: same_operation_def)
  qed
  from resumed(1) c resumed(3) have "turn_ends policy d res d' g"
  proof (cases rule: resumed_parts)
    case (exhausted t')
    then show ?thesis
      using g finish [OF exhausted(2)] rejected_summary(2,4) [OF exhausted(2)] resumed(2)
      by (simp add: turn_ends_def retry_result_def same_operation_def)
  next
    case (attempted w d1 t' d2)
    have sum: "same_operation (pr_Transaction pending) t'"
      using outcome_summary [OF attempted(3)] by auto
    show ?thesis
    proof (cases "t_status t' = WagerStatusPendingReference")
      case waiting: True
      have still: "d2 = d1"
        using attempted(3)
      proof cases
        case (waits ev)
        then show ?thesis using attempted(5) by simp
      qed (use waiting rejected_status in \<open>fastforce dest: MarkProcessed_same\<close>)+
      show ?thesis
      proof (cases "rp_MaxAttempts policy \<le> pr_Attempts pending + 1")
        case True
        then obtain t'' where t'': "rejected pg env (tracing_input pending) FailureReferenceNotFound t' d2 t'' d'"
            "res' = retry_result pending t'' (pr_Attempts pending + 1)"
          using attempted(6) waiting by auto
        then show ?thesis
          using g finish [OF t''(1)] rejected_summary(2,4) [OF t''(1)] resumed(2) sum
          by (simp add: turn_ends_def retry_result_def same_operation_def)
      next
        case False
        then show ?thesis
          using attempted(2,6) waiting still resumed(2) g sum schedule_puts_off [of g policy d "()" d1]
          by (simp add: turn_ends_def retry_result_def same_operation_def)
      qed
    next
      case False
      then have r: "d' = d2" "res' = retry_result pending t' (pr_Attempts pending + 1)" using attempted(6) by auto
      have o1: "db_wagers d' = db_wagers (set_wager t' d1)"
          "rows_affected (\<lambda>r. wg_id r = t_id t' \<and> wager_open r) (db_wagers d1) = 1"
          "t_status t' \<in> {WagerStatusProcessed, WagerStatusRejected}"
        using outcome_summary [OF attempted(3)] False attempted(5) r(1) by auto
      have id: "wg_id g = t_id t'" using sum g(5) by (simp add: same_operation_def)
      from settled_turn [OF s step g(1) id o1(1,2)] show ?thesis
        using g o1(3) r(2) resumed(2) id False by (simp add: turn_ends_def retry_result_def)
    qed
  qed
  then show ?thesis using g(1) by blast
qed simp

end
