(* ===== verification/Delivery.thy ===== *)
theory Delivery
  imports System
begin

text \<open>
  What every step of the service keeps of the inbox and of the outbox: a completed message stays completed, a
  published event stays published, the server's clock does not go back.
\<close>

definition inbox_key :: "inbox_row \<Rightarrow> string \<times> string" where
  "inbox_key r = (ib_consumer_name r, ib_message_id r)"

definition delivered :: "db \<Rightarrow> db \<Rightarrow> bool" where
  "delivered d d' \<longleftrightarrow>
     (\<forall>r \<in> set (db_inbox d). ib_completed_at r \<noteq> None \<longrightarrow> r \<in> set (db_inbox d')) \<and>
     (distinct (map inbox_key (db_inbox d)) \<longrightarrow> distinct (map inbox_key (db_inbox d'))) \<and>
     (\<forall>r \<in> set (db_outbox d). ob_published_at r \<noteq> None \<longrightarrow> r \<in> set (db_outbox d')) \<and>
     db_clock d \<le> db_clock d'"

lemma delivered_refl [simp]: "delivered d d"
  by (simp add: delivered_def)

lemma delivered_trans: "delivered a b \<Longrightarrow> delivered b c \<Longrightarrow> delivered a c"
  unfolding delivered_def by (meson order_trans)

text \<open>The outcomes of an operation append events and leave the inbox alone.\<close>

definition appends_events :: "db \<Rightarrow> db \<Rightarrow> bool" where
  "appends_events d d' \<longleftrightarrow>
     prefix (db_outbox d) (db_outbox d') \<and> db_inbox d' = db_inbox d \<and> db_clock d' = db_clock d"

lemma appends_refl [simp]: "appends_events d d"
  by (simp add: appends_events_def)

lemma appends_trans: "appends_events a b \<Longrightarrow> appends_events b c \<Longrightarrow> appends_events a c"
  unfolding appends_events_def using prefix_order.trans by metis

lemma appends_delivered: "appends_events d d' \<Longrightarrow> delivered d d'"
  using set_mono_prefix by (fastforce simp: appends_events_def delivered_def)

lemma appends_set [simp]:
  "appends_events (set_wager t d) d' \<longleftrightarrow> appends_events d d'"
  "appends_events (set_wallet w d) d' \<longleftrightarrow> appends_events d d'"
  "appends_events (add_ledger e d) d' \<longleftrightarrow> appends_events d d'"
  "appends_events (d\<lparr>db_wagers := gs\<rparr>) d' \<longleftrightarrow> appends_events d d'"
  "appends_events (d\<lparr>db_wallets := ws\<rparr>) d' \<longleftrightarrow> appends_events d d'"
  by (simp_all add: appends_events_def set_wager_def set_wallet_def add_ledger_def)

lemma emits_appends: "emits pg ev d d' \<Longrightarrow> appends_events d d'"
  using emits_frame [of pg ev d d'] by (auto simp: appends_events_def prefix_def)

lemma rejected_appends: "rejected pg env input code t d t' d' \<Longrightarrow> appends_events d d'"
  by (auto simp: rejected_def dest!: emits_appends)

lemma outcome_appends:
  assumes "outcome pg env input w t d t' d'"
  shows "appends_events d d'"
  using assms
proof cases
  case (waits ev)
  then show ?thesis using emits_appends by fastforce
next
  case (loses t1 reference ev)
  then show ?thesis using emits_appends [OF loses(6)] by simp
next
  case (moves t1 reference w' ev d1 entry ev')
  then show ?thesis
    using emits_appends [OF moves(8)] emits_appends [OF moves(11)] appends_trans [of d d1 d'] by simp
qed (use rejected_appends in \<open>simp; blast\<close>)+

section \<open>The use cases\<close>

lemma process_operation_appends:
  assumes "process_operation env input t (pg_repositories pg) d = (Inr result, d')"
  shows "appends_events d d'"
  using process_operation_ok [OF assms] outcome_appends unfolding processed_run_def by fastforce

lemma register_delivered:
  assumes "InboxRepository_Register c m h d = (Inr b, d')"
  shows "delivered d d'"
proof -
  have "distinct (map inbox_key (db_inbox d)) \<Longrightarrow> find (inbox_selected c m) (db_inbox d) = None \<Longrightarrow>
      (c, m) \<notin> set (map inbox_key (db_inbox d))"
    by (auto simp: find_None_iff inbox_selected_def inbox_key_def)
  then show ?thesis
    using assms
    by (auto simp: InboxRepository_Register_def delivered_def inbox_key_def split: option.splits if_splits)
qed

lemma complete_delivered:
  assumes "InboxRepository_Complete c m d = (Inr u, d')"
  shows "delivered d d'"
proof -
  let ?f = "\<lambda>r. r\<lparr>ib_completed_at := (case ib_completed_at r of None \<Rightarrow> Some (db_clock d) | Some c \<Rightarrow> Some c)\<rparr>"
  have d': "d' = d\<lparr>db_inbox := update_rows (inbox_selected c m) ?f (db_inbox d)\<rparr>"
    using assms by (auto simp: InboxRepository_Complete_def Let_def split: if_splits)
  have keep: "?f r = r" if "ib_completed_at r \<noteq> None" for r
    using that by (cases r) (auto split: option.split)
  then have "r \<in> set (update_rows (inbox_selected c m) ?f (db_inbox d))"
    if "r \<in> set (db_inbox d)" "ib_completed_at r \<noteq> None" for r
  proof -
    let ?g = "\<lambda>r. if inbox_selected c m r then ?f r else r"
    have g: "r = ?g r" using keep [OF that(2)] by simp
    show ?thesis unfolding update_rows_def set_map by (rule image_eqI [where f = ?g and x = r, OF g that(1)])
  qed
  moreover have "map inbox_key (update_rows (inbox_selected c m) ?f (db_inbox d)) = map inbox_key (db_inbox d)"
    by (simp add: update_rows_def inbox_key_def)
  ultimately show ?thesis by (simp add: d' delivered_def)
qed

lemma wager_work_delivered:
  assumes "wager_work env input t message (pg_repositories pg) d = (Inr result, d')"
  shows "delivered d d'"
  using assms
proof (cases rule: wager_work_ok)
  case direct
  then show ?thesis using process_operation_appends appends_delivered by blast
next
  case (first m h d1 d2)
  then show ?thesis
    using register_delivered [OF first(2)] appends_delivered [OF process_operation_appends [OF first(3)]]
      complete_delivered [OF first(4)] delivered_trans by blast
qed simp

lemma open_work_delivered:
  assumes "open_work env w c (pg_repositories pg) d = (Inr u, d')"
  shows "delivered d d'"
proof (cases "Money_IsZero (w_balance w)")
  case True
  then show ?thesis using open_work_ok(2) [OF assms] by (simp add: delivered_def)
next
  case False
  then obtain ope entry where "opened_run pg env w c d ope entry d'" using open_work_ok(3) [OF assms] by blast
  then obtain processed changed d1 where "emits pg processed (d\<lparr>db_wallets := db_wallets d @ [wallet_row_of w],
        db_wagers := db_wagers d @ [wager_row_of (db_clock d) ope], db_ledger := db_ledger d @ [ledger_row_of entry]\<rparr>) d1"
      "emits pg changed d1 d'"
    unfolding opened_run_def by blast
  from this [THEN emits_appends] have "appends_events d d1" "appends_events d1 d'"
    by (simp_all add: appends_events_def)
  then have "appends_events d d'" by (rule appends_trans)
  then show ?thesis by (rule appends_delivered)
qed

lemma schedule_delivered: "ScheduleReferenceRetry i n w d = (Inr u, d') \<Longrightarrow> appends_events d d'"
  by (auto simp: ScheduleReferenceRetry_def Let_def appends_events_def split: if_splits)

lemma retry_work_delivered:
  assumes "retry_work env policy (pg_repositories pg) d = (Inr result, d')"
  shows "delivered d d'"
  using assms
proof (cases rule: retry_work_ok)
  case (resumed pending res)
  then have "appends_events d d'"
    unfolding resumed_run_def using rejected_appends outcome_appends schedule_delivered appends_trans
    by (metis (no_types, lifting))
  then show ?thesis by (rule appends_delivered)
qed simp

section \<open>The service\<close>

lemma row_step_published: "row_step now r r' \<Longrightarrow> ob_published_at r \<noteq> None \<Longrightarrow> r' = r"
  by (rule published_final)

lemma outbox_step_delivered:
  assumes "outbox_step d d'"
  shows "delivered d d'"
proof -
  have d': "d' = d\<lparr>db_outbox := db_outbox d'\<rparr>" and rows: "list_all2 (row_step (db_clock d)) (db_outbox d) (db_outbox d')"
    using assms by (simp_all add: outbox_step_def)
  have "r \<in> set ys" if "list_all2 (row_step (db_clock d)) xs ys" "r \<in> set xs" "ob_published_at r \<noteq> None" for xs ys r
    using that by (induction rule: list_all2_induct) (auto dest: published_final)
  with rows have "\<forall>r \<in> set (db_outbox d). ob_published_at r \<noteq> None \<longrightarrow> r \<in> set (db_outbox d')" by blast
  moreover have "db_inbox d' = db_inbox d" "db_clock d' = db_clock d" by (subst d', simp)+
  ultimately show ?thesis by (simp add: delivered_def)
qed

lemma execute_wager_delivered:
  assumes "execute_wager env ctx_err (WithinTransaction pg run) p i m d = (q, d')"
  shows "delivered d d'"
  using execute_wager_tables [OF assms] wager_work_delivered delivered_refl by metis

lemma sys_step_delivered:
  assumes "sys_step d d'" and "sound d"
  shows "delivered d d'"
  using assms(1)
proof cases
  case (open_wallet env ctx_err pg run input r)
  then show ?thesis using open_tables open_work_delivered delivered_refl by metis
next
  case (process_wager env ctx_err pg run p i q)
  then show ?thesis using execute_wager_delivered unfolding ProcessWager_Execute_def by blast
next
  case (process_message env ctx_err pg run p i m body q)
  then show ?thesis
    by (auto simp: ProcessWager_ExecuteMessage_def act_simps split: if_splits intro: execute_wager_delivered)
next
  case (retry_references env pg run policy x)
  then show ?thesis using retry_tables retry_work_delivered delivered_refl by metis
next
  case (publish_claim s skipped token lease c)
  then show ?thesis using claim_step outbox_step_delivered assms(2) unfolding sound_def by blast
next
  case (tick now)
  then show ?thesis by (simp add: delivered_def)
qed (use finish_step outbox_step_delivered in blast)+

lemma steps_delivered:
  assumes "sys_step\<^sup>*\<^sup>* d d'" and "sound d"
  shows "delivered d d'"
  using assms(1)
proof (induction rule: rtranclp_induct)
  case (step y z)
  have "sound y" using steps_history [OF step.hyps(1) assms(2)] by blast
  then show ?case using sys_step_delivered [OF step.hyps(2)] step.IH delivered_trans by blast
qed simp

lemma reachable_inbox_keys: "reachable d \<Longrightarrow> distinct (map inbox_key (db_inbox d))"
proof (induction rule: reachable.induct)
  case (step d d')
  then show ?case using sys_step_delivered [OF step.hyps(2) reachable_sound [OF step.hyps(1)]] by (simp add: delivered_def)
qed (simp add: empty_db_def)

text \<open>A completed message is a duplicate for ever.\<close>

lemma completed_register:
  assumes "distinct (map inbox_key (db_inbox d))" and "r \<in> set (db_inbox d)" and "ib_completed_at r \<noteq> None"
    and "inbox_key r = (c, m)"
  shows "InboxRepository_Register c m h d = (if h = ib_payload_hash r then Inr True else Inl ErrInboxConflict, d)"
proof -
  have "find (\<lambda>x. inbox_key x = inbox_key r) (db_inbox d) = Some r" by (rule find_by_key [OF assms(1,2)])
  moreover have "inbox_selected c m = (\<lambda>x. inbox_key x = inbox_key r)"
    using assms(4) by (auto simp: inbox_selected_def inbox_key_def fun_eq_iff)
  ultimately show ?thesis using assms(3) by (auto simp: InboxRepository_Register_def)
qed

text \<open>A message that was processed leaves its completed row.\<close>

lemma processed_message_row:
  assumes "wager_work env i t (Some (m, h)) (pg_repositories pg) d = (Inr result, d')"
    and "distinct (map inbox_key (db_inbox d))"
  shows "\<exists>r \<in> set (db_inbox d'). inbox_key r = (WagerConsumerName, m) \<and> ib_payload_hash r = h \<and> ib_completed_at r \<noteq> None"
  using assms(1)
proof (cases rule: wager_work_ok)
  case (duplicate m' h')
  then obtain r where r: "find (inbox_selected WagerConsumerName m') (db_inbox d) = Some r" "ib_payload_hash r = h'"
      "ib_completed_at r \<noteq> None"
    by (auto simp: InboxRepository_Register_def split: option.splits if_splits)
  then show ?thesis
    using find_SomeD [OF r(1)] duplicate by (intro bexI [of _ r]) (auto simp: inbox_key_def inbox_selected_def)
next
  case (first m' h' d1 d2)
  have d1: "db_inbox d1 = db_inbox d @ [\<lparr>ib_consumer_name = WagerConsumerName, ib_message_id = m, ib_payload_hash = h,
      ib_completed_at = None\<rparr>]"
    using first(1,2) by (auto simp: InboxRepository_Register_def split: option.splits if_splits)
  have "db_inbox d2 = db_inbox d1"
    using process_operation_appends [OF first(3)] by (simp add: appends_events_def)
  then show ?thesis
    using first(1,4) d1
    by (auto simp: InboxRepository_Complete_def Let_def update_rows_def inbox_selected_def inbox_key_def
        split: if_splits)
qed simp

lemma answered_message_row:
  assumes "execute_wager env ctx (WithinTransaction pg run) p i (Some (m, h)) d = (Inr result, d')"
    and "distinct (map inbox_key (db_inbox d))"
  shows "\<exists>r \<in> set (db_inbox d'). inbox_key r = (WagerConsumerName, m) \<and> ib_payload_hash r = h \<and> ib_completed_at r \<noteq> None"
proof -
  obtain i' t where run: "WithinTransaction pg run (wager_work env i' t (Some (m, h))) d = (Inr result, d')"
    using assms(1)
    by (auto simp: execute_wager_def act_raise_def split: option.splits sum.splits prod.splits)
  from ports.wager_work_sim [OF pg_ports.ports_axioms] run
  have "wager_work env i' t (Some (m, h)) (pg_repositories pg) d = (Inr result, d')"
    using WithinTransaction_outcome [where work' = "wager_work env i' t (Some (m, h))" and
        work = "wager_work env i' t (Some (m, h))" and pg = pg and run = run and d = d]
    by (fastforce simp: atomically_def split: prod.splits sum.splits)
  then show ?thesis by (rule processed_message_row [OF _ assms(2)])
qed

lemma completed_unit:
  assumes "distinct (map inbox_key (db_inbox d))" and "r \<in> set (db_inbox d)" and "ib_completed_at r \<noteq> None"
    and "inbox_key r = (WagerConsumerName, m)"
  shows "reference_unit pg (wager_work env i t (Some (m, h))) d =
    (if h \<noteq> ib_payload_hash r then Inl ErrInboxConflict
     else (case find_replay d t of
             Inl e \<Rightarrow> Inl e | Inr None \<Rightarrow> Inl ErrInboxIncomplete | Inr (Some stored) \<Rightarrow> Inr stored), d)"
  using completed_register [OF assms, of h]
  by (auto simp: reference_unit_def atomically_def wager_work_def act_bind_def findWagerReplay_eq act_raise_def
      act_return_def split: sum.split option.split)

section \<open>Leases\<close>

lemma claimed_unpublished:
  assumes claim: "OutboxPublisher_Claim uuid_String skipped token lease d = (Inr (Some ev), d')"
    and dist: "distinct_events d" and r: "r \<in> set (db_outbox d')" "ob_event_id r = pv_EventID ev"
  shows "ob_published_at r = None"
proof -
  obtain c where pick: "first_by (\<lambda>r. (ob_next_attempt_at r, ob_event_id r))
      (filter (\<lambda>r. claimable (db_clock d) r \<and> ob_event_id r \<notin> set skipped) (db_outbox d)) = Some c"
    using claim by (auto simp: OutboxPublisher_Claim_def split: option.splits)
  have d': "db_outbox d' = update_rows (\<lambda>r. ob_event_id r = ob_event_id c)
      (\<lambda>r. r\<lparr>ob_lock_token := Some token, ob_locked_until := Some (db_clock d + Microseconds lease),
            ob_attempts := min (ob_attempts r + 1) 2147483647\<rparr>) (db_outbox d)"
    using claim by (auto simp: OutboxPublisher_Claim_def pick Let_def)
  obtain q where q: "q \<in> set (db_outbox d)" "ob_event_id q = ob_event_id r" "ob_published_at r = ob_published_at q"
    using r(1) unfolding d' update_rows_def set_map by (elim imageE) (auto split: if_splits)
  from claim show ?thesis
  proof (rule claim_ok)
    fix c
    assume c: "c \<in> set (db_outbox d)" "claimable (db_clock d) c" "pv_EventID ev = ob_event_id c"
    then have "q = c" using distinct_map_inj [OF dist [unfolded distinct_events_def] q(1) c(1)] q(2) r(2) by simp
    then show ?thesis using c(2) q(3) by (simp add: claimable_def)
  qed
qed

lemma claim_fences:
  assumes claim: "OutboxPublisher_Claim uuid_String skipped token lease d = (Inr (Some ev), d')"
    and dist: "distinct_events d" and old: "pv_EventID old = pv_EventID ev" "pv_LockToken old \<noteq> token"
    and pos: "0 < Microseconds lease"
  shows "OutboxPublisher_MarkPublished old d' = (Inl ErrOutboxLeaseLost, d') \<and>
    OutboxPublisher_Retry old delay d' = (Inl ErrOutboxLeaseLost, d') \<and>
    (\<exists>d''. OutboxPublisher_MarkPublished ev d' = (Inr (), d''))"
  using claim
proof (rule claim_ok)
  fix c
  assume c: "c \<in> set (db_outbox d)" "claimable (db_clock d) c" "pv_EventID ev = ob_event_id c" "pv_LockToken ev = token"
      "db_clock d' = db_clock d"
    and rows: "\<And>r. r \<in> set (db_outbox d') \<Longrightarrow> ob_event_id r = pv_EventID ev \<Longrightarrow>
        ob_lock_token r = Some token \<and> ob_locked_until r = Some (db_clock d + Microseconds lease)"
  have step: "outbox_step d d'" by (rule claim_step [OF claim dist])
  then have l: "list_all2 (row_step (db_clock d)) (db_outbox d) (db_outbox d')" by (simp add: outbox_step_def)
  have "map ob_event_id ys = map ob_event_id xs" if "list_all2 (row_step (db_clock d)) xs ys" for xs ys
    using that by (induction rule: list_all2_induct) (auto dest: row_step_identity)
  then have ids: "map ob_event_id (db_outbox d') = map ob_event_id (db_outbox d)" using l by blast
  have no: "filter (leased_by d' old) (db_outbox d') = []"
    using rows old by (fastforce simp: filter_empty_conv leased_by_def)
  obtain r where r: "r \<in> set (db_outbox d')" "ob_event_id r = ob_event_id c"
  proof -
    have "ob_event_id c \<in> ob_event_id ` set (db_outbox d')" using arg_cong [OF ids, of set] c(1) by simp
    then show ?thesis using that by auto
  qed
  have unpub: "ob_published_at r = None"
    using claimed_unpublished [OF claim dist r(1)] r(2) c(3) by simp
  then have lease: "leased_by d' ev r" using rows [OF r(1)] r(2) c(3-5) pos by (simp add: leased_by_def)
  have "filter (leased_by d' ev) (db_outbox d') = [r]"
  proof -
    have "distinct (map ob_event_id (db_outbox d'))" using dist ids by (simp add: distinct_events_def)
    then have "filter (\<lambda>x. ob_event_id x = ob_event_id r) (db_outbox d') = [r]" by (rule filter_by_key [OF _ r(1)])
    moreover have "filter (leased_by d' ev) (db_outbox d') = filter (\<lambda>x. ob_event_id x = ob_event_id r \<and> leased_by d' ev x) (db_outbox d')"
      using r(2) c(3) by (intro filter_cong) (auto simp: leased_by_def)
    moreover have "filter (\<lambda>x. ob_event_id x = ob_event_id r \<and> leased_by d' ev x) (db_outbox d') =
        filter (leased_by d' ev) (filter (\<lambda>x. ob_event_id x = ob_event_id r) (db_outbox d'))"
      by (simp only: filter_filter)
    ultimately show ?thesis using lease by simp
  qed
  then have "rows_affected (leased_by d' ev) (db_outbox d') = 1" by (simp add: rows_affected_def)
  then show ?thesis
    using no by (simp add: OutboxPublisher_MarkPublished_def OutboxPublisher_Retry_def rows_affected_def)
qed

end
