(* ===== verification/Scenario.thy ===== *)
theory Scenario
  imports Replay Retries Delivery
begin

text \<open>
  A concrete run of the service, on which the properties are instantiated: a wallet of one hundred cents,
  opened on empty tables.
\<close>

definition sample_pg :: pg_env where
  "sample_pg = \<lparr>pe_locked = [], pe_timestamptz = pg_time\<rparr>"

definition sample_env :: "uuid \<Rightarrow> env" where
  "sample_env n =
     \<lparr>env_now = (\<lambda>_. 5000),
      env_id = (\<lambda>site. case site of id_transaction \<Rightarrow> n + 1 | id_correlation \<Rightarrow> n + 2 | id_processed \<Rightarrow> n + 3
         | id_rejected \<Rightarrow> n + 4 | id_waiting \<Rightarrow> n + 5 | id_entry \<Rightarrow> n + 6 | id_changed \<Rightarrow> n + 7 | id_wallet \<Rightarrow> n + 8),
      env_uuid_String = (\<lambda>u. replicate (unat u) (CHR ''u'')),
      env_NewSHA1 = (\<lambda>u s. u + 1000)\<rparr>"

definition sample_opening :: OpenWalletInput where
  "sample_opening = \<lparr>ow_PlayerID = 3, ow_InitialBalance = \<lparr>amount = 100, currency = ''BRL''\<rparr>, ow_CorrelationID = ''c''\<rparr>"

text \<open>The tables after the opening.\<close>

definition opened_row :: wallet_row where
  "opened_row =
     \<lparr>wr_id = 18, wr_player_id = 3, wr_balance_cents = 100, wr_currency = ''BRL'', wr_version = 1,
      wr_created_at = 5, wr_updated_at = 5\<rparr>"

definition opened_operation :: wager_row where
  "opened_operation =
     \<lparr>wg_id = 1018, wg_provider_id = None, wg_external_transaction_id = None, wg_idempotency_key = None,
      wg_payload_hash = None, wg_wallet_id = 18, wg_player_id = 3, wg_round_id = None, wg_game_id = None,
      wg_kind = WagerKindOpening, wg_amount_cents = 100, wg_currency = ''BRL'',
      wg_reference_external_transaction_id = None, wg_reference_transaction_id = None, wg_status =
      WagerStatusProcessed, wg_failure_code = None, wg_result_balance_cents = Some 100, wg_created_at = 5,
      wg_updated_at = 5, wg_reference_attempts = 0, wg_next_reference_attempt_at = 5\<rparr>"

definition opened_line :: ledger_row where
  "opened_line =
     \<lparr>lr_id = 16, lr_wallet_id = 18, lr_transaction_id = 1018, lr_direction = LedgerDirectionCredit,
      lr_amount_cents = 100, lr_currency = ''BRL'', lr_balance_before_cents = 0, lr_balance_after_cents = 100,
      lr_created_at = 5\<rparr>"

definition opened_events :: "outbox_row list" where
  "opened_events =
     [\<lparr>ob_event_id = 13, ob_aggregate_id = 18, ob_event_type = ''WagerTransactionProcessed'', ob_payload
      = WagerTransactionProcessed \<lparr>ev_EventID = 13, ev_EventType = ''WagerTransactionProcessed'',
      ev_AggregateID = 18, ev_CorrelationID = ''c'', ev_CausationID = [], ev_OccurredAt = 5000, ev_Version =
      1\<rparr> \<lparr>ed_TransactionID = 1018, ed_WalletID = 18, ed_PlayerID = 3, ed_ProviderID = [],
      ed_ExternalTransactionID = [], ed_RoundID = [], ed_GameID = [], ed_Kind = WagerKindOpening, ed_Money =
      \<lparr>amount = 100, currency = ''BRL''\<rparr>, ed_ReferenceExternalTransactionID = []\<rparr>
      \<lparr>amount = 100, currency = ''BRL''\<rparr>, ob_occurred_at = 5, ob_attempts = 0, ob_next_attempt_at
      = 5, ob_published_at = None, ob_locked_until = None, ob_lock_token = None\<rparr>,
     \<lparr>ob_event_id = 17, ob_aggregate_id = 18, ob_event_type = ''WalletBalanceChanged'', ob_payload =
      WalletBalanceChanged \<lparr>ev_EventID = 17, ev_EventType = ''WalletBalanceChanged'', ev_AggregateID =
      18, ev_CorrelationID = ''c'', ev_CausationID = [], ev_OccurredAt = 5000, ev_Version = 1\<rparr>
      \<lparr>eb_WalletID = 18, eb_TransactionID = 1018, eb_Direction = LedgerDirectionCredit, eb_Money =
      \<lparr>amount = 100, currency = ''BRL''\<rparr>, eb_BalanceBefore = \<lparr>amount = 0, currency =
      ''BRL''\<rparr>, eb_BalanceAfter = \<lparr>amount = 100, currency = ''BRL''\<rparr>, eb_WalletVersion =
      1\<rparr>, ob_occurred_at = 5, ob_attempts = 0, ob_next_attempt_at = 5, ob_published_at = None,
      ob_locked_until = None, ob_lock_token = None\<rparr>]"

definition opened_db :: db where
  "opened_db =
     \<lparr>db_wallets = [opened_row], db_wagers = [opened_operation], db_ledger = [opened_line], db_inbox = [],
      db_outbox = opened_events, db_clock = 5\<rparr>"

definition sample_input :: ProcessWagerInput where
  "sample_input =
     \<lparr>in_ProviderID = ''p'', in_ExternalTransactionID = ''x1'', in_IdempotencyKey = ''k1'', in_PlayerID = 3,
      in_WalletID = 18, in_RoundID = ''r'', in_GameID = ''g'', in_Kind = WagerKindBet,
      in_Money = \<lparr>amount = 30, currency = ''BRL''\<rparr>, in_ReferenceExternalTransactionID = None,
      in_CorrelationID = ''c'', in_CausationID = ''m1''\<rparr>"

definition opened_wallet :: wallet where
  "opened_wallet =
     \<lparr>w_id = 18, w_playerID = 3, w_balance = \<lparr>amount = 100, currency = ''BRL''\<rparr>, w_version = 1,
      w_createdAt = 5000, w_updatedAt = 5000\<rparr>"

lemma opened_run:
  "OpenWallet_Execute (sample_env 10) None (WithinTransaction sample_pg fault_free) sample_opening (empty_db 5) =
     (Inr opened_wallet, opened_db)"
  by code_simp

lemma reachable_opened: "reachable opened_db"
  by (rule reachable.step [OF reachable.initial sys_step.open_wallet [OF opened_run]])

lemma opened_fields [simp]:
  "db_wallets opened_db = [opened_row]" "db_wagers opened_db = [opened_operation]" "db_ledger opened_db = [opened_line]"
  "db_inbox opened_db = []" "db_outbox opened_db = opened_events" "db_clock opened_db = 5"
  by (simp_all add: opened_db_def)

lemma opened_wallets: "db_wallets opened_db = [opened_row]"
  by simp

lemma opened_ledger: "map lr_balance_after_cents (db_ledger opened_db) = [100]"
  by (simp add: opened_line_def)

lemma opened_wagers: "map wg_id (db_wagers opened_db) = [1018]"
  by (simp add: opened_operation_def)

section \<open>A bet on the wallet\<close>

text \<open>The operation that the request becomes; its hash is the digest of the request.\<close>

definition sample_wager :: wager_transaction where
  "sample_wager =
     \<lparr>t_id = 21, t_externalTransactionID = ''x1'', t_providerID = ''p'', t_idempotencyKey = ''k1'',
      t_payloadHash = sha256_hex (payload_document (env_uuid_String (sample_env 20)) sample_input),
      t_walletID = 18, t_playerID = 3, t_roundID = ''r'', t_gameID = ''g'',
      t_kind = WagerKindBet, t_money = \<lparr>amount = 30, currency = ''BRL''\<rparr>,
      t_referenceExternalTransactionID = None, t_referenceTransactionID = None,
      t_status = WagerStatusPending, t_failureCode = None, t_resultBalance = None,
      t_createdAt = 5000, t_updatedAt = 5000\<rparr>"

lemma sample_texts:
  "\<not> TrimSpace_is_empty ''c''" "list_all (\<lambda>s. \<not> text_too_long 100 s) [''p'', ''x1'', ''k1'', ''r'', ''g'']"
  "list_all (\<lambda>s. \<not> text_too_long 255 s) [''p'', ''x1'', ''k1'', ''r'', ''g'']"
  by code_simp+

lemma not_blank_reference: "\<not> TrimSpace_is_empty ''x1''" "\<not> TrimSpace_is_empty ''x2''" "\<not> TrimSpace_is_empty ''k2''"
  by code_simp+

lemma sample_wager_valid: "wager_valid sample_wager"
  unfolding wager_valid_iff
  by (simp add: sample_wager_def uuid_Nil_def WagerKind_IsValid_def validateWagerMoney_def Money_IsPositive_iff
      validCurrency_def validate_identity_def validate_reference_id_def validate_result_balance_def
      validate_status_def del: TrimSpace_is_empty.simps)

lemma sample_prepared: "prepare_wager (sample_env 20) ''p'' sample_input = Inr (sample_input, sample_wager)"
proof -
  have "NewWagerTransaction 21 5000 ''p'' ''x1'' ''k1'' (t_payloadHash sample_wager) 18 3 ''r'' ''g'' WagerKindBet
      \<lparr>amount = 30, currency = ''BRL''\<rparr> None = Inr sample_wager"
    using sample_wager_valid by (simp add: NewWagerTransaction_def sample_wager_def Let_def WagerKind_IsValid_def validateWagerMoney_def
        validCurrency_def Money_IsPositive_iff)
  then show ?thesis
    using sample_texts
    by (simp add: prepare_wager_def payloadHash_def sample_env_def sample_input_def sample_wager_def validCurrency_def
        Money_Validate_def del: TrimSpace_is_empty.simps)
qed

lemma opened_scan: "scan_wallet opened_row = Inr opened_wallet"
  by code_simp

text \<open>The run does not look at the inbox.\<close>

definition inbox_db :: "inbox_row list \<Rightarrow> db" where
  "inbox_db rows = opened_db\<lparr>db_inbox := rows\<rparr>"

lemma inbox_db_fields [simp]:
  "db_wallets (inbox_db rows) = [opened_row]" "db_wagers (inbox_db rows) = [opened_operation]"
  "db_ledger (inbox_db rows) = [opened_line]" "db_inbox (inbox_db rows) = rows"
  "db_outbox (inbox_db rows) = opened_events" "db_clock (inbox_db rows) = 5"
  by (simp_all add: inbox_db_def)

lemma inbox_db_none: "inbox_db [] = opened_db"
  by (simp add: inbox_db_def opened_db_def)

lemma inbox_consistent: "consistent (inbox_db rows)"
  using reachable_consistent [OF reachable_opened] consistent_cong [of "inbox_db rows" opened_db] by simp

lemma opened_operation_readable: "\<exists>t. scanWager opened_operation = Inr t"
proof -
  have "case scanWager opened_operation of Inl e \<Rightarrow> False | Inr t \<Rightarrow> True" by code_simp
  then show ?thesis by (auto split: sum.splits)
qed

lemma inbox_readable: "readable (inbox_db rows)"
  using opened_operation_readable by (simp add: readable_def)

lemma inbox_unused: "stored_operation (inbox_db rows) sample_wager = None"
  by (simp add: stored_operation_def opened_operation_def)

lemma inbox_ready: "ready (sample_env 20) sample_input 5000 (inbox_db rows)"
proof -
  have ids: "ob_event_id ` set opened_events = {13, 17}" by (simp add: opened_events_def)
  have "env_id (sample_env 20) s \<noteq> uuid_Nil" for s by (cases s) (simp_all add: sample_env_def uuid_Nil_def)
  moreover have "env_now (sample_env 20) s = 5000" for s by (simp add: sample_env_def)
  ultimately show ?thesis
    using sample_texts(1)
    by (simp add: ready_def fresh_ids_def ids) (simp add: sample_env_def sample_input_def)
qed

lemma opened_readable: "readable opened_db"
  using inbox_readable [of "[]"] by (simp add: inbox_db_none)

lemma opened_unused: "stored_operation opened_db sample_wager = None"
  using inbox_unused [of "[]"] by (simp add: inbox_db_none)

lemma opened_ready: "ready (sample_env 20) sample_input 5000 opened_db"
  using inbox_ready [of "[]"] by (simp add: inbox_db_none)

definition inserted_db :: db where
  "inserted_db = opened_db\<lparr>db_wagers := db_wagers opened_db @ [wager_row_of (db_clock opened_db) sample_wager]\<rparr>"

lemma opened_in: "opened_row \<in> set (db_wallets opened_db)"
  by (simp add: opened_wallets)

lemma sample_facts:
  "t_createdAt sample_wager = 5000" "t_kind sample_wager = WagerKindBet" "t_id sample_wager = 21"
  "t_money sample_wager = \<lparr>amount = 30, currency = ''BRL''\<rparr>" "t_status sample_wager = WagerStatusPending"
  "in_WalletID sample_input = 18" "in_PlayerID sample_input = 3" "currency (in_Money sample_input) = ''BRL''"
  "wr_id opened_row = 18" "w_playerID opened_wallet = 3" "w_balance opened_wallet = \<lparr>amount = 100, currency = ''BRL''\<rparr>"
  "w_version opened_wallet = 1" "w_id opened_wallet = 18" "t_walletID sample_wager = 18" "t_playerID sample_wager = 3"
  by (simp_all add: sample_wager_def sample_input_def opened_row_def opened_wallet_def)

lemma sample_new_id: "t_id sample_wager \<notin> wg_id ` set (db_wagers (inbox_db rows))"
  by (simp add: sample_facts opened_operation_def)

lemma opened_new_id: "t_id sample_wager \<notin> wg_id ` set (db_wagers opened_db)"
  by (simp add: sample_facts opened_operation_def)

text \<open>The bet is answered.\<close>

lemma inbox_run:
  obtains t' d' where
    "process_operation (sample_env 20) sample_input sample_wager (pg_repositories sample_pg) (inbox_db rows) =
       (Inr (wagerResult t' False), d')"
    "outcome sample_pg (sample_env 20) sample_input opened_wallet sample_wager
       (inbox_db rows\<lparr>db_wagers := db_wagers (inbox_db rows) @ [wager_row_of 5 sample_wager]\<rparr>) t' d'"
proof -
  have "MaxInt64 \<noteq> 1" by (simp add: MaxInt64_def)
  then show ?thesis
    using that process_operation_runs [OF inbox_consistent inbox_readable prepare_wager_ok(1) [OF sample_prepared] _ _
        _ opened_scan _ _ _ _ inbox_unused sample_new_id, of "sample_env 20" rows sample_pg] inbox_ready
    by (auto simp: sample_facts)
qed

lemma sample_run:
  obtains t' d' where
    "process_operation (sample_env 20) sample_input sample_wager (pg_repositories sample_pg) opened_db =
       (Inr (wagerResult t' False), d')"
    "processWager (sample_env 20) (pg_repositories sample_pg) opened_wallet sample_wager sample_input inserted_db =
       (Inr t', d')"
proof -
  have "canChange sample_wager = None"
    using sample_wager_valid by (simp add: canChange_None IsTerminal_def sample_facts)
  from inbox_run [of "[]"] outcome_runs [OF this] show ?thesis
    using that unfolding inbox_db_none inserted_db_def by (metis opened_fields(2,6))
qed

lemma sample_bet_processed:
  assumes "processWager (sample_env 20) (pg_repositories sample_pg) opened_wallet sample_wager sample_input inserted_db =
      (Inr t', d')"
  shows "t_status t' = WagerStatusProcessed"
  using bet_outcome [OF processWager_refines_outcome [OF assms]]
  by (simp add: sample_facts wallet_wf_def uuid_Nil_def validCurrency_def MaxInt64_def split: if_splits)

section \<open>A refund that comes before its bet\<close>

definition refund_input :: ProcessWagerInput where
  "refund_input = sample_input\<lparr>in_ExternalTransactionID := ''x2'', in_IdempotencyKey := ''k2'', in_Kind := WagerKindRefund,
     in_ReferenceExternalTransactionID := Some ''x1''\<rparr>"

definition refund_wager :: wager_transaction where
  "refund_wager =
     \<lparr>t_id = 31, t_externalTransactionID = ''x2'', t_providerID = ''p'', t_idempotencyKey = ''k2'',
      t_payloadHash = ''h'', t_walletID = 18, t_playerID = 3, t_roundID = ''r'', t_gameID = ''g'',
      t_kind = WagerKindRefund, t_money = \<lparr>amount = 30, currency = ''BRL''\<rparr>,
      t_referenceExternalTransactionID = Some ''x1'', t_referenceTransactionID = None,
      t_status = WagerStatusPending, t_failureCode = None, t_resultBalance = None,
      t_createdAt = 5000, t_updatedAt = 5000\<rparr>"

definition waiting_row :: wager_row where
  "waiting_row =
     \<lparr>wg_id = 31, wg_provider_id = Some ''p'', wg_external_transaction_id = Some ''x2'',
      wg_idempotency_key = Some ''k2'', wg_payload_hash = Some ''h'', wg_wallet_id = 18, wg_player_id = 3,
      wg_round_id = Some ''r'', wg_game_id = Some ''g'', wg_kind = WagerKindRefund, wg_amount_cents = 30,
      wg_currency = ''BRL'', wg_reference_external_transaction_id = Some ''x1'', wg_reference_transaction_id =
      None, wg_status = WagerStatusPendingReference, wg_failure_code = None, wg_result_balance_cents = None,
      wg_created_at = 5, wg_updated_at = 5, wg_reference_attempts = 0, wg_next_reference_attempt_at = 5\<rparr>"

definition waiting_event :: outbox_row where
  "waiting_event =
     \<lparr>ob_event_id = 35, ob_aggregate_id = 18, ob_event_type = ''WagerTransactionPendingReference'',
      ob_payload = WagerTransactionPendingReference \<lparr>ev_EventID = 35, ev_EventType =
      ''WagerTransactionPendingReference'', ev_AggregateID = 18, ev_CorrelationID = ''c'', ev_CausationID = ''m1'',
      ev_OccurredAt = 5000, ev_Version = 1\<rparr> \<lparr>ed_TransactionID = 31, ed_WalletID = 18, ed_PlayerID
      = 3, ed_ProviderID = ''p'', ed_ExternalTransactionID = ''x2'', ed_RoundID = ''r'', ed_GameID = ''g'',
      ed_Kind = WagerKindRefund, ed_Money = \<lparr>amount = 30, currency = ''BRL''\<rparr>,
      ed_ReferenceExternalTransactionID = ''x1''\<rparr>, ob_occurred_at = 5, ob_attempts = 0,
      ob_next_attempt_at = 5, ob_published_at = None, ob_locked_until = None, ob_lock_token = None\<rparr>"

definition waiting_db :: db where
  "waiting_db =
     \<lparr>db_wallets = [opened_row], db_wagers = [opened_operation, waiting_row], db_ledger = [opened_line], db_inbox = [],
      db_outbox = opened_events @ [waiting_event], db_clock = 5\<rparr>"

lemma waiting_run:
  "wager_work (sample_env 30) refund_input refund_wager None (pg_repositories sample_pg) opened_db =
     (Inr \<lparr>wres_TransactionID = 31, wres_Status = WagerStatusPendingReference, wres_Balance = None,
           wres_FailureCode = None, wres_IdempotentReplay = False\<rparr>, waiting_db)"
  by code_simp

lemma refund_prepared: "prepared refund_input refund_wager"
proof -
  have "wager_valid refund_wager"
    unfolding wager_valid_iff
    by (simp add: refund_wager_def uuid_Nil_def WagerKind_IsValid_def validateWagerMoney_def Money_IsPositive_iff
        validCurrency_def validate_identity_def validate_reference_id_def validate_result_balance_def
        validate_status_def not_blank_reference del: TrimSpace_is_empty.simps)
  then show ?thesis by (simp add: prepared_def) (simp add: refund_wager_def refund_input_def sample_input_def)
qed

lemma waiting_sound: "sound waiting_db"
  using wager_work_sound [OF waiting_run refund_prepared] reachable_sound [OF reachable_opened]
  by (simp add: sound_step_def)

definition sample_policy :: ReferenceRetryPolicy where
  "sample_policy = \<lparr>rp_MaxAttempts = 3, rp_InitialDelay = 1000000, rp_MaxDelay = 8000000\<rparr>"

definition sample_turn :: ReferenceRetryResult where
  "sample_turn =
     \<lparr>rr_TransactionID = 31, rr_WalletID = 18, rr_ProviderID = ''p'', rr_CorrelationID = ''c'',
      rr_Status = WagerStatusPendingReference, rr_Attempts = 1\<rparr>"

lemma retry_waiting:
  "fst (retry_work (sample_env 40) sample_policy (pg_repositories sample_pg) waiting_db) = Inr (Some sample_turn)"
  by code_simp

section \<open>The bet as a message\<close>

definition registered :: "string \<Rightarrow> inbox_row" where
  "registered body =
     \<lparr>ib_consumer_name = WagerConsumerName, ib_message_id = ''m1'', ib_payload_hash = sha256_hex body, ib_completed_at = None\<rparr>"

lemma message_register:
  "InboxRepository_Register WagerConsumerName ''m1'' (sha256_hex body) opened_db = (Inr False, inbox_db [registered body])"
  by (simp add: InboxRepository_Register_def inbox_db_def opened_db_def registered_def)

lemma message_run:
  assumes "body \<noteq> []"
  obtains result d' where
    "ProcessWager_ExecuteMessage (sample_env 20) None (WithinTransaction sample_pg fault_free) ''p'' sample_input ''m1'' body opened_db =
       (Inr result, d')"
proof -
  obtain t' d1 where run: "process_operation (sample_env 20) sample_input sample_wager (pg_repositories sample_pg)
      (inbox_db [registered body]) = (Inr (wagerResult t' False), d1)"
    by (rule inbox_run)
  have "db_inbox d1 = [registered body]"
    using process_operation_appends [OF run] by (simp add: appends_events_def)
  then obtain d2 where "InboxRepository_Complete WagerConsumerName ''m1'' d1 = (Inr (), d2)"
    by (auto simp: InboxRepository_Complete_def registered_def inbox_selected_def rows_affected_def)
  then have "wager_work (sample_env 20) sample_input sample_wager (Some (''m1'', sha256_hex body))
      (pg_repositories sample_pg) opened_db = (Inr (wagerResult t' False), d2)"
    using run by (simp add: wager_work_def act_bind_def message_register act_return_def)
  note quiet_wager_work [OF this]
  moreover have "\<not> TrimSpace_is_empty ''m1''" "utf8_ValidString ''m1''" by code_simp+
  ultimately have "ProcessWager_ExecuteMessage (sample_env 20) None (WithinTransaction sample_pg fault_free) ''p'' sample_input
      ''m1'' body opened_db = (Inr (wagerResult t' False), d2)"
    using assms
    by (simp add: ProcessWager_ExecuteMessage_def execute_wager_def sample_prepared del: TrimSpace_is_empty.simps
        utf8_ValidString.simps)
  then show ?thesis by (rule that)
qed

section \<open>The publication of the first event\<close>

definition claimed_db :: db where
  "claimed_db = snd (OutboxPublisher_Claim (env_uuid_String (sample_env 1)) [] 77 2000000 opened_db)"

definition claimed_event :: PendingEvent where
  "claimed_event = pending_event (env_uuid_String (sample_env 1)) 77 ((hd opened_events)\<lparr>ob_attempts := 1\<rparr>)"

definition published_row :: outbox_row where
  "published_row = (hd opened_events)\<lparr>ob_attempts := 1, ob_published_at := Some 5\<rparr>"

definition published_db :: db where
  "published_db = opened_db\<lparr>db_outbox := published_row # tl opened_events\<rparr>"

lemma first_claim:
  "OutboxPublisher_Claim (env_uuid_String (sample_env 1)) [] 77 2000000 opened_db = (Inr (Some claimed_event), claimed_db)"
  by code_simp

lemma first_publication: "OutboxPublisher_MarkPublished claimed_event claimed_db = (Inr (), published_db)"
  by code_simp

lemma second_claim:
  "\<exists>ev. fst (OutboxPublisher_Claim (env_uuid_String (sample_env 1)) [] 78 2000000 published_db) = Inr (Some ev)"
proof -
  have "case fst (OutboxPublisher_Claim (env_uuid_String (sample_env 1)) [] 78 2000000 published_db) of
      Inr (Some ev) \<Rightarrow> True | _ \<Rightarrow> False" by code_simp
  then show ?thesis by (auto split: sum.splits option.splits)
qed

lemma reachable_published: "reachable published_db"
  by (rule reachable.step [OF reachable.step [OF reachable_opened sys_step.publish_claim [OF first_claim]]
        sys_step.publish_mark [OF first_publication]])

end
