(* ===== verification/Queries.thy ===== *)
theory Queries
  imports Scenario
begin

text \<open>
  The read side: \<open>internal/infrastructure/postgres/wallet_queries.go\<close>, the interface
  \<open>internal/application/ports/wallet_queries.go\<close> and \<open>internal/application/reconcile_wallet.go\<close>.
  A query leaves the tables as they are, so it is a function of them.
\<close>

section \<open>The interface\<close>

record LedgerPosition =
  lp_WalletID :: uuid
  lp_CreatedAt :: time
  lp_ID :: uuid

record LedgerRecord =
  le_ID :: uuid
  le_WalletID :: uuid
  le_TransactionID :: uuid
  le_Direction :: LedgerDirection
  le_Money :: money
  le_BalanceBefore :: money
  le_BalanceAfter :: money
  le_CreatedAt :: time

record ReconciliationSnapshot =
  rs_WalletID :: uuid
  rs_StoredBalance :: money
  rs_CalculatedBalance :: money
  rs_CheckedEntries :: i64

record 's wallet_queries =
  wq_ListLedger :: "uuid \<Rightarrow> LedgerPosition option \<Rightarrow> int \<Rightarrow> 's \<Rightarrow> error + LedgerRecord list"
  wq_ReconciliationSnapshot :: "uuid \<Rightarrow> 's \<Rightarrow> error + ReconciliationSnapshot"

section \<open>The ledger of a wallet\<close>

text \<open>The wrapped error of a stored amount that is no money.\<close>

definition stored_money :: "i64 \<Rightarrow> string \<Rightarrow> error + money" where
  "stored_money cents c =
     (case MoneyFromMinorUnits cents c of Inl e \<Rightarrow> Inl (Joined ErrInvalidFinancialState e) | Inr m \<Rightarrow> Inr m)"

definition scan_ledger :: "ledger_row \<Rightarrow> error + LedgerRecord" where
  "scan_ledger r =
     (case stored_money (lr_amount_cents r) (lr_currency r) of Inl e \<Rightarrow> Inl e | Inr m \<Rightarrow>
     (case stored_money (lr_balance_before_cents r) (lr_currency r) of Inl e \<Rightarrow> Inl e | Inr before \<Rightarrow>
     (case stored_money (lr_balance_after_cents r) (lr_currency r) of Inl e \<Rightarrow> Inl e | Inr after \<Rightarrow>
        Inr \<lparr>le_ID = lr_id r, le_WalletID = lr_wallet_id r, le_TransactionID = lr_transaction_id r,
             le_Direction = lr_direction r, le_Money = m, le_BalanceBefore = before, le_BalanceAfter = after,
             le_CreatedAt = go_time (lr_created_at r)\<rparr>)))"

fun scan_rows :: "ledger_row list \<Rightarrow> error + LedgerRecord list" where
  "scan_rows [] = Inr []"
| "scan_rows (r # rs) =
     (case scan_ledger r of Inl e \<Rightarrow> Inl e | Inr entry \<Rightarrow>
     (case scan_rows rs of Inl e \<Rightarrow> Inl e | Inr items \<Rightarrow> Inr (entry # items)))"

definition ledger_key :: "ledger_row \<Rightarrow> timestamptz \<times> uuid" where
  "ledger_key r = (lr_created_at r, lr_id r)"

text \<open>\<open>ORDER BY created_at DESC, id DESC\<close>.\<close>

definition newest_first :: "ledger_row list \<Rightarrow> ledger_row list" where
  "newest_first rs = rev (sort_key ledger_key rs)"

definition before_position :: "LedgerPosition option \<Rightarrow> ledger_row \<Rightarrow> bool" where
  "before_position position r =
     (case position of None \<Rightarrow> True | Some p \<Rightarrow> ledger_key r < (pg_time (lp_CreatedAt p), lp_ID p))"

definition WalletQueries_ListLedger ::
  "uuid \<Rightarrow> LedgerPosition option \<Rightarrow> int \<Rightarrow> db \<Rightarrow> error + LedgerRecord list" where
  "WalletQueries_ListLedger walletID position limit d =
     (case fst (WalletRepository_FindByID walletID d) of
        Inl e \<Rightarrow> Inl e
      | Inr _ \<Rightarrow>
          scan_rows (take (nat limit) (newest_first
            (filter (\<lambda>r. lr_wallet_id r = walletID \<and> before_position position r) (db_ledger d)))))"

section \<open>The snapshot of a reconciliation\<close>

text \<open>The text of an integer of type \<open>NUMERIC\<close>.\<close>

definition numeric_text :: "int \<Rightarrow> string" where
  "numeric_text z = (if z < 0 then ''-'' @ show_nat (nat (- z)) else show_nat (nat z))"

definition ledger_sum :: "ledger_row list \<Rightarrow> int" where
  "ledger_sum rs =
     sum_list (map (\<lambda>l. if lr_direction l = LedgerDirectionCredit then sint (lr_amount_cents l)
                        else - sint (lr_amount_cents l)) rs)"

definition WalletQueries_ReconciliationSnapshot :: "uuid \<Rightarrow> db \<Rightarrow> error + ReconciliationSnapshot" where
  "WalletQueries_ReconciliationSnapshot walletID d =
     (case find (\<lambda>w. wr_id w = walletID) (db_wallets d) of
        None \<Rightarrow> Inl ErrWalletNotFound
      | Some w \<Rightarrow>
          let lines = filter (\<lambda>l. lr_wallet_id l = wr_id w) (db_ledger d);
              calculated = numeric_text (ledger_sum lines)
          in (case ParseInt calculated of
                Inl _ \<Rightarrow> Inl ErrInvalidFinancialState
              | Inr calculatedCents \<Rightarrow>
                  (case stored_money (wr_balance_cents w) (wr_currency w) of Inl e \<Rightarrow> Inl e | Inr stored \<Rightarrow>
                  (case stored_money calculatedCents (wr_currency w) of Inl e \<Rightarrow> Inl e | Inr calc \<Rightarrow>
                     Inr \<lparr>rs_WalletID = wr_id w, rs_StoredBalance = stored, rs_CalculatedBalance = calc,
                          rs_CheckedEntries = of_nat (length lines)\<rparr>))))"

definition pg_queries :: "db wallet_queries" where
  "pg_queries = \<lparr>wq_ListLedger = WalletQueries_ListLedger,
                 wq_ReconciliationSnapshot = WalletQueries_ReconciliationSnapshot\<rparr>"

section \<open>\<open>ReconcileWallet\<close>\<close>

record ReconciliationResult =
  rc_WalletID :: uuid
  rc_StoredBalance :: money
  rc_CalculatedBalance :: money
  rc_Difference :: money
  rc_Consistent :: bool
  rc_CheckedEntries :: i64

definition ReconcileWallet_Execute :: "'s wallet_queries \<Rightarrow> uuid \<Rightarrow> 's \<Rightarrow> error + ReconciliationResult" where
  "ReconcileWallet_Execute queries walletID s =
     (if walletID = uuid_Nil then Inl ErrInvalidWallet
      else
        (case wq_ReconciliationSnapshot queries walletID s of
           Inl e \<Rightarrow> Inl e
         | Inr snapshot \<Rightarrow>
             (case Money_Sub (rs_StoredBalance snapshot) (rs_CalculatedBalance snapshot) of
                Inl e \<Rightarrow> Inl (Joined ErrInvalidFinancialState e)
              | Inr difference \<Rightarrow>
                  Inr \<lparr>rc_WalletID = rs_WalletID snapshot, rc_StoredBalance = rs_StoredBalance snapshot,
                       rc_CalculatedBalance = rs_CalculatedBalance snapshot, rc_Difference = difference,
                       rc_Consistent = Money_IsZero difference,
                       rc_CheckedEntries = rs_CheckedEntries snapshot\<rparr>)))"

section \<open>What a reconciliation finds\<close>

text \<open>The text of an integer is read back when it fits in 64 bits.\<close>

lemma ParseInt_numeric_text:
  "ParseInt (numeric_text z) = (if in_i64 z then Inr (word_of_int z) else Inl ErrRange)"
proof (cases "0 \<le> z")
  case True
  have "(of_nat (nat z) :: i64) = word_of_int z" using True by simp
  then show ?thesis
    using True by (auto simp: numeric_text_def ParseInt_digits in_i64_def nat_less_iff)
next
  case False
  define n where "n = nat (- z)"
  have z: "z = - int n" and pos: "0 < n" using False by (simp_all add: n_def)
  have p: "parse_uint 0 (show_nat n) = (if n < 2 ^ 64 then Inr n else Inl ErrRange)"
    using parse_uint_digits [OF show_nat_digits, of 0 n] by simp
  have "ParseInt (''-'' @ show_nat n) =
      (case (if n < 2 ^ 64 then Inr n else Inl ErrRange) of
         Inl e \<Rightarrow> Inl e | Inr n \<Rightarrow> if 2 ^ 63 < n then Inl ErrRange else Inr (- (of_nat n)))"
    by (simp add: ParseInt_def ParseUint_def p split: sum.split)
  also have "\<dots> = (if n \<le> 2 ^ 63 then Inr (- (of_nat n)) else Inl ErrRange)" by simp
  also have "\<dots> = (if in_i64 z then Inr (word_of_int z) else Inl ErrRange)"
  proof -
    have "in_i64 z \<longleftrightarrow> n \<le> 2 ^ 63" using pos by (simp add: in_i64_def z)
    then show ?thesis by (simp add: z)
  qed
  finally show ?thesis using False by (simp add: numeric_text_def n_def)
qed

lemma stored_money_valid [simp]: "validCurrency c \<Longrightarrow> stored_money a c = Inr \<lparr>amount = a, currency = c\<rparr>"
  by (simp add: stored_money_def MoneyFromMinorUnits_def)

lemma reconcile_eq:
  assumes "find (\<lambda>w. wr_id w = i) (db_wallets d) = Some w" and "validCurrency (wr_currency w)" and "i \<noteq> uuid_Nil"
  defines "lines \<equiv> filter (\<lambda>l. lr_wallet_id l = i) (db_ledger d)"
  shows "ReconcileWallet_Execute pg_queries i d =
    (if \<not> in_i64 (ledger_sum lines) then Inl ErrInvalidFinancialState
     else if \<not> in_i64 (sint (wr_balance_cents w) - ledger_sum lines) then Inl (Joined ErrInvalidFinancialState ErrMoneyOverflow)
     else Inr \<lparr>rc_WalletID = i,
               rc_StoredBalance = \<lparr>amount = wr_balance_cents w, currency = wr_currency w\<rparr>,
               rc_CalculatedBalance = \<lparr>amount = word_of_int (ledger_sum lines), currency = wr_currency w\<rparr>,
               rc_Difference = \<lparr>amount = word_of_int (sint (wr_balance_cents w) - ledger_sum lines), currency = wr_currency w\<rparr>,
               rc_Consistent = (sint (wr_balance_cents w) = ledger_sum lines),
               rc_CheckedEntries = of_nat (length lines)\<rparr>)"
proof -
  have i: "wr_id w = i" using find_SomeD [OF assms(1)] by simp
  have diff: "sint (word_of_int x :: i64) = x \<longleftrightarrow> in_i64 x" for x
    using sint_of_int_i64 [of x] sint_in_i64 [of "word_of_int x"] by metis
  have zero: "in_i64 x \<Longrightarrow> (word_of_int x :: i64) = 0 \<longleftrightarrow> x = 0" for x
    by (metis diff signed_0 of_int_0)
  show ?thesis
    using assms(1-3) zero [of "sint (wr_balance_cents w) - ledger_sum lines"]
    by (auto simp: ReconcileWallet_Execute_def pg_queries_def WalletQueries_ReconciliationSnapshot_def Let_def i
        ParseInt_numeric_text Money_Sub_eq on_operands_def money_of_def Money_IsZero_iff lines_def [symmetric])
qed

section \<open>Stored currencies are known\<close>

definition known_currencies :: "db \<Rightarrow> bool" where
  "known_currencies d \<longleftrightarrow> (\<forall>r \<in> set (db_wallets d). validCurrency (wr_currency r))"

lemma known_currencies_cong: "db_wallets d' = db_wallets d \<Longrightarrow> known_currencies d' \<longleftrightarrow> known_currencies d"
  by (simp add: known_currencies_def)

lemma known_set_wallet: "known_currencies d \<Longrightarrow> known_currencies (set_wallet w d)"
  by (auto simp: known_currencies_def set_wallet_def update_rows_def)

lemma outcome_known:
  assumes "outcome pg env input w t d t' d'" and "known_currencies d"
  shows "known_currencies d'"
proof (cases "moves_money t'")
  case True
  obtain w' where "db_wallets d' = db_wallets (set_wallet w' d)" by (rule outcome_with_money [OF assms(1) True])
  then show ?thesis using known_set_wallet [OF assms(2)] known_currencies_cong by blast
next
  case False
  then show ?thesis using outcome_without_money(1) [OF assms(1)] assms(2) known_currencies_cong by blast
qed

lemma rejected_known: "rejected pg env input code t d t' d' \<Longrightarrow> known_currencies d \<Longrightarrow> known_currencies d'"
  by (auto simp: rejected_def set_wager_def known_currencies_def dest!: emits_frame(1))

lemma process_operation_known:
  assumes "process_operation env input t (pg_repositories pg) d = (Inr result, d')" and "known_currencies d"
  shows "known_currencies d'"
  using process_operation_ok [OF assms(1)] assms(2) outcome_known
  unfolding processed_run_def by (fastforce simp: known_currencies_def)

lemma inbox_wallets:
  "InboxRepository_Register c m h d = (x, d') \<Longrightarrow> db_wallets d' = db_wallets d"
  "InboxRepository_Complete c m d = (y, d') \<Longrightarrow> db_wallets d' = db_wallets d"
  by (auto simp: InboxRepository_Register_def InboxRepository_Complete_def Let_def split: option.splits if_splits)

lemma wager_work_known:
  assumes "wager_work env input t message (pg_repositories pg) d = (Inr result, d')" and "known_currencies d"
  shows "known_currencies d'"
  using assms(1)
proof (cases rule: wager_work_ok)
  case direct
  then show ?thesis using process_operation_known assms(2) by blast
next
  case (first m h d1 d2)
  show ?thesis
    using inbox_wallets(1) [OF first(2)] inbox_wallets(2) [OF first(4)] process_operation_known [OF first(3)] assms(2)
      known_currencies_cong by blast
qed (use assms(2) in simp)

lemma retry_work_known:
  assumes "retry_work env policy (pg_repositories pg) d = (Inr result, d')" and "known_currencies d"
  shows "known_currencies d'"
  using assms(1)
proof (cases rule: retry_work_ok)
  case (resumed pending res)
  have "known_currencies a \<Longrightarrow> ScheduleReferenceRetry i n w a = (Inr u, b) \<Longrightarrow> known_currencies b" for i n w a b u
    by (auto simp: ScheduleReferenceRetry_def Let_def known_currencies_def split: if_splits)
  then show ?thesis
    using resumed(3) assms(2) unfolding resumed_run_def
    using rejected_known outcome_known by (metis (no_types, lifting))
qed (use assms(2) in simp)

lemma open_work_known:
  assumes "open_work env w c (pg_repositories pg) d = (Inr u, d')" and "known_currencies d"
    and "validCurrency (currency (w_balance w))"
  shows "known_currencies d'"
proof -
  have "db_wallets d' = db_wallets d @ [wallet_row_of w]"
  proof (cases "Money_IsZero (w_balance w)")
    case True
    then show ?thesis using open_work_ok(2) [OF assms(1)] by simp
  next
    case False
    then obtain ope entry where "opened_run pg env w c d ope entry d'" using open_work_ok(3) [OF assms(1)] by blast
    then show ?thesis unfolding opened_run_def by (auto dest!: emits_frame(1))
  qed
  then show ?thesis using assms(2,3) by (simp add: known_currencies_def wallet_row_of_def)
qed

lemma execute_wager_known:
  assumes "execute_wager env ctx_err (WithinTransaction pg run) p i m d = (q, d')" and "known_currencies d"
  shows "known_currencies d'"
  using execute_wager_tables [OF assms(1)] wager_work_known assms(2) by metis

lemma sys_step_known:
  assumes "sys_step d d'" and "known_currencies d"
  shows "known_currencies d'"
  using assms(1)
proof cases
  case (open_wallet env ctx_err pg run input r)
  then show ?thesis using open_tables open_work_known assms(2) by blast
next
  case (process_wager env ctx_err pg run p i q)
  then show ?thesis using execute_wager_known assms(2) unfolding ProcessWager_Execute_def by blast
next
  case (process_message env ctx_err pg run p i m body q)
  then show ?thesis
    using assms(2)
    by (auto simp: ProcessWager_ExecuteMessage_def act_simps split: if_splits intro: execute_wager_known)
next
  case (retry_references env pg run policy x)
  then show ?thesis using retry_tables retry_work_known assms(2) by metis
next
  case (publish_claim s skipped token lease c)
  then have "db_wallets d' = db_wallets d" by (auto simp: OutboxPublisher_Claim_def Let_def split: option.splits)
  then show ?thesis using assms(2) known_currencies_cong by blast
next
  case (tick now)
  then show ?thesis using assms(2) by (simp add: known_currencies_def)
qed (use finish_step assms(2) in \<open>auto simp: outbox_step_def known_currencies_def OutboxPublisher_MarkPublished_def
      OutboxPublisher_Retry_def split: if_splits\<close>)

lemma reachable_known: "reachable d \<Longrightarrow> known_currencies d"
proof (induction rule: reachable.induct)
  case (step d d')
  then show ?case using sys_step_known by blast
qed (simp add: known_currencies_def empty_db_def)

section \<open>The ledger adds up\<close>

lemma consistent_ledger_sum:
  assumes c: "consistent d" and r: "r \<in> set (db_wallets d)"
  shows "ledger_sum (wallet_ledger d (wr_id r)) = sint (wr_balance_cents r)"
proof -
  have ok: "ledger_chain 0 (wallet_ledger d (wr_id r)) (sint (wr_balance_cents r))"
    using c r unfolding consistent_def wallet_state_ok_def by blast
  have "(if lr_direction l = LedgerDirectionCredit then sint (lr_amount_cents l) else - sint (lr_amount_cents l)) =
      signed_cents l" if "l \<in> set (wallet_ledger d (wr_id r))" for l
  proof -
    have "l \<in> set (db_ledger d)" using that by (simp add: wallet_ledger_def)
    then obtain g where "records l g" using c unfolding consistent_def by blast
    then have "LedgerDirection_IsValid (lr_direction l)" using direction_of_kind_valid unfolding records_def by blast
    then show ?thesis by (auto simp: signed_cents_def direction_sign_def direction_valid_iff)
  qed
  then have "ledger_sum (wallet_ledger d (wr_id r)) = sum_list (map signed_cents (wallet_ledger d (wr_id r)))"
    unfolding ledger_sum_def by (simp cong: map_cong)
  then show ?thesis using ledger_chain_sum [OF ok] by simp
qed

lemma find_wallet:
  assumes "consistent d" and "r \<in> set (db_wallets d)"
  shows "find (\<lambda>w. wr_id w = wr_id r) (db_wallets d) = Some r"
  by (rule find_by_key [OF distinct_wallet_ids [OF assms(1)] assms(2)])

text \<open>C24: A reconciliation reports exactly what the tables hold: for a wallet in a known currency it compares the
  stored balance with the exact sum of the credits less the debits, calls the wallet consistent iff they are
  equal, and refuses, instead of wrapping around, when the sum or the difference leaves the range of 64 bits.\<close>

theorem reconciliation_exact:
  assumes "find (\<lambda>w. wr_id w = i) (db_wallets d) = Some w" and "validCurrency (wr_currency w)" and "i \<noteq> uuid_Nil"
  shows "ReconcileWallet_Execute pg_queries i d =
    (let total = ledger_sum (filter (\<lambda>l. lr_wallet_id l = i) (db_ledger d)); balance = sint (wr_balance_cents w) in
     if \<not> in_i64 total then Inl ErrInvalidFinancialState
     else if \<not> in_i64 (balance - total) then Inl (Joined ErrInvalidFinancialState ErrMoneyOverflow)
     else Inr \<lparr>rc_WalletID = i,
               rc_StoredBalance = \<lparr>amount = wr_balance_cents w, currency = wr_currency w\<rparr>,
               rc_CalculatedBalance = \<lparr>amount = word_of_int total, currency = wr_currency w\<rparr>,
               rc_Difference = \<lparr>amount = word_of_int (balance - total), currency = wr_currency w\<rparr>,
               rc_Consistent = (balance = total),
               rc_CheckedEntries = of_nat (length (filter (\<lambda>l. lr_wallet_id l = i) (db_ledger d)))\<rparr>)"
  unfolding Let_def by (rule reconcile_eq [OF assms])

theorem reconciliation_exact_witness:
  "\<exists>res. ReconcileWallet_Execute pg_queries 18 (opened_db\<lparr>db_ledger := []\<rparr>) = Inr res \<and> \<not> rc_Consistent res"
proof -
  have "find (\<lambda>w. wr_id w = 18) (db_wallets (opened_db\<lparr>db_ledger := []\<rparr>)) = Some opened_row"
    by (simp add: opened_row_def)
  from reconciliation_exact [OF this] show ?thesis
    by (simp add: opened_row_def validCurrency_def uuid_Nil_def ledger_sum_def in_i64_def)
qed

text \<open>C25: In every state the service can reach the reconciliation of any wallet succeeds and finds no divergence:
  the calculated balance is the stored one and the difference is zero.\<close>

theorem reconciliation_never_diverges:
  assumes "reachable d" and "r \<in> set (db_wallets d)" and "wr_id r \<noteq> uuid_Nil"
  shows "\<exists>res. ReconcileWallet_Execute pg_queries (wr_id r) d = Inr res \<and> rc_Consistent res \<and>
    rc_StoredBalance res = \<lparr>amount = wr_balance_cents r, currency = wr_currency r\<rparr> \<and>
    rc_CalculatedBalance res = rc_StoredBalance res \<and> cents_of (rc_Difference res) = 0 \<and>
    rc_CheckedEntries res = of_nat (length (wallet_ledger d (wr_id r)))"
proof -
  have c: "consistent d" by (rule reachable_consistent [OF assms(1)])
  have "validCurrency (wr_currency r)" using reachable_known [OF assms(1)] assms(2) by (simp add: known_currencies_def)
  then show ?thesis
    using reconcile_eq [OF find_wallet [OF c assms(2)] _ assms(3)]
      consistent_ledger_sum [OF c assms(2), unfolded wallet_ledger_def]
    by (simp add: wallet_ledger_def in_i64_def [of 0])
qed

theorem reconciliation_never_diverges_witness:
  "\<exists>res. ReconcileWallet_Execute pg_queries 18 opened_db = Inr res \<and> rc_Consistent res \<and> rc_CheckedEntries res = 1"
proof -
  have "wr_id opened_row = 18" "wallet_ledger opened_db 18 = [opened_line]"
    by (simp_all add: opened_row_def wallet_ledger_def opened_line_def)
  then show ?thesis
    using reconciliation_never_diverges [OF reachable_opened, of opened_row] by (auto simp: uuid_Nil_def)
qed

end
