(* ===== verification/GoTime.thy ===== *)
theory GoTime
  imports GoJson
begin

text \<open>
  The text of a \<open>time.Time\<close> in JSON: RFC 3339 with the fraction of a second, written in UTC, and the reading of such a
  text with the liberties that \<open>time.Parse\<close> takes (one digit for the hour, a comma before the fraction).
\<close>

section \<open>The calendar\<close>

definition leap_year :: "int \<Rightarrow> bool" where
  "leap_year y \<longleftrightarrow> y mod 4 = 0 \<and> (y mod 100 \<noteq> 0 \<or> y mod 400 = 0)"

definition days_before_year :: "int \<Rightarrow> int" where
  "days_before_year y = 365 * (y - 1) + (y - 1) div 4 - (y - 1) div 100 + (y - 1) div 400"

definition days_before_month :: "bool \<Rightarrow> int \<Rightarrow> int" where
  "days_before_month leap m =
     (if m \<le> 1 then 0 else if m = 2 then 31 else
      (if leap then 1 else 0) +
      (if m = 3 then 59 else if m = 4 then 90 else if m = 5 then 120 else if m = 6 then 151 else if m = 7 then 181
       else if m = 8 then 212 else if m = 9 then 243 else if m = 10 then 273 else if m = 11 then 304
       else if m = 12 then 334 else 365))"

definition days_in_month :: "bool \<Rightarrow> int \<Rightarrow> int" where
  "days_in_month leap m = days_before_month leap (m + 1) - days_before_month leap m"

text \<open>The number of a day, counted from the first of January of the year 1, and the date of a day.\<close>

definition day_number :: "int \<Rightarrow> int \<Rightarrow> int \<Rightarrow> int" where
  "day_number y m d = days_before_year y + days_before_month (leap_year y) m + d - 1"

definition year_and_day :: "int \<Rightarrow> int \<times> int" where
  "year_and_day n =
     (let n400 = n div 146097; r = n mod 146097; n100 = min 3 (r div 36524); r1 = r - 36524 * n100;
          n4 = r1 div 1461; r2 = r1 mod 1461; n1 = min 3 (r2 div 365)
      in (400 * n400 + 100 * n100 + 4 * n4 + n1 + 1, r2 - 365 * n1))"

definition month_of_day :: "bool \<Rightarrow> int \<Rightarrow> int" where
  "month_of_day leap k =
     (if k < 31 then 1 else
      let j = (if leap then k - 1 else k) in
      if k < days_before_month leap 3 then 2
      else if j < 90 then 3 else if j < 120 then 4 else if j < 151 then 5 else if j < 181 then 6 else if j < 212 then 7
      else if j < 243 then 8 else if j < 273 then 9 else if j < 304 then 10 else if j < 334 then 11 else 12)"

definition date_of_day :: "int \<Rightarrow> int \<times> int \<times> int" where
  "date_of_day n =
     (case year_and_day n of (y, k) \<Rightarrow>
        let m = month_of_day (leap_year y) k in (y, m, k - days_before_month (leap_year y) m + 1))"

text \<open>A quotient that is capped: what it leaves of the dividend.\<close>

lemma capped_quotient:
  fixes n m cap :: int
  assumes "0 \<le> n" and "0 < m" and "0 \<le> cap" and "q = min cap (n div m)"
  shows "0 \<le> q" and "q \<le> cap" and "0 \<le> n - m * q" and "q < cap \<Longrightarrow> n - m * q < m"
proof -
  have d: "0 \<le> n div m" "n = m * (n div m) + n mod m" "0 \<le> n mod m" "n mod m < m"
    using assms(1,2) by (simp_all add: pos_imp_zdiv_nonneg_iff)
  show "0 \<le> q" "q \<le> cap" using d(1) assms(3,4) by simp_all
  have "m * q \<le> m * (n div m)" using assms(2,4) by simp
  moreover have "m * (n div m) \<le> n" using d(2,3) by linarith
  ultimately show "0 \<le> n - m * q" by linarith
  assume "q < cap"
  then have "q = n div m" using assms(4) by simp
  then show "n - m * q < m" using d(4) by (simp add: minus_mult_div_eq_mod)
qed

lemma year_and_day:
  assumes "year_and_day n = (y, k)"
  shows "days_before_year y + k = n" and "0 \<le> k" and "k < 365 + (if leap_year y then 1 else 0)"
proof -
  define a r b r1 c r2 e where
    "a = n div 146097" and "r = n mod 146097" and "b = min 3 (r div 36524)" and "r1 = r - 36524 * b" and
    "c = r1 div 1461" and "r2 = r1 mod 1461" and "e = min 3 (r2 div 365)"
  note defs = a_def r_def b_def r1_def c_def r2_def e_def
  have y: "y = 400 * a + 100 * b + 4 * c + e + 1" and k: "k = r2 - 365 * e"
    using assms by (simp_all only: year_and_day_def Let_def defs prod.inject)
  have n: "n = 146097 * a + r" "0 \<le> r" "r < 146097" by (simp_all add: a_def r_def)
  have b: "0 \<le> b" "b \<le> 3" "0 \<le> r1" "b < 3 \<Longrightarrow> r1 < 36524"
    using capped_quotient [OF n(2) _ _ b_def] by (simp_all add: r1_def)
  have r1_le: "r1 \<le> 36524"
  proof (cases "b < 3")
    case False
    then have "b = 3" using b(2) by simp
    then show ?thesis using n(3) by (simp add: r1_def)
  qed (use b(4) in simp)
  have r1: "r1 = 1461 * c + r2" "0 \<le> r2" "r2 < 1461" by (simp_all add: c_def r2_def)
  have c: "0 \<le> c" "c \<le> 24" using r1 r1_le b(3) by linarith+
  have e: "0 \<le> e" "e \<le> 3" "0 \<le> r2 - 365 * e" "e < 3 \<Longrightarrow> r2 - 365 * e < 365"
    using capped_quotient [OF r1(2) _ _ e_def] by simp_all
  have k_le: "k \<le> 365"
  proof (cases "e < 3")
    case False
    then have "e = 3" using e(2) by simp
    then show ?thesis using r1(3) k by simp
  qed (use e(4) k in simp)
  have y4: "y - 1 = 4 * (100 * a + 25 * b + c) + e" unfolding y by (simp add: algebra_simps)
  have y100: "y - 1 = 100 * (4 * a + b) + (4 * c + e)" unfolding y by (simp add: algebra_simps)
  have y400: "y - 1 = 400 * a + (100 * b + 4 * c + e)" unfolding y by (simp add: algebra_simps)
  have divs: "(y - 1) div 4 = 100 * a + 25 * b + c" "(y - 1) div 100 = 4 * a + b" "(y - 1) div 400 = a"
    by (rule int_div_pos_eq [OF y4]; use e(1,2) in simp)
      (rule int_div_pos_eq [OF y100] int_div_pos_eq [OF y400]; use b(1,2) c e(1,2) in simp)+
  show "days_before_year y + k = n"
    unfolding days_before_year_def divs unfolding y k using n(1) r1(1) r1_def by (simp add: algebra_simps)
  show "0 \<le> k" using e k by simp
  show "k < 365 + (if leap_year y then 1 else 0)"
  proof (cases "k = 365")
    case True
    then have "\<not> e < 3" using e(4) k by auto
    then have e3: "e = 3" using e(2) by simp
    then have r2: "r2 = 1460" using True k by simp
    have "c < 24 \<or> b = 3"
    proof (cases "b < 3")
      case True
      then show ?thesis using b(4) r1(1) r2 c(2) by simp
    qed (use b(2) in simp)
    moreover have y4: "y = 4 * (100 * a + 25 * b + c + 1)" using y e3 by (simp add: algebra_simps)
    then have "y mod 4 = 0" by simp
    moreover have "y mod 100 = 4 * c + 4" if "c < 24"
    proof (rule int_mod_pos_eq)
      show "y = 100 * (4 * a + b) + (4 * c + 4)" using y e3 by (simp add: algebra_simps)
    qed (use c that in simp_all)
    moreover have "y mod 400 = 0" if "c = 24" "b = 3"
    proof -
      have "y = 400 * (a + 1)" using y e3 that by simp
      then show ?thesis by simp
    qed
    ultimately have "y mod 4 = 0 \<and> (y mod 100 \<noteq> 0 \<or> y mod 400 = 0)"
      using c by (cases "c = 24") auto
    then show ?thesis using True by (simp add: leap_year_def)
  next
    case False
    then show ?thesis using k_le by simp
  qed
qed

lemma month_of_day:
  assumes "0 \<le> k" and "k < 365 + (if leap then 1 else 0)"
  defines "m \<equiv> month_of_day leap k"
  shows "1 \<le> m" and "m \<le> 12" and "days_before_month leap m \<le> k" and "k < days_before_month leap (m + 1)"
  using assms(1,2) unfolding m_def month_of_day_def Let_def
  by (cases leap; simp add: days_before_month_def; fail)+

lemma date_of_day:
  assumes "date_of_day n = (y, m, d)"
  shows "day_number y m d = n" and "1 \<le> m" and "m \<le> 12" and "1 \<le> d" and "d \<le> days_in_month (leap_year y) m"
proof -
  obtain k where k: "year_and_day n = (y, k)" "m = month_of_day (leap_year y) k"
      "d = k - days_before_month (leap_year y) m + 1"
    using assms by (auto simp: date_of_day_def Let_def split: prod.splits)
  note yk = year_and_day [OF k(1)]
  note mk = month_of_day [OF yk(2,3), folded k(2)]
  show "day_number y m d = n" using yk(1) k(3) by (simp add: day_number_def)
  show "1 \<le> m" "m \<le> 12" "1 \<le> d" "d \<le> days_in_month (leap_year y) m"
    using mk k(3) by (simp_all add: days_in_month_def)
qed

section \<open>Writing a time\<close>

definition second :: int where
  "second = 1000000000"

definition day :: int where
  "day = 86400 * second"

text \<open>\<open>k\<close> digits of a number.\<close>

fun pad_digits :: "nat \<Rightarrow> nat \<Rightarrow> string" where
  "pad_digits 0 n = []"
| "pad_digits (Suc k) n = pad_digits k (n div 10) @ [digit_char (n mod 10)]"

definition trim_zeros :: "string \<Rightarrow> string" where
  "trim_zeros s = rev (dropWhile (\<lambda>c. c = CHR ''0'') (rev s))"

text \<open>\<open>t.UTC().Format(time.RFC3339Nano)\<close>, for a year of four digits.\<close>

definition fraction_text :: "nat \<Rightarrow> string" where
  "fraction_text nano = (if nano = 0 then [] else ''.'' @ trim_zeros (pad_digits 9 nano))"

definition RFC3339Nano :: "time \<Rightarrow> string" where
  "RFC3339Nano t =
     (case date_of_day (t div day) of (y, m, d) \<Rightarrow>
        let n = nat (t mod day); s = n div 1000000000 in
        pad_digits 4 (nat y) @ ''-'' @ pad_digits 2 (nat m) @ ''-'' @ pad_digits 2 (nat d) @ ''T'' @
        pad_digits 2 (s div 3600) @ '':'' @ pad_digits 2 (s div 60 mod 60) @ '':'' @ pad_digits 2 (s mod 60) @
        fraction_text (n mod 1000000000) @ ''Z'')"

text \<open>A year that has four digits.\<close>

definition writable_year :: "time \<Rightarrow> bool" where
  "writable_year t \<longleftrightarrow> (case date_of_day (t div day) of (y, m, d) \<Rightarrow> 0 \<le> y \<and> y \<le> 9999)"

definition Time_MarshalJSON :: "time \<Rightarrow> string option" where
  "Time_MarshalJSON t = (if writable_year t then Some (quote_char # RFC3339Nano t @ [quote_char]) else None)"

section \<open>Reading a time\<close>

definition take_digits :: "nat \<Rightarrow> string \<Rightarrow> (nat \<times> string) option" where
  "take_digits k s =
     (if length (take k s) = k \<and> list_all is_digit (take k s) then Some (digits_value 0 (take k s), drop k s) else None)"

definition skip_char :: "char \<Rightarrow> string \<Rightarrow> string option" where
  "skip_char c s = (case s of x # xs \<Rightarrow> if x = c then Some xs else None | [] \<Rightarrow> None)"

text \<open>One or two digits.\<close>

definition take_hour :: "string \<Rightarrow> (nat \<times> string) option" where
  "take_hour s = (case take_digits 2 s of Some r \<Rightarrow> Some r | None \<Rightarrow> take_digits 1 s)"

text \<open>The fraction of the second, in nanoseconds: the digits beyond the ninth are ignored.\<close>

definition take_fraction :: "string \<Rightarrow> nat \<times> string" where
  "take_fraction s =
     (case s of
        c # d # r \<Rightarrow>
          if (c = CHR ''.'' \<or> c = CHR '','') \<and> is_digit d then
            let ds = takeWhile is_digit (d # r); kept = take 9 ds
            in (digits_value 0 kept * 10 ^ (9 - length kept), dropWhile is_digit (d # r))
          else (0, s)
      | _ \<Rightarrow> (0, s))"

text \<open>The offset of the zone, in seconds.\<close>

definition take_zone :: "string \<Rightarrow> (int \<times> string) option" where
  "take_zone s =
     (case s of
        [] \<Rightarrow> None
      | c # r \<Rightarrow>
          if c = CHR ''Z'' then Some (0, r)
          else if c = CHR ''+'' \<or> c = CHR ''-'' then
            (case take_digits 2 r of None \<Rightarrow> None | Some (h, r1) \<Rightarrow>
            (case skip_char (CHR '':'') r1 of None \<Rightarrow> None | Some r2 \<Rightarrow>
            (case take_digits 2 r2 of None \<Rightarrow> None | Some (m, r3) \<Rightarrow>
               if 24 < h \<or> 60 < m then None
               else Some ((if c = CHR ''-'' then -1 else 1) * int (h * 3600 + m * 60), r3))))
          else None)"

definition instant :: "nat \<Rightarrow> nat \<Rightarrow> nat \<Rightarrow> nat \<Rightarrow> nat \<Rightarrow> nat \<Rightarrow> nat \<Rightarrow> int \<Rightarrow> time" where
  "instant y m d h mi s nano offset =
     day_number (int y) (int m) (int d) * day + (int (h * 3600 + mi * 60 + s) - offset) * second + int nano"

definition take_date :: "string \<Rightarrow> (nat \<times> nat \<times> nat \<times> string) option" where
  "take_date s0 =
     (case take_digits 4 s0 of None \<Rightarrow> None | Some (y, s1) \<Rightarrow>
     (case skip_char (CHR ''-'') s1 of None \<Rightarrow> None | Some s2 \<Rightarrow>
     (case take_digits 2 s2 of None \<Rightarrow> None | Some (m, s3) \<Rightarrow>
     (case skip_char (CHR ''-'') s3 of None \<Rightarrow> None | Some s4 \<Rightarrow>
     (case take_digits 2 s4 of None \<Rightarrow> None | Some (d, s5) \<Rightarrow>
        if m < 1 \<or> 12 < m \<or> d < 1 \<or> days_in_month (leap_year (int y)) (int m) < int d then None
        else Some (y, m, d, s5))))))"

definition take_clock :: "string \<Rightarrow> (nat \<times> nat \<times> nat \<times> string) option" where
  "take_clock s0 =
     (case take_hour s0 of None \<Rightarrow> None | Some (h, s1) \<Rightarrow>
     (case skip_char (CHR '':'') s1 of None \<Rightarrow> None | Some s2 \<Rightarrow>
     (case take_digits 2 s2 of None \<Rightarrow> None | Some (mi, s3) \<Rightarrow>
     (case skip_char (CHR '':'') s3 of None \<Rightarrow> None | Some s4 \<Rightarrow>
     (case take_digits 2 s4 of None \<Rightarrow> None | Some (s, s5) \<Rightarrow>
        if 23 < h \<or> 59 < mi \<or> 59 < s then None else Some (h, mi, s, s5))))))"

definition Parse_RFC3339 :: "string \<Rightarrow> time option" where
  "Parse_RFC3339 text =
     (case take_date text of None \<Rightarrow> None | Some (y, m, d, s1) \<Rightarrow>
     (case skip_char (CHR ''T'') s1 of None \<Rightarrow> None | Some s2 \<Rightarrow>
     (case take_clock s2 of None \<Rightarrow> None | Some (h, mi, s, s3) \<Rightarrow>
     (case take_fraction s3 of (nano, s4) \<Rightarrow>
     (case take_zone s4 of None \<Rightarrow> None | Some (offset, s5) \<Rightarrow>
        if s5 \<noteq> [] then None else Some (instant y m d h mi s nano offset))))))"

text \<open>\<open>UnmarshalJSON\<close> reads the bytes between the quotes as they are.\<close>

definition store_time :: "json \<Rightarrow> time \<Rightarrow> time option" where
  "store_time v old = (case v of JString raw \<Rightarrow> Parse_RFC3339 raw | JNull \<Rightarrow> Some old | _ \<Rightarrow> None)"

section \<open>What is written is read back\<close>

lemma length_pad_digits [simp]: "length (pad_digits k n) = k"
  by (induction k arbitrary: n) simp_all

lemma pad_digits_digits [simp]: "list_all is_digit (pad_digits k n)"
  by (induction k arbitrary: n) simp_all

lemma digits_value_pad: "digits_value 0 (pad_digits k n) = n mod 10 ^ k"
proof (induction k arbitrary: n)
  case (Suc k)
  have "n mod (10 * 10 ^ k) = 10 * (n div 10 mod 10 ^ k) + n mod 10" by (rule mod_mult2_eq)
  then show ?case using Suc by (simp add: digits_value_append)
qed simp

lemma take_digits_pad: "n < 10 ^ k \<Longrightarrow> take_digits k (pad_digits k n @ r) = Some (n, r)"
  by (simp add: take_digits_def digits_value_pad)

lemma skip_char_Cons [simp]: "skip_char c (c # r) = Some r"
  by (simp add: skip_char_def)

lemma trim_zeros_split: "\<exists>n. s = trim_zeros s @ replicate n (CHR ''0'')"
proof -
  have "rev s = takeWhile (\<lambda>c. c = CHR ''0'') (rev s) @ dropWhile (\<lambda>c. c = CHR ''0'') (rev s)" by simp
  moreover have "takeWhile (\<lambda>c. c = CHR ''0'') (rev s) = replicate (length (takeWhile (\<lambda>c. c = CHR ''0'') (rev s))) (CHR ''0'')"
    by (intro replicate_eqI) (auto dest: set_takeWhileD)
  ultimately have "s = trim_zeros s @ rev (replicate (length (takeWhile (\<lambda>c. c = CHR ''0'') (rev s))) (CHR ''0''))"
    unfolding trim_zeros_def by (metis rev_append rev_rev_ident)
  then show ?thesis by (metis rev_replicate)
qed

lemma digits_value_zeros: "digits_value n (replicate k (CHR ''0'')) = n * 10 ^ k"
  by (induction k arbitrary: n) (simp_all add: byte_def)

lemma is_digit_0 [simp]: "is_digit (CHR ''0'')"
  by (simp add: is_digit_def byte_in_def byte_def)

lemma take_fraction_text:
  assumes "nano < 10 ^ 9" and "r = [] \<or> \<not> is_digit (hd r)" and "r \<noteq> [] \<Longrightarrow> hd r \<noteq> CHR ''.'' \<and> hd r \<noteq> CHR '',''"
  shows "take_fraction (fraction_text nano @ r) = (nano, r)"
proof (cases "nano = 0")
  case True
  then show ?thesis using assms(3) by (auto simp: fraction_text_def take_fraction_def split: list.split)
next
  case False
  define ds where "ds = trim_zeros (pad_digits 9 nano)"
  obtain n where n: "pad_digits 9 nano = ds @ replicate n (CHR ''0'')" using trim_zeros_split ds_def by blast
  have all: "list_all is_digit ds" using pad_digits_digits [of 9 nano] unfolding n by simp
  have len: "length ds + n = 9" using arg_cong [OF n, of length] by simp
  have "digits_value 0 ds * 10 ^ n = nano"
    using digits_value_pad [of 9 nano] assms(1) unfolding n by (simp add: digits_value_append digits_value_zeros)
  moreover from this have "ds \<noteq> []" using False by auto
  ultimately obtain d es where ds: "ds = d # es" and v: "digits_value 0 (d # es) * 10 ^ n = nano" by (cases ds) auto
  have "n = 9 - length (d # es)" "length (d # es) \<le> 9" using len ds by simp_all
  moreover have "takeWhile is_digit (ds @ r) = ds" "dropWhile is_digit (ds @ r) = r"
    using all assms(2) by (auto simp: list_all_iff takeWhile_append2 dropWhile_append2 takeWhile_eq_Nil_iff dropWhile_eq_self_iff)
  ultimately show ?thesis
    using False all v by (simp add: fraction_text_def take_fraction_def ds_def [symmetric] Let_def ds)
qed

lemma take_zone_Z [simp]: "take_zone [CHR ''Z''] = Some (0, [])"
  by (simp add: take_zone_def)

lemma take_date_text:
  assumes "date_of_day n = (y, m, d)" and "0 \<le> y" and "y \<le> 9999"
  shows "take_date (pad_digits 4 (nat y) @ CHR ''-'' # pad_digits 2 (nat m) @ CHR ''-'' # pad_digits 2 (nat d) @ r) =
    Some (nat y, nat m, nat d, r)"
proof -
  note date = date_of_day [OF assms(1)]
  have "days_in_month (leap_year y) m \<le> 31"
    using date(2,3) by (simp add: days_in_month_def days_before_month_def)
  then have d: "d \<le> 31" using date(5) by simp
  have "nat y < 10 ^ 4" "nat m < 10 ^ 2" "nat d < 10 ^ 2" using assms(2,3) date(2,3,4) d by simp_all
  then show ?thesis
    using date(2-5) assms(2) by (simp add: take_date_def take_digits_pad)
qed

lemma take_clock_text:
  assumes "h < 24" and "mi < 60" and "s < 60"
  shows "take_clock (pad_digits 2 h @ CHR '':'' # pad_digits 2 mi @ CHR '':'' # pad_digits 2 s @ r) = Some (h, mi, s, r)"
proof -
  have "h < 10 ^ 2" "mi < 10 ^ 2" "s < 10 ^ 2" using assms by simp_all
  then show ?thesis using assms by (simp add: take_clock_def take_hour_def take_digits_pad)
qed

theorem Time_text_roundtrip:
  assumes "writable_year t"
  shows "Parse_RFC3339 (RFC3339Nano t) = Some t"
proof -
  obtain y m d where date: "date_of_day (t div day) = (y, m, d)" by (cases "date_of_day (t div day)") auto
  then have y: "0 \<le> y" "y \<le> 9999" using assms by (simp_all add: writable_year_def)
  define n where "n = nat (t mod day)"
  define s where "s = n div 1000000000"
  have n: "int n = t mod day" "n < 86400 * 1000000000" by (simp_all add: n_def day_def second_def nat_less_iff)
  then have s: "s < 86400" unfolding s_def by (simp add: div_less_iff_less_mult less_mult_imp_div_less)
  have h: "s div 3600 < 24" using s by (simp add: less_mult_imp_div_less)
  have sum: "s = s div 3600 * 3600 + s div 60 mod 60 * 60 + s mod 60"
  proof -
    have "s div 60 div 60 = s div 3600" by (simp add: div_mult2_eq [symmetric])
    then have "s div 60 = s div 3600 * 60 + s div 60 mod 60" using div_mult_mod_eq [of "s div 60" 60] by simp
    then have "s div 60 * 60 = s div 3600 * 3600 + s div 60 mod 60 * 60" by linarith
    then show ?thesis using div_mult_mod_eq [of s 60] by linarith
  qed
  have "Parse_RFC3339 (RFC3339Nano t) =
      Some (instant (nat y) (nat m) (nat d) (s div 3600) (s div 60 mod 60) (s mod 60) (n mod 1000000000) 0)"
    using take_date_text [OF date y] take_clock_text [OF h, of "s div 60 mod 60" "s mod 60"]
      take_fraction_text [of "n mod 1000000000" "''Z''"]
    by (simp add: Parse_RFC3339_def RFC3339Nano_def date n_def [symmetric] Let_def s_def [symmetric] is_digit_def
        byte_in_def byte_def)
  also have "instant (nat y) (nat m) (nat d) (s div 3600) (s div 60 mod 60) (s mod 60) (n mod 1000000000) 0 =
      (t div day) * day + int s * second + int (n mod 1000000000)"
    using date_of_day [OF date] y(1) sum by (simp add: instant_def)
  also have "\<dots> = t div day * day + (int s * second + int (n mod 1000000000))" by simp
  also have "int s * second + int (n mod 1000000000) = t mod day"
  proof -
    have "int (n div 1000000000 * 1000000000 + n mod 1000000000) = t mod day" using n(1) by (simp only: div_mult_mod_eq)
    then show ?thesis by (simp only: s_def second_def of_nat_add of_nat_mult of_nat_numeral)
  qed
  finally show ?thesis using div_mult_mod_eq [of t day] by simp
qed

end
