(* ===== verification/Base64.thy ===== *)
theory Base64
  imports GoText
begin

text \<open>
  \<open>base64.RawURLEncoding\<close> of \<open>encoding/base64\<close>, with the strict reading: six bits to a character, no padding, and
  the bits beyond the last byte are zero. The reader skips line breaks.
\<close>

definition b64_char :: "nat \<Rightarrow> char" where
  "b64_char v =
     (if v < 26 then char_of (65 + v) else if v < 52 then char_of (71 + v) else if v < 62 then char_of (v - 4)
      else if v = 62 then CHR ''-'' else CHR ''_'')"

definition b64_value :: "char \<Rightarrow> nat option" where
  "b64_value c =
     (if byte_in 65 90 c then Some (byte c - 65) else if byte_in 97 122 c then Some (byte c - 71)
      else if byte_in 48 57 c then Some (byte c + 4) else if c = CHR ''-'' then Some 62
      else if c = CHR ''_'' then Some 63 else None)"

fun b64_sextets :: "string \<Rightarrow> nat list" where
  "b64_sextets [] = []"
| "b64_sextets [a] = [byte a div 4, byte a mod 4 * 16]"
| "b64_sextets [a, b] = [byte a div 4, byte a mod 4 * 16 + byte b div 16, byte b mod 16 * 4]"
| "b64_sextets (a # b # c # r) =
     byte a div 4 # (byte a mod 4 * 16 + byte b div 16) # (byte b mod 16 * 4 + byte c div 64) # byte c mod 64 #
     b64_sextets r"

definition RawURLEncoding_EncodeToString :: "string \<Rightarrow> string" where
  "RawURLEncoding_EncodeToString s = map b64_char (b64_sextets s)"

fun b64_values :: "string \<Rightarrow> nat list option" where
  "b64_values [] = Some []"
| "b64_values (c # cs) =
     (if byte c = 10 \<or> byte c = 13 then b64_values cs
      else (case b64_value c of None \<Rightarrow> None | Some v \<Rightarrow>
           (case b64_values cs of None \<Rightarrow> None | Some vs \<Rightarrow> Some (v # vs))))"

fun b64_bytes :: "nat list \<Rightarrow> string option" where
  "b64_bytes [] = Some []"
| "b64_bytes [v] = None"
| "b64_bytes [v, w] = (if w mod 16 \<noteq> 0 then None else Some [char_of (v * 4 + w div 16)])"
| "b64_bytes [v, w, x] =
     (if x mod 4 \<noteq> 0 then None else Some [char_of (v * 4 + w div 16), char_of (w mod 16 * 16 + x div 4)])"
| "b64_bytes (v # w # x # y # r) =
     (case b64_bytes r of
        None \<Rightarrow> None
      | Some bs \<Rightarrow>
          Some (char_of (v * 4 + w div 16) # char_of (w mod 16 * 16 + x div 4) # char_of (x mod 4 * 64 + y) # bs))"

definition RawURLEncoding_Strict_DecodeString :: "string \<Rightarrow> string option" where
  "RawURLEncoding_Strict_DecodeString s = (case b64_values s of None \<Rightarrow> None | Some vs \<Rightarrow> b64_bytes vs)"

lemma byte_lt [simp]: "byte c < 256"
  by (simp add: byte_def)

lemma char_of_byte [simp]: "char_of (byte c) = c"
  by (simp add: byte_def)

lemma byte_char_of [simp]: "n < 256 \<Longrightarrow> byte (char_of n) = n"
  by (simp add: byte_def)

lemma b64_value_char:
  assumes "v < 64"
  shows "b64_value (b64_char v) = Some v" and "byte (b64_char v) \<noteq> 10" and "byte (b64_char v) \<noteq> 13"
proof -
  have s: "byte (CHR ''-'') = 45" "byte (CHR ''_'') = 95" by (simp_all add: byte_def)
  consider "v < 26" | "26 \<le> v" "v < 52" | "52 \<le> v" "v < 62" | "v = 62" | "v = 63" using assms by linarith
  then have "b64_value (b64_char v) = Some v \<and> byte (b64_char v) \<noteq> 10 \<and> byte (b64_char v) \<noteq> 13"
    by cases (auto simp: b64_value_def b64_char_def byte_in_def s)
  then show "b64_value (b64_char v) = Some v" "byte (b64_char v) \<noteq> 10" "byte (b64_char v) \<noteq> 13" by simp_all
qed

lemma b64_values_chars: "list_all (\<lambda>v. v < 64) vs \<Longrightarrow> b64_values (map b64_char vs) = Some vs"
  by (induction vs) (simp_all add: b64_value_char)

lemma sextet_bounds:
  assumes "a < 256" and "b < (256 :: nat)"
  shows "a div 4 < 64" and "a mod 4 * 16 + b div 16 < 64" and "a mod 16 * 4 + b div 64 < 64"
proof -
  have "a div 4 < 64" "b div 16 < 16" "b div 64 < 4" using assms by (simp_all add: less_mult_imp_div_less)
  moreover have "a mod 4 < 4" "a mod 16 < 16" by simp_all
  ultimately show "a div 4 < 64" "a mod 4 * 16 + b div 16 < 64" "a mod 16 * 4 + b div 64 < 64" by linarith+
qed

lemma b64_sextets_small: "list_all (\<lambda>v. v < 64) (b64_sextets s)"
proof (induction s rule: b64_sextets.induct)
  case (2 a)
  then show ?case using sextet_bounds [of "byte a" 0] by simp
next
  case (3 a b)
  then show ?case using sextet_bounds [of "byte a" "byte b"] sextet_bounds(3) [of "byte b" 0] by simp
next
  case (4 a b c r)
  then show ?case using sextet_bounds [of "byte a" "byte b"] sextet_bounds(3) [of "byte b" "byte c"] by simp
qed simp

lemma first_byte: "a < 256 \<Longrightarrow> b < 256 \<Longrightarrow> a div 4 * 4 + (a mod 4 * 16 + b div 16) div 16 = (a :: nat)"
  by (simp add: less_mult_imp_div_less)

lemma second_byte:
  "a < 256 \<Longrightarrow> b < 256 \<Longrightarrow> c < 256 \<Longrightarrow>
   (a mod 4 * 16 + b div 16) mod 16 * 16 + (b mod 16 * 4 + c div 64) div 4 = (b :: nat)"
  by (simp add: less_mult_imp_div_less)

lemma third_byte: "c < 256 \<Longrightarrow> (b mod 16 * 4 + c div 64) mod 4 * 64 + c mod 64 = (c :: nat)"
  by (simp add: less_mult_imp_div_less)

lemma b64_bytes_sextets: "b64_bytes (b64_sextets s) = Some s"
proof (induction s rule: b64_sextets.induct)
  case (2 a)
  then show ?case using first_byte [of "byte a" 0] by simp
next
  case (3 a b)
  then show ?case using first_byte [of "byte a" "byte b"] second_byte [of "byte a" "byte b" 0] by simp
next
  case (4 a b c r)
  then show ?case
    using first_byte [of "byte a" "byte b"] second_byte [of "byte a" "byte b" "byte c"] third_byte [of "byte c" "byte b"]
    by simp
qed simp

theorem base64_roundtrip: "RawURLEncoding_Strict_DecodeString (RawURLEncoding_EncodeToString s) = Some s"
  by (simp add: RawURLEncoding_Strict_DecodeString_def RawURLEncoding_EncodeToString_def b64_values_chars
      b64_sextets_small b64_bytes_sextets)

lemma encoded_nonempty [simp]: "s \<noteq> [] \<Longrightarrow> RawURLEncoding_EncodeToString s \<noteq> []"
  by (cases s rule: b64_sextets.cases) (simp_all add: RawURLEncoding_EncodeToString_def)

text \<open>Four characters for three bytes.\<close>

lemma length_encoded: "3 * length (RawURLEncoding_EncodeToString s) \<le> 4 * length s + 2"
proof -
  have "3 * length (b64_sextets s) \<le> 4 * length s + 2" by (induction s rule: b64_sextets.induct) simp_all
  then show ?thesis by (simp add: RawURLEncoding_EncodeToString_def)
qed

end
