(* ===== verification/ListLedger.thy ===== *)
theory ListLedger
  imports Queries GoTime Base64
begin

text \<open>
  \<open>internal/application/list_ledger.go\<close>: the pages of a ledger. The cursor is the position of the last line of a
  page, as JSON in base64. Reading page after page from a growing ledger yields every line that was there at the
  first page exactly once.
\<close>

section \<open>The cursor\<close>

text \<open>\<open>uuid.UUID.String\<close> and \<open>uuid.Parse\<close> of the package \<open>github.com/google/uuid\<close>.\<close>

record uuid_text =
  ut_String :: "uuid \<Rightarrow> string"
  ut_Parse :: "string \<Rightarrow> uuid option"

text \<open>What the package documents: 36 hexadecimal digits and dashes, which \<open>Parse\<close> reads back.\<close>

definition uuid_char :: "char \<Rightarrow> bool" where
  "uuid_char c \<longleftrightarrow> byte_in 48 57 c \<or> byte_in 97 102 c \<or> byte c = 45"

definition uuid_documented :: "uuid_text \<Rightarrow> bool" where
  "uuid_documented ut \<longleftrightarrow>
     (\<forall>u. ut_Parse ut (ut_String ut u) = Some u \<and> length (ut_String ut u) = 36 \<and>
          list_all uuid_char (ut_String ut u))"

definition position_json :: "uuid_text \<Rightarrow> LedgerPosition \<Rightarrow> string option" where
  "position_json ut p =
     (case Time_MarshalJSON (lp_CreatedAt p) of
        None \<Rightarrow> None
      | Some createdAt \<Rightarrow>
          Some (json_object
            [json_member ''walletId'' (json_string (ut_String ut (lp_WalletID p))),
             json_member ''createdAt'' createdAt,
             json_member ''id'' (json_string (ut_String ut (lp_ID p)))]))"

definition zero_position :: LedgerPosition where
  "zero_position = \<lparr>lp_WalletID = uuid_Nil, lp_CreatedAt = 0, lp_ID = uuid_Nil\<rparr>"

definition position_fields :: "uuid_text \<Rightarrow> (string \<times> (json \<Rightarrow> LedgerPosition \<Rightarrow> LedgerPosition option)) list" where
  "position_fields ut =
     [(''walletId'', \<lambda>v p. map_option (\<lambda>u. p\<lparr>lp_WalletID := u\<rparr>) (store_text (ut_Parse ut) v (lp_WalletID p))),
      (''createdAt'', \<lambda>v p. map_option (\<lambda>t. p\<lparr>lp_CreatedAt := t\<rparr>) (store_time v (lp_CreatedAt p))),
      (''id'', \<lambda>v p. map_option (\<lambda>u. p\<lparr>lp_ID := u\<rparr>) (store_text (ut_Parse ut) v (lp_ID p)))]"

definition decodeLedgerCursor :: "uuid_text \<Rightarrow> uuid \<Rightarrow> string \<Rightarrow> error + LedgerPosition option" where
  "decodeLedgerCursor ut walletID cursor =
     (if cursor = [] then Inr None
      else if 512 < length cursor then Inl ErrInvalidLedgerPage
      else
        (case RawURLEncoding_Strict_DecodeString cursor of
           None \<Rightarrow> Inl ErrInvalidLedgerPage
         | Some data \<Rightarrow>
             (case decode_value data of
                None \<Rightarrow> Inl ErrInvalidLedgerPage
              | Some (v, rest) \<Rightarrow>
                  (case store_struct True (position_fields ut) v zero_position of
                     None \<Rightarrow> Inl ErrInvalidLedgerPage
                   | Some position \<Rightarrow>
                       if \<not> at_EOF rest \<or> lp_WalletID position \<noteq> walletID \<or> lp_ID position = uuid_Nil \<or>
                          Time_IsZero (lp_CreatedAt position)
                       then Inl ErrInvalidLedgerPage
                       else Inr (Some position)))))"

section \<open>A page\<close>

record LedgerPage =
  pg_Items :: "LedgerRecord list"
  pg_NextCursor :: string

definition ListLedger_Execute ::
  "uuid_text \<Rightarrow> 's wallet_queries \<Rightarrow> uuid \<Rightarrow> string \<Rightarrow> int \<Rightarrow> 's \<Rightarrow> error + LedgerPage" where
  "ListLedger_Execute ut queries walletID cursor limit s =
     (if walletID = uuid_Nil then Inl ErrInvalidWallet
      else if limit < 1 \<or> 100 < limit then Inl ErrInvalidLedgerPage
      else
        (case decodeLedgerCursor ut walletID cursor of
           Inl e \<Rightarrow> Inl e
         | Inr position \<Rightarrow>
             (case wq_ListLedger queries walletID position (limit + 1) s of
                Inl e \<Rightarrow> Inl e
              | Inr items \<Rightarrow>
                  if limit < int (length items) then
                    let page = take (nat limit) items; last = page ! (nat limit - 1)
                    in (case position_json ut \<lparr>lp_WalletID = walletID, lp_CreatedAt = le_CreatedAt last,
                                               lp_ID = le_ID last\<rparr> of
                          None \<Rightarrow> Inl (Infra OtherInfraError)
                        | Some encoded \<Rightarrow>
                            Inr \<lparr>pg_Items = page, pg_NextCursor = RawURLEncoding_EncodeToString encoded\<rparr>)
                  else Inr \<lparr>pg_Items = items, pg_NextCursor = []\<rparr>)))"

section \<open>The cursor is read back\<close>

lemma uuid_char_plain: "list_all uuid_char s \<Longrightarrow> list_all plain_char s"
  unfolding list_all_iff
proof
  fix c
  assume "\<forall>c \<in> set s. uuid_char c" and "c \<in> set s"
  then have "byte c \<in> {45} \<union> {48..57} \<union> {97..102}" by (auto simp: uuid_char_def byte_in_def)
  moreover have "byte quote_char = 34" "byte backslash_char = 92" "byte (CHR ''<'') = 60" "byte (CHR ''>'') = 62"
    "byte (CHR ''&'') = 38" by (simp_all add: byte_def quote_char_def backslash_char_def)
  ultimately show "plain_char c" unfolding plain_char_def by force
qed

lemma digits_plain: "list_all is_digit s \<Longrightarrow> list_all plain_char s"
  using uuid_char_plain unfolding list_all_iff by (auto simp: is_digit_def uuid_char_def)

lemma RFC3339Nano_plain: "list_all plain_char (RFC3339Nano t)"
proof -
  have sep: "plain_char (CHR ''-'')" "plain_char (CHR '':'')" "plain_char (CHR ''T'')" "plain_char (CHR ''.'')"
    "plain_char (CHR ''Z'')"
    by (simp_all add: plain_char_def byte_def quote_char_def backslash_char_def)
  have "list_all is_digit (trim_zeros (pad_digits k n))" for k n
    using pad_digits_digits [of k n] set_dropWhileD unfolding trim_zeros_def list_all_iff set_rev by fastforce
  then have trimmed: "list_all plain_char (trim_zeros (pad_digits k n))" for k n by (rule digits_plain)
  have padded: "list_all plain_char (pad_digits k n)" for k n by (rule digits_plain) simp
  show ?thesis
    unfolding RFC3339Nano_def fraction_text_def Let_def case_prod_beta list_all_append list.pred_inject
    by (simp only: sep trimmed padded if_split list_all_append list.pred_inject simp_thms)
qed

lemma length_RFC3339Nano: "length (RFC3339Nano t) \<le> 30"
proof -
  have "length (trim_zeros (pad_digits 9 n)) \<le> 9" for n
    using length_dropWhile_le [of _ "rev (pad_digits 9 n)"] by (simp add: trim_zeros_def)
  then have "length (fraction_text n) \<le> 10" for n by (simp add: fraction_text_def)
  then show ?thesis by (simp add: RFC3339Nano_def Let_def split: prod.split)
qed

lemma field_names: "list_all plain_char ''walletId''" "list_all plain_char ''createdAt''" "list_all plain_char ''id''"
  by code_simp+

definition position_value :: "uuid_text \<Rightarrow> LedgerPosition \<Rightarrow> json" where
  "position_value ut p =
     JObject [(''walletId'', JString (ut_String ut (lp_WalletID p))),
              (''createdAt'', JString (RFC3339Nano (lp_CreatedAt p))), (''id'', JString (ut_String ut (lp_ID p)))]"

lemma position_json_text:
  assumes "uuid_documented ut" and "writable_year (lp_CreatedAt p)"
  shows "position_json ut p = Some (json_text 1 (position_value ut p))" and "text_json 1 (position_value ut p)"
proof -
  have u: "plain (ut_String ut u)" for u
    using assms(1) uuid_char_plain by (simp add: uuid_documented_def)
  then show "position_json ut p = Some (json_text 1 (position_value ut p))"
    using assms(2)
    by (simp add: position_json_def Time_MarshalJSON_def position_value_def json_string_plain)
  show "text_json 1 (position_value ut p)"
    using u [THEN plain_scannable] field_names RFC3339Nano_plain [THEN plain_scannable]
    by (simp add: position_value_def)
qed

lemma cursor_roundtrip:
  assumes "uuid_documented ut" and "writable_year (lp_CreatedAt p)" and "lp_CreatedAt p \<noteq> 0" and "lp_ID p \<noteq> uuid_Nil"
    and "position_json ut p = Some encoded"
  shows "RawURLEncoding_EncodeToString encoded \<noteq> [] \<and>
    decodeLedgerCursor ut (lp_WalletID p) (RawURLEncoding_EncodeToString encoded) = Inr (Some p)"
proof -
  have u: "list_all plain_char (ut_String ut u)" "ut_Parse ut (ut_String ut u) = Some u"
      "length (ut_String ut u) = 36" for u
    using assms(1) uuid_char_plain by (simp_all add: uuid_documented_def)
  note written = position_json_text [OF assms(1,2)]
  have enc: "encoded = json_text 1 (position_value ut p)" using written(1) assms(5) by simp
  have "decode_value encoded = Some (position_value ut p, [])"
    using decode_text [OF written(2), of "[]"] by (simp add: enc max_nesting_def)
  moreover have "store_struct True (position_fields ut) (position_value ut p) zero_position = Some p"
  proof -
    have "unquote ''walletId'' = ''walletId''" "unquote ''createdAt'' = ''createdAt''" "unquote ''id'' = ''id''"
      by (intro unquote_plain field_names)+
    then show ?thesis
      using unquote_plain [OF u(1)] u(2) Time_text_roundtrip [OF assms(2)]
      by (simp add: position_value_def store_struct_def position_fields_def field_of_def store_text_def store_time_def)
  qed
  moreover have "length (RawURLEncoding_EncodeToString encoded) \<le> 512"
  proof -
    have "length encoded \<le> 150"
      unfolding enc using u(3) length_RFC3339Nano [of "lp_CreatedAt p"]
      by (simp add: position_value_def json_object_def json_member_def json_string_plain [OF field_names(1)]
          json_string_plain [OF field_names(2)] json_string_plain [OF field_names(3)])
    then show ?thesis using length_encoded [of encoded] by linarith
  qed
  moreover have "RawURLEncoding_EncodeToString encoded \<noteq> []" unfolding enc by (simp add: position_value_def json_object_def)
  ultimately show ?thesis
    using assms(3,4) by (simp add: decodeLedgerCursor_def base64_roundtrip at_EOF_def Time_IsZero_def)
qed

section \<open>Page after page\<close>

definition newer :: "LedgerRecord \<Rightarrow> LedgerRecord \<Rightarrow> bool" where
  "newer a b \<longleftrightarrow> (le_CreatedAt b, le_ID b) < (le_CreatedAt a, le_ID a)"

definition position_of :: "uuid \<Rightarrow> LedgerRecord \<Rightarrow> LedgerPosition" where
  "position_of i e = \<lparr>lp_WalletID = i, lp_CreatedAt = le_CreatedAt e, lp_ID = le_ID e\<rparr>"

text \<open>
  A client that follows the cursors, for at most so many pages: \<open>states\<close> are the states that its calls meet, one
  after the other.
\<close>

fun read_pages ::
  "uuid_text \<Rightarrow> 's wallet_queries \<Rightarrow> uuid \<Rightarrow> int \<Rightarrow> (nat \<Rightarrow> 's) \<Rightarrow> nat \<Rightarrow> string \<Rightarrow> LedgerRecord list option" where
  "read_pages ut queries i limit states 0 cursor = None"
| "read_pages ut queries i limit states (Suc n) cursor =
     (case ListLedger_Execute ut queries i cursor limit (states 0) of
        Inl e \<Rightarrow> None
      | Inr page \<Rightarrow>
          if pg_NextCursor page = [] then Some (pg_Items page)
          else map_option ((@) (pg_Items page))
                 (read_pages ut queries i limit (\<lambda>k. states (Suc k)) n (pg_NextCursor page)))"

text \<open>
  What the interface owes to the use case: the lines of a wallet, the newest first, after the given position, up to
  the limit.
\<close>

locale ledger_queries =
  fixes queries :: "'s wallet_queries" and entries :: "'s \<Rightarrow> uuid \<Rightarrow> LedgerRecord list option"
  assumes first_lines:
      "entries s i = Some es \<Longrightarrow> 0 \<le> n \<Longrightarrow> wq_ListLedger queries i None n s = Inr (take (nat n) es)"
    and next_lines:
      "entries s i = Some es \<Longrightarrow> 0 \<le> n \<Longrightarrow> e \<in> set es \<Longrightarrow>
       wq_ListLedger queries i (Some (position_of i e)) n s = Inr (take (nat n) (filter (newer e) es))"
    and newest_first_lines: "entries s i = Some es \<Longrightarrow> sorted_wrt newer es"

definition readable_line :: "LedgerRecord \<Rightarrow> bool" where
  "readable_line e \<longleftrightarrow> le_ID e \<noteq> uuid_Nil \<and> le_CreatedAt e \<noteq> 0 \<and> writable_year (le_CreatedAt e)"

lemma newer_asym: "newer a b \<Longrightarrow> \<not> newer b a"
  by (auto simp: newer_def)

lemma filter_newer:
  assumes "sorted_wrt newer (xs @ e # ys)"
  shows "filter (newer e) (xs @ e # ys) = ys"
proof -
  have "filter (newer e) xs = []" using assms newer_asym by (auto simp: sorted_wrt_append filter_empty_conv)
  moreover have "filter (newer e) ys = ys" using assms by (auto simp: sorted_wrt_append filter_id_conv)
  moreover have "\<not> newer e e" by (simp add: newer_def)
  ultimately show ?thesis by simp
qed

context ledger_queries
begin

text \<open>One call: what is left after a line of the list.\<close>

lemma page_after:
  assumes "entries s i = Some (xs @ e # ys)" and "uuid_documented ut" and "i \<noteq> uuid_Nil" and "1 \<le> limit" and "limit \<le> 100"
    and "\<forall>x \<in> set (e # ys). readable_line x"
    and "position_json ut (position_of i e) = Some encoded"
  shows "\<exists>page. ListLedger_Execute ut queries i (RawURLEncoding_EncodeToString encoded) limit s = Inr page \<and>
    pg_Items page = take (nat limit) ys \<and>
    (if length ys \<le> nat limit then pg_NextCursor page = []
     else \<exists>encoded'. position_json ut (position_of i (ys ! (nat limit - 1))) = Some encoded' \<and>
       pg_NextCursor page = RawURLEncoding_EncodeToString encoded')"
proof -
  have "readable_line e" using assms(6) by simp
  then have cursor: "decodeLedgerCursor ut i (RawURLEncoding_EncodeToString encoded) = Inr (Some (position_of i e))"
    using cursor_roundtrip [OF assms(2) _ _ _ assms(7)] by (simp add: readable_line_def position_of_def)
  have items: "wq_ListLedger queries i (Some (position_of i e)) (limit + 1) s = Inr (take (nat limit + 1) ys)"
  proof -
    have "wq_ListLedger queries i (Some (position_of i e)) (limit + 1) s =
        Inr (take (nat (limit + 1)) (filter (newer e) (xs @ e # ys)))"
      using assms(4) by (intro next_lines [OF assms(1)]) simp_all
    then show ?thesis
      using assms(4) unfolding filter_newer [OF newest_first_lines [OF assms(1)]] by (simp add: nat_add_distrib)
  qed
  show ?thesis
  proof (cases "length ys \<le> nat limit")
    case True
    then have "\<not> limit < int (length ys)" using assms(4) by linarith
    then show ?thesis using True cursor items assms(3-5) by (simp add: ListLedger_Execute_def)
  next
    case False
    let ?last = "ys ! (nat limit - 1)"
    have "?last \<in> set ys" using False assms(4) by (intro nth_mem) simp
    then have "writable_year (le_CreatedAt ?last)" using assms(6) by (simp add: readable_line_def)
    then obtain encoded' where "position_json ut (position_of i ?last) = Some encoded'"
      by (simp add: position_json_def position_of_def Time_MarshalJSON_def)
    moreover have "limit < int (length ys)" using False assms(4) by linarith
    ultimately show ?thesis
      using cursor items assms(3-5) False
      by (simp add: ListLedger_Execute_def Let_def position_of_def min_def nth_append)
  qed
qed

lemma pages_after:
  assumes "uuid_documented ut" and "i \<noteq> uuid_Nil" and "1 \<le> limit" and "limit \<le> 100"
    and "\<forall>k. \<exists>pre. entries (states k) i = Some (pre @ e # ys)" and "\<forall>x \<in> set (e # ys). readable_line x"
    and "position_json ut (position_of i e) = Some encoded" and "length ys < n"
  shows "read_pages ut queries i limit states n (RawURLEncoding_EncodeToString encoded) = Some ys"
  using assms(5-8)
proof (induction n arbitrary: states e ys encoded)
  case (Suc n)
  obtain pre where "entries (states 0) i = Some (pre @ e # ys)" using Suc.prems(1) by blast
  then obtain page where page: "ListLedger_Execute ut queries i (RawURLEncoding_EncodeToString encoded) limit (states 0) = Inr page"
      "pg_Items page = take (nat limit) ys"
      "if length ys \<le> nat limit then pg_NextCursor page = []
       else \<exists>encoded'. position_json ut (position_of i (ys ! (nat limit - 1))) = Some encoded' \<and>
         pg_NextCursor page = RawURLEncoding_EncodeToString encoded'"
    using page_after [OF _ assms(1-4) Suc.prems(2,3)] by blast
  show ?case
  proof (cases "length ys \<le> nat limit")
    case True
    then show ?thesis using page by simp
  next
    case False
    let ?last = "ys ! (nat limit - 1)"
    let ?rest = "drop (nat limit) ys"
    obtain encoded' where enc: "position_json ut (position_of i ?last) = Some encoded'"
        "pg_NextCursor page = RawURLEncoding_EncodeToString encoded'"
      using page(3) False by auto
    have split: "ys = take (nat limit - 1) ys @ ?last # ?rest"
      using id_take_nth_drop [of "nat limit - 1" ys] False assms(3) by simp
    have entries: "\<forall>k. \<exists>pre. entries (states (Suc k)) i = Some (pre @ ?last # ?rest)"
    proof
      fix k
      obtain pre where "entries (states (Suc k)) i = Some (pre @ e # ys)" using Suc.prems(1) by blast
      then have "entries (states (Suc k)) i = Some ((pre @ e # take (nat limit - 1) ys) @ ?last # ?rest)"
        using split by simp
      then show "\<exists>pre. entries (states (Suc k)) i = Some (pre @ ?last # ?rest)" by blast
    qed
    have readable: "\<forall>x \<in> set (?last # ?rest). readable_line x"
    proof -
      have "set (?last # ?rest) \<subseteq> set ys" by (subst (3) split) auto
      then show ?thesis using Suc.prems(2) by auto
    qed
    have "read_pages ut queries i limit (\<lambda>k. states (Suc k)) n (RawURLEncoding_EncodeToString encoded') = Some ?rest"
      using Suc.IH [OF entries readable enc(1)] Suc.prems(4) False assms(3) by simp
    moreover have "RawURLEncoding_EncodeToString encoded' \<noteq> []"
    proof -
      have "readable_line ?last" using readable by simp
      then show ?thesis using cursor_roundtrip [OF assms(1) _ _ _ enc(1)] by (simp add: readable_line_def position_of_def)
    qed
    ultimately show ?thesis using page(1,2) enc(2) by simp
  qed
qed simp

theorem pages_complete:
  assumes "uuid_documented ut" and "i \<noteq> uuid_Nil" and "1 \<le> limit" and "limit \<le> 100"
    and "entries (states 0) i = Some es" and "\<forall>k. \<exists>new. entries (states k) i = Some (new @ es)"
    and "\<forall>x \<in> set es. readable_line x"
  shows "read_pages ut queries i limit states (Suc (length es)) [] = Some es"
proof (cases "length es \<le> nat limit")
  case True
  have "wq_ListLedger queries i None (limit + 1) (states 0) = Inr es"
    using first_lines [OF assms(5), of "limit + 1"] assms(3) True by simp
  moreover have "\<not> limit < int (length es)" using True assms(3) by linarith
  ultimately show ?thesis using assms(2-4) by (simp add: ListLedger_Execute_def decodeLedgerCursor_def)
next
  case False
  let ?last = "es ! (nat limit - 1)"
  let ?rest = "drop (nat limit) es"
  have items: "wq_ListLedger queries i None (limit + 1) (states 0) = Inr (take (nat limit + 1) es)"
    using first_lines [OF assms(5), of "limit + 1"] assms(3) by (simp add: nat_add_distrib)
  have split: "es = take (nat limit - 1) es @ ?last # ?rest"
    using id_take_nth_drop [of "nat limit - 1" es] False assms(3) by simp
  have sub: "set (?last # ?rest) \<subseteq> set es" by (subst (3) split) auto
  then have readable: "\<forall>x \<in> set (?last # ?rest). readable_line x" using assms(7) by auto
  then obtain encoded where enc: "position_json ut (position_of i ?last) = Some encoded"
    by (auto simp: readable_line_def position_json_def position_of_def Time_MarshalJSON_def)
  have "\<exists>pre. entries (states (Suc k)) i = Some (pre @ ?last # ?rest)" for k
  proof -
    obtain new where "entries (states (Suc k)) i = Some (new @ es)" using assms(6) by blast
    then have "entries (states (Suc k)) i = Some ((new @ take (nat limit - 1) es) @ ?last # ?rest)" using split by simp
    then show ?thesis by blast
  qed
  then have "read_pages ut queries i limit (\<lambda>k. states (Suc k)) (length es) (RawURLEncoding_EncodeToString encoded) = Some ?rest"
    using False assms(3) by (intro pages_after [OF assms(1-4) _ readable enc]) auto
  moreover have "RawURLEncoding_EncodeToString encoded \<noteq> []"
    using cursor_roundtrip [OF assms(1) _ _ _ enc] readable by (simp add: readable_line_def position_of_def)
  moreover have "ListLedger_Execute ut queries i [] limit (states 0) =
      Inr \<lparr>pg_Items = take (nat limit) es, pg_NextCursor = RawURLEncoding_EncodeToString encoded\<rparr>"
  proof -
    have "limit < int (length es)" using False assms(3) by linarith
    then show ?thesis
      using items enc assms(2-4) False
      by (simp add: ListLedger_Execute_def decodeLedgerCursor_def Let_def position_of_def min_def nth_append)
  qed
  ultimately show ?thesis by simp
qed

end

section \<open>The tables keep the promise of the interface\<close>

definition ledger_entries :: "db \<Rightarrow> uuid \<Rightarrow> LedgerRecord list option" where
  "ledger_entries d i =
     (case fst (WalletRepository_FindByID i d) of
        Inl e \<Rightarrow> None
      | Inr w \<Rightarrow>
          if \<not> distinct (map lr_id (wallet_ledger d i)) then None
          else (case scan_rows (newest_first (wallet_ledger d i)) of Inl e \<Rightarrow> None | Inr es \<Rightarrow> Some es))"

abbreviation scanned :: "ledger_row list \<Rightarrow> LedgerRecord list \<Rightarrow> bool" where
  "scanned \<equiv> list_all2 (\<lambda>r e. scan_ledger r = Inr e)"

lemma scan_rows_iff: "scan_rows rs = Inr es \<longleftrightarrow> scanned rs es"
proof (induction rs arbitrary: es)
  case (Cons r rs)
  have "scanned (r # rs) es \<longleftrightarrow> (\<exists>e fs. es = e # fs \<and> scan_ledger r = Inr e \<and> scan_rows rs = Inr fs)"
    by (auto simp: list_all2_Cons1 Cons.IH)
  then show ?case by (auto split: sum.splits)
qed auto

lemma scanned_member: "scanned rs es \<Longrightarrow> e \<in> set es \<Longrightarrow> \<exists>r \<in> set rs. scan_ledger r = Inr e"
  by (induction rule: list_all2_induct) auto

lemma scan_ledger_key: "scan_ledger r = Inr e \<Longrightarrow> le_CreatedAt e = go_time (lr_created_at r) \<and> le_ID e = lr_id r"
  by (auto simp: scan_ledger_def split: sum.splits)

lemma newest_first_filter: "newest_first (filter P rs) = filter P (newest_first rs)"
  by (simp add: newest_first_def filter_sort rev_filter [symmetric])

lemma newest_first_sorted:
  assumes "distinct (map lr_id rs)"
  shows "sorted_wrt (\<lambda>a b. ledger_key b < ledger_key a) (newest_first rs)"
proof -
  have "set (sort_key ledger_key rs) = set rs" "distinct (sort_key ledger_key rs)"
    using assms by (simp_all add: distinct_map)
  then have "distinct (map ledger_key (sort_key ledger_key rs))"
    using assms by (auto simp: distinct_map inj_on_def ledger_key_def)
  then have "sorted_wrt (<) (map ledger_key (sort_key ledger_key rs))"
    by (simp add: strict_sorted_iff)
  then have "sorted_wrt (\<lambda>a b. ledger_key a < ledger_key b) (sort_key ledger_key rs)"
    by (simp add: sorted_wrt_map)
  then show ?thesis unfolding newest_first_def sorted_wrt_rev .
qed

lemma newer_rows:
  "scan_ledger r = Inr e \<Longrightarrow> scan_ledger r' = Inr e' \<Longrightarrow> newer e e' \<longleftrightarrow> ledger_key r' < ledger_key r"
  by (auto simp: newer_def ledger_key_def go_time_def dest!: scan_ledger_key)

lemma scanned_filter:
  "scanned rs es \<Longrightarrow> (\<And>r e. r \<in> set rs \<Longrightarrow> scan_ledger r = Inr e \<Longrightarrow> f r \<longleftrightarrow> g e) \<Longrightarrow> scanned (filter f rs) (filter g es)"
  by (induction rule: list_all2_induct) auto

lemma scanned_sorted:
  "scanned rs es \<Longrightarrow> sorted_wrt (\<lambda>a b. ledger_key b < ledger_key a) rs \<Longrightarrow> sorted_wrt newer es"
proof (induction rule: list_all2_induct)
  case (Cons r rs e es)
  have "newer e e'" if e': "e' \<in> set es" for e'
  proof -
    obtain r' where "r' \<in> set rs" "scan_ledger r' = Inr e'"
      using scanned_member [OF Cons.hyps(2) e'] by blast
    then show ?thesis using newer_rows [OF Cons.hyps(1)] Cons.prems by simp
  qed
  then show ?case using Cons by simp
qed simp

lemma ledger_entries_ok:
  "ledger_entries d i = Some es \<longleftrightarrow>
     (\<exists>w. fst (WalletRepository_FindByID i d) = Inr w) \<and> distinct (map lr_id (wallet_ledger d i)) \<and>
     scanned (newest_first (wallet_ledger d i)) es"
  by (auto simp: ledger_entries_def scan_rows_iff [symmetric] split: sum.split)

lemma list_from:
  assumes "ledger_entries d i = Some es"
    and "\<And>r e. r \<in> set (newest_first (wallet_ledger d i)) \<Longrightarrow> scan_ledger r = Inr e \<Longrightarrow> before_position position r \<longleftrightarrow> g e"
  shows "WalletQueries_ListLedger i position n d = Inr (take (nat n) (filter g es))"
proof -
  have "scanned (filter (before_position position) (newest_first (wallet_ledger d i))) (filter g es)"
    using assms by (intro scanned_filter) (simp_all add: ledger_entries_ok)
  then have "scanned (take (nat n) (filter (before_position position) (newest_first (wallet_ledger d i)))) (take (nat n) (filter g es))"
    by (rule list_all2_takeI)
  moreover have "filter (\<lambda>r. lr_wallet_id r = i \<and> before_position position r) (db_ledger d) =
      filter (before_position position) (wallet_ledger d i)"
    by (simp add: wallet_ledger_def conj_commute)
  ultimately show ?thesis
    using assms(1) by (auto simp: WalletQueries_ListLedger_def ledger_entries_ok newest_first_filter scan_rows_iff)
qed

interpretation pg_ledger: ledger_queries pg_queries ledger_entries
proof unfold_locales
  fix s i es n
  assume es: "ledger_entries s i = Some es"
  show "wq_ListLedger pg_queries i None n s = Inr (take (nat n) es)"
    using list_from [OF es, of None "\<lambda>_. True" n] by (simp add: pg_queries_def before_position_def)
  show "sorted_wrt newer es"
    using es newest_first_sorted scanned_sorted unfolding ledger_entries_ok by blast
next
  fix s i es n e
  assume es: "ledger_entries s i = Some es" and e: "e \<in> set es"
  obtain r where r: "scan_ledger r = Inr e"
    using es scanned_member [OF _ e] unfolding ledger_entries_ok by blast
  have pos: "(pg_time (lp_CreatedAt (position_of i e)), lp_ID (position_of i e)) = ledger_key r"
    using scan_ledger_key [OF r] by (simp add: position_of_def ledger_key_def pg_time_def go_time_def)
  show "wq_ListLedger pg_queries i (Some (position_of i e)) n s = Inr (take (nat n) (filter (newer e) es))"
    using list_from [OF es, of "Some (position_of i e)" "newer e" n] newer_rows [OF r]
    by (simp add: pg_queries_def before_position_def pos [symmetric])
qed

section \<open>Reading a ledger to its end\<close>

text \<open>The line as the client sees it.\<close>

definition ledger_record :: "ledger_row \<Rightarrow> LedgerRecord" where
  "ledger_record r =
     \<lparr>le_ID = lr_id r, le_WalletID = lr_wallet_id r, le_TransactionID = lr_transaction_id r,
      le_Direction = lr_direction r, le_Money = \<lparr>amount = lr_amount_cents r, currency = lr_currency r\<rparr>,
      le_BalanceBefore = \<lparr>amount = lr_balance_before_cents r, currency = lr_currency r\<rparr>,
      le_BalanceAfter = \<lparr>amount = lr_balance_after_cents r, currency = lr_currency r\<rparr>,
      le_CreatedAt = go_time (lr_created_at r)\<rparr>"

lemma reachable_scan_ledger:
  assumes "reachable d" and "l \<in> set (db_ledger d)"
  shows "scan_ledger l = Inr (ledger_record l)"
proof -
  have c: "consistent d" by (rule reachable_consistent [OF assms(1)])
  then obtain g where g: "g \<in> set (db_wagers d)" "records l g" using assms(2) unfolding consistent_def by blast
  then have "wager_row_ok d g" using c unfolding consistent_def by blast
  then obtain w where "w \<in> set (db_wallets d)" "wr_currency w = wg_currency g" unfolding wager_row_ok_def by blast
  then have "validCurrency (lr_currency l)"
    using reachable_known [OF assms(1)] g(2) by (auto simp: known_currencies_def records_def)
  then show ?thesis by (simp add: scan_ledger_def ledger_record_def)
qed

lemma reachable_entries:
  assumes "reachable d" and "fst (WalletRepository_FindByID i d) = Inr w" and "distinct (map lr_id (wallet_ledger d i))"
  shows "ledger_entries d i = Some (map ledger_record (newest_first (wallet_ledger d i)))"
proof -
  have "\<forall>l \<in> set (newest_first (wallet_ledger d i)). scan_ledger l = Inr (ledger_record l)"
    using reachable_scan_ledger [OF assms(1)] by (simp add: newest_first_def wallet_ledger_def)
  then show ?thesis using assms(2,3) by (simp add: ledger_entries_ok list_all2_map2 list.rel_refl_strong)
qed

text \<open>C26: A client that follows the cursors reads the whole ledger: page after page, with any limit between 1 and 100, it
  gets every line of the wallet that was there at its first call exactly once, the newest first, even when newer
  lines arrive between its calls, and after at most one page more than there are lines it has reached the end.\<close>

theorem ledger_read_completely:
  assumes "uuid_documented ut" and "i \<noteq> uuid_Nil" and "1 \<le> limit" and "limit \<le> 100"
    and "\<forall>k. reachable (states k)" and "\<forall>k. \<exists>w. fst (WalletRepository_FindByID i (states k)) = Inr w"
    and "\<forall>k. distinct (map lr_id (wallet_ledger (states k) i))"
    and "\<forall>k. \<exists>new. newest_first (wallet_ledger (states k) i) = new @ newest_first (wallet_ledger (states 0) i)"
    and "\<forall>l \<in> set (wallet_ledger (states 0) i). readable_line (ledger_record l)"
  shows "read_pages ut pg_queries i limit states (Suc (length (wallet_ledger (states 0) i))) [] =
    Some (map ledger_record (newest_first (wallet_ledger (states 0) i)))"
proof -
  let ?es = "map ledger_record (newest_first (wallet_ledger (states 0) i))"
  have entries: "ledger_entries (states k) i = Some (map ledger_record (newest_first (wallet_ledger (states k) i)))" for k
    using reachable_entries assms(5-7) by blast
  have "\<exists>new. ledger_entries (states k) i = Some (new @ ?es)" for k
    using entries [of k] assms(8) by (metis map_append)
  moreover have "\<forall>e \<in> set ?es. readable_line e" using assms(9) by (simp add: newest_first_def)
  ultimately have "read_pages ut pg_queries i limit states (Suc (length ?es)) [] = Some ?es"
    by (intro pg_ledger.pages_complete assms(1-4) entries allI)
  then show ?thesis by (simp add: newest_first_def)
qed

text \<open>Identifiers written as the package documents them.\<close>

fun pad_hex :: "nat \<Rightarrow> nat \<Rightarrow> string" where
  "pad_hex 0 n = []"
| "pad_hex (Suc k) n = pad_hex k (n div 16) @ [hex_digit (n mod 16)]"

definition sample_uuid_text :: uuid_text where
  "sample_uuid_text =
     \<lparr>ut_String = (\<lambda>u. let h = pad_hex 32 (unat u) in
        take 8 h @ ''-'' @ take 4 (drop 8 h) @ ''-'' @ take 4 (drop 12 h) @ ''-'' @ take 4 (drop 16 h) @ ''-'' @ drop 20 h),
      ut_Parse = (\<lambda>s. if length s = 36 then Some (of_nat (utf16_value (filter (\<lambda>c. c \<noteq> CHR ''-'') s))) else None)\<rparr>"

lemma hex_digit_facts:
  assumes "d < 16"
  shows "hex_value (hex_digit d) = d" and "uuid_char (hex_digit d)" and "hex_digit d \<noteq> CHR ''-''"
proof -
  have b: "byte (hex_digit d) = (if d < 10 then 48 + d else 87 + d)" using assms by (simp add: hex_digit_def)
  show "hex_value (hex_digit d) = d" "uuid_char (hex_digit d)"
    using assms by (auto simp: hex_value_def uuid_char_def byte_in_def b)
  have "byte (hex_digit d) \<noteq> 45" using b by simp
  then show "hex_digit d \<noteq> CHR ''-''" by (auto simp: byte_def)
qed

lemma length_pad_hex [simp]: "length (pad_hex k n) = k"
  by (induction k arbitrary: n) simp_all

lemma utf16_value_append: "utf16_value (s @ t) = utf16_value s * 16 ^ length t + utf16_value t"
  by (induction s) (simp_all add: power_add algebra_simps)

lemma utf16_value_pad: "utf16_value (pad_hex k n) = n mod 16 ^ k"
proof (induction k arbitrary: n)
  case (Suc k)
  have "n mod (16 * 16 ^ k) = 16 * (n div 16 mod 16 ^ k) + n mod 16" by (rule mod_mult2_eq)
  then show ?case using Suc by (simp add: utf16_value_append hex_digit_facts)
qed simp

lemma pad_hex_chars: "list_all (\<lambda>c. uuid_char c \<and> c \<noteq> CHR ''-'') (pad_hex k n)"
  by (induction k arbitrary: n) (simp_all add: hex_digit_facts)

lemma sample_uuid_documented: "uuid_documented sample_uuid_text"
  unfolding uuid_documented_def
proof
  fix u :: uuid
  define h where "h = pad_hex 32 (unat u)"
  have s: "ut_String sample_uuid_text u =
      take 8 h @ ''-'' @ take 4 (drop 8 h) @ ''-'' @ take 4 (drop 12 h) @ ''-'' @ take 4 (drop 16 h) @ ''-'' @ drop 20 h"
    by (simp add: sample_uuid_text_def h_def Let_def)
  have len: "length h = 32" by (simp add: h_def)
  have chars: "\<forall>c \<in> set h. uuid_char c \<and> c \<noteq> CHR ''-''" using pad_hex_chars by (auto simp: h_def list_all_iff)
  then have keep: "filter (\<lambda>c. c \<noteq> CHR ''-'') (take n (drop m h)) = take n (drop m h)"
      "filter (\<lambda>c. c \<noteq> CHR ''-'') (take n h) = take n h" "filter (\<lambda>c. c \<noteq> CHR ''-'') (drop m h) = drop m h" for n m
    by (auto intro!: filter_True dest: in_set_takeD in_set_dropD)
  have "take 8 h @ take 4 (drop 8 h) @ take 4 (drop 12 h) @ take 4 (drop 16 h) @ drop 20 h = h"
    using append_take_drop_id [of 4 "drop 16 h"] append_take_drop_id [of 4 "drop 12 h"]
      append_take_drop_id [of 4 "drop 8 h"] append_take_drop_id [of 8 h] by simp
  then have "filter (\<lambda>c. c \<noteq> CHR ''-'') (ut_String sample_uuid_text u) = h" by (simp add: s keep)
  moreover have "(of_nat (utf16_value h) :: uuid) = u"
  proof -
    have "unat u < 2 ^ 128" using unsigned_less [where 'a = nat, of u] by simp
    then show ?thesis by (simp add: h_def utf16_value_pad)
  qed
  moreover have "length (ut_String sample_uuid_text u) = 36" by (simp add: s len)
  moreover have "list_all uuid_char (ut_String sample_uuid_text u)"
  proof -
    have "uuid_char (CHR ''-'')" by code_simp
    then show ?thesis using chars by (auto simp: s list_all_iff dest: in_set_takeD in_set_dropD)
  qed
  ultimately show "ut_Parse sample_uuid_text (ut_String sample_uuid_text u) = Some u \<and>
      length (ut_String sample_uuid_text u) = 36 \<and> list_all uuid_char (ut_String sample_uuid_text u)"
    by (simp add: sample_uuid_text_def)
qed

theorem ledger_read_completely_witness:
  "read_pages sample_uuid_text pg_queries 18 1 (\<lambda>_. opened_db) 2 [] = Some [ledger_record opened_line]"
proof -
  have lines: "wallet_ledger opened_db 18 = [opened_line]" by (simp add: wallet_ledger_def opened_line_def)
  have first: "newest_first [opened_line] = [opened_line]" by (simp add: newest_first_def)
  have "\<exists>w. fst (WalletRepository_FindByID 18 opened_db) = Inr w"
    using opened_scan by (simp add: WalletRepository_FindByID_def opened_row_def)
  moreover have "readable_line (ledger_record opened_line)" by code_simp
  moreover have "(18 :: uuid) \<noteq> uuid_Nil" by (simp add: uuid_Nil_def)
  moreover have two: "2 = Suc (length (wallet_ledger opened_db 18))" by (simp add: lines)
  ultimately show ?thesis
    using ledger_read_completely [OF sample_uuid_documented, of 18 1 "\<lambda>_. opened_db"] reachable_opened
    unfolding two by (simp add: lines first del: read_pages.simps)
qed

end
