(* ===== verification/WagerMessage.thy ===== *)
theory WagerMessage
  imports ListLedger
begin

text \<open>
  \<open>internal/infrastructure/messaging/wager_message.go\<close>: the message of the queue and the request it becomes; also the
  bodies of the requests of the API, \<open>internal/infrastructure/httpapi/contracts.go\<close>, which have the same shape. The
  identifiers are read by \<open>uuid.UUID.UnmarshalText\<close>, a parameter.
\<close>

section \<open>The shapes\<close>

record moneyRequest =
  mr_Amount :: string
  mr_Currency :: string

record wagerRequest =
  wq_ProviderID :: string
  wq_ExternalTransactionID :: string
  wq_IdempotencyKey :: string
  wq_PlayerID :: uuid
  wq_WalletID :: uuid
  wq_RoundID :: string
  wq_GameID :: string
  wq_Kind :: WagerKind
  wq_Money :: moneyRequest
  wq_ReferenceExternalTransactionID :: "string option"

record WagerMessage =
  wm_MessageID :: string
  wm_Type :: string
  wm_OccurredAt :: time
  wm_CorrelationID :: string
  wm_Data :: wagerRequest

text \<open>A kind is a string type: the constants of the domain, or any other text.\<close>

definition WagerKind_of :: "string \<Rightarrow> WagerKind" where
  "WagerKind_of s =
     (if s = ''OPENING'' then WagerKindOpening else if s = ''BET'' then WagerKindBet else if s = ''WIN'' then WagerKindWin
      else if s = ''LOSS'' then WagerKindLoss else if s = ''REFUND'' then WagerKindRefund
      else if s = ''ROLLBACK'' then WagerKindRollback else WagerKindOther s)"

lemma WagerKind_text_of [simp]: "WagerKind_text (WagerKind_of s) = s"
  by (simp add: WagerKind_of_def WagerKind_text_def)

definition money_fields :: "(string \<times> (json \<Rightarrow> moneyRequest \<Rightarrow> moneyRequest option)) list" where
  "money_fields =
     [(''amount'', \<lambda>v m. map_option (\<lambda>s. m\<lparr>mr_Amount := s\<rparr>) (store_string v (mr_Amount m))),
      (''currency'', \<lambda>v m. map_option (\<lambda>s. m\<lparr>mr_Currency := s\<rparr>) (store_string v (mr_Currency m)))]"

definition store_kind :: "json \<Rightarrow> WagerKind \<Rightarrow> WagerKind option" where
  "store_kind v old = map_option WagerKind_of (store_string v (WagerKind_text old))"

text \<open>The members of the data of a message; the body of a request has them all but the idempotency key.\<close>

definition wager_fields :: "uuid_text \<Rightarrow> (string \<times> (json \<Rightarrow> wagerRequest \<Rightarrow> wagerRequest option)) list" where
  "wager_fields ut =
     [(''providerId'', \<lambda>v d. map_option (\<lambda>s. d\<lparr>wq_ProviderID := s\<rparr>) (store_string v (wq_ProviderID d))),
      (''externalTransactionId'', \<lambda>v d. map_option (\<lambda>s. d\<lparr>wq_ExternalTransactionID := s\<rparr>)
         (store_string v (wq_ExternalTransactionID d))),
      (''playerId'', \<lambda>v d. map_option (\<lambda>u. d\<lparr>wq_PlayerID := u\<rparr>) (store_text (ut_Parse ut) v (wq_PlayerID d))),
      (''walletId'', \<lambda>v d. map_option (\<lambda>u. d\<lparr>wq_WalletID := u\<rparr>) (store_text (ut_Parse ut) v (wq_WalletID d))),
      (''roundId'', \<lambda>v d. map_option (\<lambda>s. d\<lparr>wq_RoundID := s\<rparr>) (store_string v (wq_RoundID d))),
      (''gameId'', \<lambda>v d. map_option (\<lambda>s. d\<lparr>wq_GameID := s\<rparr>) (store_string v (wq_GameID d))),
      (''kind'', \<lambda>v d. map_option (\<lambda>k. d\<lparr>wq_Kind := k\<rparr>) (store_kind v (wq_Kind d))),
      (''money'', \<lambda>v d. map_option (\<lambda>m. d\<lparr>wq_Money := m\<rparr>) (store_struct True money_fields v (wq_Money d))),
      (''referenceExternalTransactionId'', \<lambda>v d. map_option (\<lambda>r. d\<lparr>wq_ReferenceExternalTransactionID := r\<rparr>)
         (store_string_pointer v (wq_ReferenceExternalTransactionID d)))]"

definition data_fields :: "uuid_text \<Rightarrow> (string \<times> (json \<Rightarrow> wagerRequest \<Rightarrow> wagerRequest option)) list" where
  "data_fields ut =
     (''idempotencyKey'', \<lambda>v d. map_option (\<lambda>s. d\<lparr>wq_IdempotencyKey := s\<rparr>) (store_string v (wq_IdempotencyKey d))) #
     wager_fields ut"

definition message_fields :: "uuid_text \<Rightarrow> (string \<times> (json \<Rightarrow> WagerMessage \<Rightarrow> WagerMessage option)) list" where
  "message_fields ut =
     [(''messageId'', \<lambda>v m. map_option (\<lambda>s. m\<lparr>wm_MessageID := s\<rparr>) (store_string v (wm_MessageID m))),
      (''type'', \<lambda>v m. map_option (\<lambda>s. m\<lparr>wm_Type := s\<rparr>) (store_string v (wm_Type m))),
      (''occurredAt'', \<lambda>v m. map_option (\<lambda>t. m\<lparr>wm_OccurredAt := t\<rparr>) (store_time v (wm_OccurredAt m))),
      (''correlationId'', \<lambda>v m. map_option (\<lambda>s. m\<lparr>wm_CorrelationID := s\<rparr>) (store_string v (wm_CorrelationID m))),
      (''data'', \<lambda>v m. map_option (\<lambda>d. m\<lparr>wm_Data := d\<rparr>) (store_struct True (data_fields ut) v (wm_Data m)))]"

text \<open>The zero values of Go.\<close>

definition zero_request :: wagerRequest where
  "zero_request =
     \<lparr>wq_ProviderID = [], wq_ExternalTransactionID = [], wq_IdempotencyKey = [], wq_PlayerID = uuid_Nil,
      wq_WalletID = uuid_Nil, wq_RoundID = [], wq_GameID = [], wq_Kind = WagerKind_of [],
      wq_Money = \<lparr>mr_Amount = [], mr_Currency = []\<rparr>, wq_ReferenceExternalTransactionID = None\<rparr>"

definition zero_message :: WagerMessage where
  "zero_message =
     \<lparr>wm_MessageID = [], wm_Type = [], wm_OccurredAt = 0, wm_CorrelationID = [], wm_Data = zero_request\<rparr>"

section \<open>Parsing a message\<close>

text \<open>On an error the code also returns what it has of the message, for its log only.\<close>

definition decode_message :: "uuid_text \<Rightarrow> string \<Rightarrow> (WagerMessage \<times> string) option" where
  "decode_message ut body =
     (case decode_value body of
        None \<Rightarrow> None
      | Some (v, rest) \<Rightarrow>
          (case store_struct True (message_fields ut) v zero_message of None \<Rightarrow> None | Some m \<Rightarrow> Some (m, rest)))"

definition message_input :: "WagerMessage \<Rightarrow> money \<Rightarrow> ProcessWagerInput" where
  "message_input m money =
     (let d = wm_Data m in
      \<lparr>in_ProviderID = wq_ProviderID d, in_ExternalTransactionID = wq_ExternalTransactionID d,
       in_IdempotencyKey = wq_IdempotencyKey d, in_PlayerID = wq_PlayerID d, in_WalletID = wq_WalletID d,
       in_RoundID = wq_RoundID d, in_GameID = wq_GameID d, in_Kind = wq_Kind d, in_Money = money,
       in_ReferenceExternalTransactionID = wq_ReferenceExternalTransactionID d,
       in_CorrelationID = (if TrimSpace_is_empty (wm_CorrelationID m) then wm_MessageID m else wm_CorrelationID m),
       in_CausationID = wm_MessageID m\<rparr>)"

definition ParseWagerMessage :: "uuid_text \<Rightarrow> string \<Rightarrow> error + WagerMessage \<times> ProcessWagerInput" where
  "ParseWagerMessage ut body =
     (if \<not> utf8_ValidString body then Inl ErrInvalidMessage
      else
        (case decode_message ut body of
           None \<Rightarrow> Inl ErrInvalidMessage
         | Some (m, rest) \<Rightarrow>
             if \<not> at_EOF rest \<or> TrimSpace_is_empty (wm_MessageID m) \<or>
                wm_Type m \<noteq> ''WagerTransactionRequested'' \<or> Time_IsZero (wm_OccurredAt m)
             then Inl ErrInvalidMessage
             else
               (case NewMoney (mr_Amount (wq_Money (wm_Data m))) (mr_Currency (wq_Money (wm_Data m))) of
                  Inl _ \<Rightarrow> Inl ErrInvalidMessage
                | Inr money \<Rightarrow> Inr (m, message_input m money))))"

lemma ParseWagerMessage_error: "ParseWagerMessage ut body = Inl e \<Longrightarrow> e = ErrInvalidMessage"
  by (auto simp: ParseWagerMessage_def split: if_splits option.splits sum.splits)

lemma ParseWagerMessage_ok:
  assumes "ParseWagerMessage ut body = Inr (m, i)"
  shows "utf8_ValidString body" and "\<not> TrimSpace_is_empty (wm_MessageID m)" and "wm_Type m = ''WagerTransactionRequested''"
    and "wm_OccurredAt m \<noteq> 0" and "in_CausationID i = wm_MessageID m" and "\<not> TrimSpace_is_empty (in_CorrelationID i)"
    and "validCurrency (currency (in_Money i))" and "0 \<le> cents_of (in_Money i)"
  using assms
  by (auto simp: ParseWagerMessage_def message_input_def Let_def Time_IsZero_def NewMoney_eq
      split: if_splits option.splits sum.splits simp del: TrimSpace_is_empty.simps utf8_ValidString.simps)

section \<open>A message is read back\<close>

text \<open>The text of a message as its struct tags say: the correlation and the reference are left out when they are empty.\<close>

definition text_value :: "string \<Rightarrow> json" where
  "text_value s = JString (json_string_body s)"

definition request_value :: "uuid_text \<Rightarrow> wagerRequest \<Rightarrow> json" where
  "request_value ut d =
     JObject
       ([(''providerId'', text_value (wq_ProviderID d)),
         (''externalTransactionId'', text_value (wq_ExternalTransactionID d)),
         (''idempotencyKey'', text_value (wq_IdempotencyKey d)),
         (''playerId'', text_value (ut_String ut (wq_PlayerID d))),
         (''walletId'', text_value (ut_String ut (wq_WalletID d))),
         (''roundId'', text_value (wq_RoundID d)),
         (''gameId'', text_value (wq_GameID d)),
         (''kind'', text_value (WagerKind_text (wq_Kind d))),
         (''money'', JObject [(''amount'', text_value (mr_Amount (wq_Money d))),
                              (''currency'', text_value (mr_Currency (wq_Money d)))])] @
        (case wq_ReferenceExternalTransactionID d of
           None \<Rightarrow> []
         | Some r \<Rightarrow> [(''referenceExternalTransactionId'', text_value r)]))"

definition message_value :: "uuid_text \<Rightarrow> WagerMessage \<Rightarrow> json" where
  "message_value ut m =
     JObject
       ([(''messageId'', text_value (wm_MessageID m)),
         (''type'', text_value (wm_Type m)),
         (''occurredAt'', text_value (RFC3339Nano (wm_OccurredAt m)))] @
        (if wm_CorrelationID m = [] then [] else [(''correlationId'', text_value (wm_CorrelationID m))]) @
        [(''data'', request_value ut (wm_Data m))])"

definition message_text :: "uuid_text \<Rightarrow> WagerMessage \<Rightarrow> string" where
  "message_text ut m = json_text 3 (message_value ut m)"

text \<open>The messages that JSON can carry: text in UTF-8, an instant with a year of four digits.\<close>

definition request_texts :: "wagerRequest \<Rightarrow> string list" where
  "request_texts d =
     [wq_ProviderID d, wq_ExternalTransactionID d, wq_IdempotencyKey d, wq_RoundID d, wq_GameID d,
      WagerKind_text (wq_Kind d), mr_Amount (wq_Money d), mr_Currency (wq_Money d)] @
     (case wq_ReferenceExternalTransactionID d of None \<Rightarrow> [] | Some r \<Rightarrow> [r])"

definition writable_message :: "WagerMessage \<Rightarrow> bool" where
  "writable_message m \<longleftrightarrow>
     list_all utf8_ValidString ([wm_MessageID m, wm_Type m, wm_CorrelationID m] @ request_texts (wm_Data m)) \<and>
     writable_year (wm_OccurredAt m) \<and> WagerKind_of (WagerKind_text (wq_Kind (wm_Data m))) = wq_Kind (wm_Data m)"

lemma message_names:
  "plain ''messageId''" "plain ''type''" "plain ''occurredAt''" "plain ''correlationId''" "plain ''data''"
  "plain ''providerId''" "plain ''externalTransactionId''" "plain ''idempotencyKey''" "plain ''playerId''"
  "plain ''walletId''" "plain ''roundId''" "plain ''gameId''" "plain ''kind''" "plain ''money''" "plain ''amount''"
  "plain ''currency''" "plain ''referenceExternalTransactionId''"
  by code_simp+

lemma text_value_json [simp]:
  "text_json d (text_value s)" "utf8_json d (text_value s)"
  by (simp_all add: text_value_def scannable_body utf8_body)

lemma store_text_value [simp]:
  "utf8_ValidString s \<Longrightarrow> store_string (text_value s) old = Some s"
  "utf8_ValidString s \<Longrightarrow> store_string_pointer (text_value s) old' = Some (Some s)"
  "utf8_ValidString s \<Longrightarrow> store_text parse (text_value s) old'' = parse s"
  by (simp_all add: text_value_def store_string_def store_string_pointer_def store_text_def unquote_body)

lemma store_object: "store_struct known_only fs (JObject ms) r = store_members known_only fs ms r"
  by (simp add: store_struct_def)

lemma request_stored:
  assumes "uuid_documented ut" and "list_all utf8_ValidString (request_texts d)"
    and "WagerKind_of (WagerKind_text (wq_Kind d)) = wq_Kind d"
  shows "store_struct True (data_fields ut) (request_value ut d) zero_request = Some d"
proof -
  have u: "utf8_ValidString (ut_String ut u)" "ut_Parse ut (ut_String ut u) = Some u" for u
    using assms(1) utf8_plain uuid_char_plain by (auto simp: uuid_documented_def)
  note keys = message_names [THEN unquote_plain]
  show ?thesis
    using assms(2,3) u
    by (cases "wq_ReferenceExternalTransactionID d")
      (simp_all add: request_value_def request_texts_def store_object data_fields_def wager_fields_def
        money_fields_def field_of_def keys store_kind_def zero_request_def)
qed

lemma plain_letter: "c \<in> set ''abcdefghijklmnopqrstuvwxyzABCDEFGHIJKLMNOPQRSTUVWXYZ'' \<Longrightarrow> plain_char c"
  by (auto simp: plain_char_def byte_def quote_char_def backslash_char_def)

lemma message_json: "text_json 3 (message_value ut m)" "utf8_json 3 (message_value ut m)"
proof -
  have three: "3 = Suc (Suc (Suc 0))" by simp
  show "text_json 3 (message_value ut m)" "utf8_json 3 (message_value ut m)"
    by (simp_all add: three message_value_def request_value_def message_names plain_letter split: option.split)
qed

lemma message_stored:
  assumes "uuid_documented ut" and "writable_message m"
  shows "store_struct True (message_fields ut) (message_value ut m) zero_message = Some m"
proof -
  have t: "store_time (text_value (RFC3339Nano t)) old = Some t" if "writable_year t" for t old
    using Time_text_roundtrip [OF that] json_string_plain [OF RFC3339Nano_plain [of t]]
    by (simp add: store_time_def text_value_def json_string_def)
  have d: "store_struct True (data_fields ut) (request_value ut (wm_Data m)) zero_request = Some (wm_Data m)"
    using assms by (intro request_stored) (simp_all add: writable_message_def)
  note keys = message_names [THEN unquote_plain]
  show ?thesis
    using assms(2) d
    by (simp add: message_value_def store_object message_fields_def field_of_def keys t zero_message_def
        writable_message_def)
qed

lemma message_parsed:
  assumes "uuid_documented ut" and "writable_message m" and "\<not> TrimSpace_is_empty (wm_MessageID m)"
    and "wm_Type m = ''WagerTransactionRequested''" and "wm_OccurredAt m \<noteq> 0"
    and "NewMoney (mr_Amount (wq_Money (wm_Data m))) (mr_Currency (wq_Money (wm_Data m))) = Inr money"
  shows "ParseWagerMessage ut (message_text ut m) = Inr (m, message_input m money)"
proof -
  have "decode_value (message_text ut m) = Some (message_value ut m, [])"
    using decode_text [OF message_json(1), where r = "[]"] by (simp add: message_text_def max_nesting_def)
  moreover have "utf8_ValidString (message_text ut m)"
    unfolding message_text_def by (rule utf8_text [OF message_json(2)])
  ultimately show ?thesis
    using message_stored [OF assms(1,2)] assms(3-6)
    by (simp add: ParseWagerMessage_def decode_message_def at_EOF_def Time_IsZero_def
        del: TrimSpace_is_empty.simps utf8_ValidString.simps)
qed

definition sample_request :: wagerRequest where
  "sample_request =
     \<lparr>wq_ProviderID = ''p'', wq_ExternalTransactionID = ''x1'', wq_IdempotencyKey = ''k1'', wq_PlayerID = 3,
      wq_WalletID = 18, wq_RoundID = ''r'', wq_GameID = ''g'', wq_Kind = WagerKindBet,
      wq_Money = \<lparr>mr_Amount = ''0.30'', mr_Currency = ''BRL''\<rparr>, wq_ReferenceExternalTransactionID = None\<rparr>"

definition sample_message :: WagerMessage where
  "sample_message =
     \<lparr>wm_MessageID = ''m1'', wm_Type = ''WagerTransactionRequested'', wm_OccurredAt = 5000, wm_CorrelationID = ''c'',
      wm_Data = sample_request\<rparr>"

lemma sample_message_facts:
  "writable_message sample_message" "\<not> TrimSpace_is_empty ''m1''" "NewMoney ''0.30'' ''BRL'' = Inr \<lparr>amount = 30, currency = ''BRL''\<rparr>"
proof -
  show "\<not> TrimSpace_is_empty ''m1''" by code_simp
  have "validCurrency ''BRL''" "moneyPattern ''0.30''" "decimal_cents ''0.30'' = 30" by code_simp+
  then show "NewMoney ''0.30'' ''BRL'' = Inr \<lparr>amount = 30, currency = ''BRL''\<rparr>" by (simp add: NewMoney_eq money_of_def in_i64_def)
  have "writable_year 5000" by code_simp
  moreover have "list_all utf8_ValidString [''m1'', ''WagerTransactionRequested'', ''c'', ''p'', ''x1'', ''k1'', ''r'', ''g'',
      ''BET'', ''0.30'', ''BRL'']" by code_simp
  moreover have "WagerKind_text WagerKindBet = ''BET''" "WagerKind_of ''BET'' = WagerKindBet" by code_simp+
  ultimately show "writable_message sample_message"
    by (simp add: writable_message_def sample_message_def sample_request_def request_texts_def del: utf8_ValidString.simps)
qed

lemma sample_message_parsed:
  "ParseWagerMessage sample_uuid_text (message_text sample_uuid_text sample_message) =
     Inr (sample_message, message_input sample_message \<lparr>amount = 30, currency = ''BRL''\<rparr>)"
  using sample_message_facts
  by (intro message_parsed sample_uuid_documented)
    (simp_all add: sample_message_def sample_request_def del: TrimSpace_is_empty.simps)

text \<open>C29: A message is read back: the text of a valid message, with its members in the order of the struct and every
  string escaped, is parsed to that message, and to the request with its fields, whose correlation is the message itself
  when it names none.\<close>

theorem message_read_back:
  assumes "uuid_documented ut" and "writable_message m" and "\<not> TrimSpace_is_empty (wm_MessageID m)"
    and "wm_Type m = ''WagerTransactionRequested''" and "wm_OccurredAt m \<noteq> 0"
    and "NewMoney (mr_Amount (wq_Money (wm_Data m))) (mr_Currency (wq_Money (wm_Data m))) = Inr money"
  shows "ParseWagerMessage ut (message_text ut m) = Inr (m, message_input m money)"
  using assms by (rule message_parsed)

theorem message_read_back_witness:
  "ParseWagerMessage sample_uuid_text (message_text sample_uuid_text sample_message) =
     Inr (sample_message, message_input sample_message \<lparr>amount = 30, currency = ''BRL''\<rparr>)"
  using sample_message_facts
  by (intro message_read_back sample_uuid_documented)
    (simp_all add: sample_message_def sample_request_def del: TrimSpace_is_empty.simps)

end
