(* ===== verification/Consumer.thy ===== *)
theory Consumer
  imports WagerMessage Metrics
begin

text \<open>
  \<open>internal/infrastructure/messaging/sqs_consumer.go\<close>: the treatment of one received message, from the body to the
  answer to the broker. The calls to the broker are recorded in the order they are made; what they answer, the state of
  the context and the clock are arguments.
\<close>

section \<open>The treatment\<close>

record received_message =
  rm_Body :: "string option"
  rm_Attributes :: "string \<Rightarrow> string option"

record ConsumerConfig =
  cc_ProviderBySender :: "string \<Rightarrow> string option"
  cc_ProcessingTimeout :: duration

text \<open>A map of Go gives the zero value for a missing key.\<close>

definition lookup_string :: "(string \<Rightarrow> string option) \<Rightarrow> string \<Rightarrow> string" where
  "lookup_string m k = (case m k of None \<Rightarrow> [] | Some v \<Rightarrow> v)"

definition aws_ToString :: "string option \<Rightarrow> string" where
  "aws_ToString p = (case p of None \<Rightarrow> [] | Some s \<Rightarrow> s)"

text \<open>The provider of a sender: of the whole identifier, or of what stands before its first colon.\<close>

definition provider_of_sender :: "ConsumerConfig \<Rightarrow> string \<Rightarrow> string" where
  "provider_of_sender cfg sender =
     (let provider = lookup_string (cc_ProviderBySender cfg) sender
      in if provider = [] then lookup_string (cc_ProviderBySender cfg) (takeWhile (\<lambda>c. c \<noteq> CHR '':'') sender) else provider)"

definition treat_message ::
  "uuid_text \<Rightarrow> env \<Rightarrow> ConsumerConfig \<Rightarrow> error option \<Rightarrow>
   (('s repositories \<Rightarrow> ('s, WagerResult) act) \<Rightarrow> ('d, WagerResult) act) \<Rightarrow> received_message \<Rightarrow> ('d, WagerResult) act" where
  "treat_message ut env cfg ctx_err within received =
     (let body = aws_ToString (rm_Body received) in
      case ParseWagerMessage ut body of
        Inl e \<Rightarrow> act_raise e
      | Inr (message, input) \<Rightarrow>
          let provider = provider_of_sender cfg (lookup_string (rm_Attributes received) ''SenderId'') in
          if provider = [] \<or> provider \<noteq> in_ProviderID input then act_raise ErrProviderNotAuthorized
          else if lookup_string (rm_Attributes received) ''MessageGroupId'' \<noteq> ut_String ut (in_WalletID input)
            then act_raise ErrInvalidMessage
          else ProcessWager_ExecuteMessage env ctx_err within provider input (wm_MessageID message) body)"

section \<open>The answer to the broker\<close>

datatype broker_call = ChangeVisibility i32 | DeleteMessage

record handle_env =
  he_processing_ctx :: "error option"
  he_cancelled :: bool
  he_cancelled_at_end :: bool
  he_latency :: duration
  he_visibility_error :: "error option"
  he_delete_error :: "error option"

record consumer_state =
  co_db :: db
  co_metrics :: metrics
  co_calls :: "broker_call list"

text \<open>The number of \<open>strconv.Atoi\<close>, its error ignored: zero for no number, the bound for one out of range.\<close>

definition Atoi :: "string \<Rightarrow> i64" where
  "Atoi s =
     (case ParseInt s of
        Inr n \<Rightarrow> n
      | Inl ErrSyntax \<Rightarrow> 0
      | Inl ErrRange \<Rightarrow> if take 1 s = ''-'' then MinInt64 else MaxInt64)"

definition delivery_attempt :: "received_message \<Rightarrow> int" where
  "delivery_attempt received = sint (Atoi (lookup_string (rm_Attributes received) ''ApproximateReceiveCount''))"

definition WagerStatus_text :: "WagerStatus \<Rightarrow> string" where
  "WagerStatus_text s =
     (case s of
        WagerStatusPending \<Rightarrow> ''PENDING'' | WagerStatusPendingReference \<Rightarrow> ''PENDING_REFERENCE''
      | WagerStatusProcessed \<Rightarrow> ''PROCESSED'' | WagerStatusRejected \<Rightarrow> ''REJECTED'' | WagerStatusFailed \<Rightarrow> ''FAILED''
      | WagerStatusOther t \<Rightarrow> t)"

definition failure_metrics :: "error \<Rightarrow> int \<Rightarrow> duration \<Rightarrow> metrics \<Rightarrow> metrics" where
  "failure_metrics e attempt latency m =
     (let m' = ObserveProcessingError e latency m
      in if permanentMessageError e \<or> 5 \<le> attempt then ObserveDeadLetter (errorMetricReason e) m'
         else ObserveMessageRetry (errorMetricReason e) m')"

definition failure_delay :: "error \<Rightarrow> int \<Rightarrow> i32" where
  "failure_delay e attempt = (if permanentMessageError e then 0 else messageRetryDelay attempt)"

text \<open>The deferred release of the message when the consumer is shutting down.\<close>

definition release :: "handle_env \<Rightarrow> broker_call list \<Rightarrow> broker_call list" where
  "release he calls = (if he_cancelled he \<or> he_cancelled_at_end he then calls @ [ChangeVisibility 0] else calls)"

definition Handle ::
  "uuid_text \<Rightarrow> env \<Rightarrow> ConsumerConfig \<Rightarrow> handle_env \<Rightarrow>
   ((conn repositories \<Rightarrow> (conn, WagerResult) act) \<Rightarrow> (db, WagerResult) act) \<Rightarrow> received_message \<Rightarrow>
   consumer_state \<Rightarrow> error option \<times> consumer_state" where
  "Handle ut env cfg he within received s =
     (let attempt = delivery_attempt received in
      case treat_message ut env cfg (he_processing_ctx he) within received (co_db s) of
        (Inl e, d) \<Rightarrow>
          let m = failure_metrics e attempt (he_latency he) (co_metrics s) in
          if he_cancelled he
            then (Some e, \<lparr>co_db = d, co_metrics = m, co_calls = release he (co_calls s)\<rparr>)
          else (Some (errors_Join e (he_visibility_error he)),
                \<lparr>co_db = d, co_metrics = m,
                 co_calls = release he (co_calls s @ [ChangeVisibility (failure_delay e attempt)])\<rparr>)
      | (Inr result, d) \<Rightarrow>
          (case he_delete_error he of
             Some e \<Rightarrow> (Some e, \<lparr>co_db = d, co_metrics = co_metrics s,
                                co_calls = release he (co_calls s @ [DeleteMessage])\<rparr>)
           | None \<Rightarrow>
               (None, \<lparr>co_db = d,
                       co_metrics = ObserveWagerResult (WagerStatus_text (wres_Status result))
                         (wres_IdempotentReplay result) (he_latency he) (co_metrics s),
                       co_calls = release he (co_calls s @ [DeleteMessage])\<rparr>)))"

section \<open>The treatment is a step of the service\<close>

lemma treat_message_ok:
  assumes "treat_message ut env cfg ctx within received d = (q, d')"
  obtains (refused) e where "q = Inl e" "d' = d" "permanentMessageError e"
  | (executed) m i where "ParseWagerMessage ut (aws_ToString (rm_Body received)) = Inr (m, i)"
      "provider_of_sender cfg (lookup_string (rm_Attributes received) ''SenderId'') = in_ProviderID i"
      "in_ProviderID i \<noteq> []"
      "lookup_string (rm_Attributes received) ''MessageGroupId'' = ut_String ut (in_WalletID i)"
      "ProcessWager_ExecuteMessage env ctx within (in_ProviderID i) i (wm_MessageID m)
         (aws_ToString (rm_Body received)) d = (q, d')"
proof (cases "ParseWagerMessage ut (aws_ToString (rm_Body received))")
  case (Inl e)
  moreover have "permanentMessageError ErrInvalidMessage"
    by (simp add: permanentMessageError_def is_any_def permanent_errors_def)
  ultimately show ?thesis
    using assms ParseWagerMessage_error [OF Inl] refused [of e] by (auto simp: treat_message_def act_raise_def)
next
  case (Inr mi)
  obtain m i where mi: "mi = (m, i)" by force
  have "permanentMessageError ErrInvalidMessage" "permanentMessageError ErrProviderNotAuthorized"
    by (simp_all add: permanentMessageError_def is_any_def permanent_errors_def)
  then show ?thesis
    using assms refused executed Inr unfolding mi
    by (auto simp: treat_message_def act_raise_def Let_def split: if_splits)
qed

lemma treat_message_step:
  assumes "treat_message ut env cfg ctx (WithinTransaction pg run) received d = (q, d')"
  shows "d' = d \<or> sys_step d d'"
  using assms
proof (cases rule: treat_message_ok)
  case (executed m i)
  then show ?thesis using sys_step.process_message by blast
qed simp

lemma Handle_parts:
  assumes "Handle ut env cfg he within received s = (r, s')"
  obtains (failed) e where "treat_message ut env cfg (he_processing_ctx he) within received (co_db s) = (Inl e, co_db s')"
      "r \<noteq> None" "co_metrics s' = failure_metrics e (delivery_attempt received) (he_latency he) (co_metrics s)"
      "co_calls s' = release he (if he_cancelled he then co_calls s
         else co_calls s @ [ChangeVisibility (failure_delay e (delivery_attempt received))])"
  | (answered) result where
      "treat_message ut env cfg (he_processing_ctx he) within received (co_db s) = (Inr result, co_db s')"
      "r = he_delete_error he" "co_calls s' = release he (co_calls s @ [DeleteMessage])"
      "co_metrics s' = (if he_delete_error he = None
         then ObserveWagerResult (WagerStatus_text (wres_Status result)) (wres_IdempotentReplay result) (he_latency he)
           (co_metrics s)
         else co_metrics s)"
proof -
  obtain q d where q: "treat_message ut env cfg (he_processing_ctx he) within received (co_db s) = (q, d)" by force
  show ?thesis
  proof (cases q)
    case (Inl e)
    then show ?thesis
      using assms q failed [of e] by (auto simp: Handle_def Let_def split: if_splits)
  next
    case (Inr result)
    then show ?thesis
      using assms q answered [of result] by (auto simp: Handle_def Let_def split: option.splits)
  qed
qed

section \<open>What the broker is told\<close>

lemma within_error: "WithinTransaction pg run work d = (Inl e, d') \<Longrightarrow> d' = d \<or> is_infra e"
  by (auto simp: WithinTransaction_def split: option.splits prod.splits sum.splits commit_outcome.splits)

lemma execute_message_within:
  assumes "ProcessWager_ExecuteMessage env ctx (WithinTransaction pg run) p i m body d = (q, d')"
  obtains (before) e where "q = Inl e" "d' = d"
  | (inside) i' t where "WithinTransaction pg run (wager_work env i' t (Some (m, sha256_hex body))) d = (q, d')"
  using assms
  by (auto simp: ProcessWager_ExecuteMessage_def execute_wager_def act_raise_def
      split: if_splits option.splits sum.splits prod.splits)

lemma execute_message_error:
  assumes "ProcessWager_ExecuteMessage env ctx (WithinTransaction pg run) p i m body d = (Inl e, d')"
  shows "d' = d \<or> is_infra e"
  using assms by (cases rule: execute_message_within) (auto dest: within_error)

lemma release_new: "set (drop (length cs) (release he (cs @ xs))) \<subseteq> set xs \<union> {ChangeVisibility 0}"
  by (auto simp: release_def)


text \<open>C23: A message that could not be treated stays in the queue: it is never deleted, an error is reported, and while the
  consumer runs its visibility is changed once, at once visible for a permanent error and after the backoff of its
  attempt otherwise; a permanent error leaves the tables as they were and is
  counted as a dead letter.\<close>

theorem failed_message_comes_back:
  assumes "Handle ut env cfg he (WithinTransaction pg run) received s = (r, s')"
    and "treat_message ut env cfg (he_processing_ctx he) (WithinTransaction pg run) received (co_db s) = (Inl e, d)"
  shows "r \<noteq> None \<and> DeleteMessage \<notin> set (drop (length (co_calls s)) (co_calls s')) \<and>
    (\<not> he_cancelled he \<and> \<not> he_cancelled_at_end he \<longrightarrow>
      co_calls s' = co_calls s @ [ChangeVisibility (if permanentMessageError e then 0
        else messageRetryDelay (delivery_attempt received))]) \<and>
    (permanentMessageError e \<longrightarrow> co_db s' = co_db s \<and>
      counter (mt_deadLetterMessages (co_metrics s')) (label (errorMetricReason e)) =
      counter (mt_deadLetterMessages (co_metrics s)) (label (errorMetricReason e)) + 1)"
  using assms(1)
proof (cases rule: Handle_parts)
  case (failed e')
  have e: "e' = e" using failed(1) assms(2) by simp
  have "co_db s' = co_db s" if "permanentMessageError e"
    using failed(1) unfolding e
  proof (cases rule: treat_message_ok)
    case (executed m i)
    show ?thesis
      using execute_message_error [OF executed(5)] that infra_is_temporary by (auto simp: is_infra_iff)
  qed simp
  moreover have "counter (mt_deadLetterMessages (co_metrics s')) (label (errorMetricReason e)) =
      counter (mt_deadLetterMessages (co_metrics s)) (label (errorMetricReason e)) + 1" if "permanentMessageError e"
    using that failed(3)
    by (simp add: e failure_metrics_def Let_def ObserveDeadLetter_def ObserveProcessingError_def counter_increment)
  ultimately show ?thesis using failed(2,4) by (auto simp: e release_def failure_delay_def)
next
  case (answered result)
  then show ?thesis using assms(2) by simp
qed

text \<open>A message of the queue and its treatment.\<close>

definition sample_received :: "string \<Rightarrow> received_message" where
  "sample_received body =
     \<lparr>rm_Body = Some body,
      rm_Attributes = [''SenderId'' \<mapsto> ''s:1'', ''MessageGroupId'' \<mapsto> ut_String sample_uuid_text 18,
        ''ApproximateReceiveCount'' \<mapsto> ''1'']\<rparr>"

definition sample_config :: ConsumerConfig where
  "sample_config = \<lparr>cc_ProviderBySender = [''s'' \<mapsto> ''p''], cc_ProcessingTimeout = 1000000000\<rparr>"

definition sample_handling :: handle_env where
  "sample_handling =
     \<lparr>he_processing_ctx = None, he_cancelled = False, he_cancelled_at_end = False, he_latency = 3,
      he_visibility_error = None, he_delete_error = None\<rparr>"

definition sample_consumer :: consumer_state where
  "sample_consumer = \<lparr>co_db = opened_db, co_metrics = NewMetrics, co_calls = []\<rparr>"

lemma sample_sender: "provider_of_sender sample_config ''s:1'' = ''p''"
  by (simp add: provider_of_sender_def lookup_string_def sample_config_def)

lemma sample_message_input:
  "message_input sample_message \<lparr>amount = 30, currency = ''BRL''\<rparr> = sample_input"
proof -
  have "\<not> TrimSpace_is_empty ''c''" by code_simp
  then show ?thesis
    by (simp add: message_input_def sample_message_def sample_request_def sample_input_def del: TrimSpace_is_empty.simps)
qed

lemma sample_body_parsed:
  "ParseWagerMessage sample_uuid_text (message_text sample_uuid_text sample_message) = Inr (sample_message, sample_input)"
  using sample_message_parsed by (simp add: sample_message_input)

lemma message_text_nonempty: "message_text ut m \<noteq> []"
  by (simp add: message_text_def message_value_def numeral_3_eq_3 json_object_def)

lemma sample_treated:
  obtains result d' where
    "treat_message sample_uuid_text (sample_env 20) sample_config None (WithinTransaction sample_pg fault_free)
       (sample_received (message_text sample_uuid_text sample_message)) opened_db = (Inr result, d')"
proof -
  obtain result d' where
    "ProcessWager_ExecuteMessage (sample_env 20) None (WithinTransaction sample_pg fault_free) ''p'' sample_input ''m1''
       (message_text sample_uuid_text sample_message) opened_db = (Inr result, d')"
    by (rule message_run [OF message_text_nonempty])
  moreover have "in_ProviderID sample_input = ''p''" "in_WalletID sample_input = 18" "wm_MessageID sample_message = ''m1''"
    by (simp_all add: sample_input_def sample_message_def)
  ultimately show ?thesis
    using that by (simp add: treat_message_def sample_received_def aws_ToString_def lookup_string_def sample_body_parsed sample_sender)
qed


text \<open>A body that is no message at all.\<close>

lemma no_message: "ParseWagerMessage sample_uuid_text ''x'' = Inl ErrInvalidMessage"
proof -
  have "scan BeginValue [] ''x'' = None"
    by (simp add: begin_value_def json_space_def byte_def quote_char_def is_digit_def byte_in_def)
  then show ?thesis by (simp add: ParseWagerMessage_def decode_message_def decode_value_def)
qed

theorem failed_message_comes_back_witness:
  "\<exists>r s'. Handle sample_uuid_text (sample_env 20) sample_config sample_handling (WithinTransaction sample_pg fault_free)
      (sample_received ''x'') sample_consumer = (r, s') \<and> r \<noteq> None \<and> co_db s' = opened_db \<and>
    co_calls s' = [ChangeVisibility 0]"
proof -
  let ?h = "Handle sample_uuid_text (sample_env 20) sample_config sample_handling (WithinTransaction sample_pg fault_free)
      (sample_received ''x'') sample_consumer"
  have t: "treat_message sample_uuid_text (sample_env 20) sample_config (he_processing_ctx sample_handling)
      (WithinTransaction sample_pg fault_free) (sample_received ''x'') (co_db sample_consumer) =
      (Inl ErrInvalidMessage, opened_db)"
    by (simp add: treat_message_def sample_received_def aws_ToString_def no_message act_raise_def sample_consumer_def)
  have "permanentMessageError ErrInvalidMessage" by (simp add: permanentMessageError_def is_any_def permanent_errors_def)
  with failed_message_comes_back [OF prod.collapse [symmetric] t] show ?thesis
    by (intro exI [of _ "fst ?h"] exI [of _ "snd ?h"]) (simp add: sample_handling_def sample_consumer_def)
qed

end
