(* ===== verification/Startup.thy ===== *)
theory Startup
  imports IamPolicy Consumer
begin

text \<open>
  What \<open>internal/infrastructure/messaging\<close> demands of the queues before the service runs, and the readiness of its
  consumer. The answers of the broker are arguments, one function for each call of its client.
\<close>

section \<open>The calls of the broker's client\<close>

text \<open>\<open>None\<close> is an error; a queue is named by a pointer to its URL.\<close>

record sqs_client =
  sc_GetQueueAttributes :: "string option \<Rightarrow> string list \<Rightarrow> (string \<Rightarrow> string option) option"
  sc_GetQueueUrl :: "string \<Rightarrow> string option option"

definition HasSuffix :: "string \<Rightarrow> string \<Rightarrow> bool" where
  "HasSuffix s suffix_text \<longleftrightarrow>
     length suffix_text \<le> length s \<and> drop (length s - length suffix_text) s = suffix_text"

section \<open>Starting\<close>

datatype start_error =
    EventsQueueUnavailable | EventsQueueOpen
  | InputQueueUnavailable | InputNotFifo | InputQueueOpen | DlqUnavailable | DlqNotRestricted

definition least_privilege :: "string \<Rightarrow> bool" where
  "least_privilege policy \<longleftrightarrow>
     validateQueuePolicy policy ''sqs:SendMessage'' = None \<and> validateNoWildcardAdministration policy = None"

text \<open>\<open>OnStart\<close> of \<open>NewSQSPublisher\<close>, once the configuration is loaded.\<close>

definition publisher_start :: "sqs_client \<Rightarrow> string \<Rightarrow> start_error option" where
  "publisher_start client queue =
     (case sc_GetQueueAttributes client (Some queue) [''Policy''] of
        None \<Rightarrow> Some EventsQueueUnavailable
      | Some attributes \<Rightarrow>
          if \<not> least_privilege (lookup_string attributes ''Policy'') then Some EventsQueueOpen else None)"

record redrive_policy =
  rp_DeadLetterTargetArn :: string
  rp_MaxReceiveCount :: i64

definition redrive_fields :: "(string \<times> (json \<Rightarrow> redrive_policy \<Rightarrow> redrive_policy option)) list" where
  "redrive_fields =
     [(''deadLetterTargetArn'', \<lambda>v p. map_option (\<lambda>s. p\<lparr>rp_DeadLetterTargetArn := s\<rparr>)
         (store_string v (rp_DeadLetterTargetArn p))),
      (''maxReceiveCount'', \<lambda>v p. map_option (\<lambda>n. p\<lparr>rp_MaxReceiveCount := n\<rparr>) (store_int64 v (rp_MaxReceiveCount p)))]"

definition read_redrive :: "string \<Rightarrow> redrive_policy option" where
  "read_redrive raw =
     (case unmarshal_value raw of
        None \<Rightarrow> None
      | Some v \<Rightarrow> store_struct False redrive_fields v \<lparr>rp_DeadLetterTargetArn = [], rp_MaxReceiveCount = 0\<rparr>)"

definition queueNameFromARN :: "string \<Rightarrow> string" where
  "queueNameFromARN arn = last (split_on (CHR '':'') arn)"

text \<open>\<open>OnStart\<close> of \<open>NewSQSConsumer\<close>: the URL of the dead-letter queue, or why the consumer does not start.\<close>

definition consumer_start :: "sqs_client \<Rightarrow> string \<Rightarrow> start_error + string" where
  "consumer_start client queue =
     (case sc_GetQueueAttributes client (Some queue) [''FifoQueue'', ''QueueArn'', ''RedrivePolicy'', ''Policy''] of
        None \<Rightarrow> Inl InputQueueUnavailable
      | Some attributes \<Rightarrow>
          (case read_redrive (lookup_string attributes ''RedrivePolicy'') of
             None \<Rightarrow> Inl InputNotFifo
           | Some redrive \<Rightarrow>
               if lookup_string attributes ''FifoQueue'' \<noteq> ''true'' \<or>
                  \<not> HasSuffix (rp_DeadLetterTargetArn redrive) ''.fifo'' \<or> rp_MaxReceiveCount redrive \<noteq> 5
               then Inl InputNotFifo
               else if \<not> least_privilege (lookup_string attributes ''Policy'') then Inl InputQueueOpen
               else
                 (case sc_GetQueueUrl client (queueNameFromARN (rp_DeadLetterTargetArn redrive)) of
                    None \<Rightarrow> Inl DlqUnavailable
                  | Some dlq \<Rightarrow>
                      (case sc_GetQueueAttributes client dlq [''RedriveAllowPolicy''] of
                         None \<Rightarrow> Inl DlqNotRestricted
                       | Some dlq_attributes \<Rightarrow>
                           if validateRedriveAllowPolicy (lookup_string dlq_attributes ''RedriveAllowPolicy'')
                                (lookup_string attributes ''QueueArn'') \<noteq> None
                           then Inl DlqNotRestricted else Inr (aws_ToString dlq)))))"

section \<open>Readiness\<close>

datatype ready_error = BrokerFailed | InvalidDlqDepth

text \<open>The queues in use answer; a URL that is empty is not asked for.\<close>

definition queues_answer :: "sqs_client \<Rightarrow> string list \<Rightarrow> bool" where
  "queues_answer client queues \<longleftrightarrow>
     list_all (\<lambda>queue. queue = [] \<or> sc_GetQueueAttributes client (Some queue) [''QueueArn''] \<noteq> None) queues"

definition depth_attributes :: "string list" where
  "depth_attributes =
     [''ApproximateNumberOfMessages'', ''ApproximateNumberOfMessagesNotVisible'', ''ApproximateNumberOfMessagesDelayed'']"

fun add_depths :: "(string \<Rightarrow> string option) \<Rightarrow> string list \<Rightarrow> i64 \<Rightarrow> ready_error + i64" where
  "add_depths attributes [] depth = Inr depth"
| "add_depths attributes (key # keys) depth =
     (case ParseInt (lookup_string attributes key) of
        Inl _ \<Rightarrow> Inl InvalidDlqDepth
      | Inr value \<Rightarrow> if value <s 0 then Inl InvalidDlqDepth else add_depths attributes keys (depth + value))"

definition CheckReady ::
  "sqs_client \<Rightarrow> string \<Rightarrow> string \<Rightarrow> string \<Rightarrow> metrics \<Rightarrow> ready_error option \<times> metrics" where
  "CheckReady client inputQueueURL eventsQueueURL dlqQueueURL m =
     (if \<not> queues_answer client [inputQueueURL, eventsQueueURL] then (Some BrokerFailed, m)
      else
        (case sc_GetQueueAttributes client (Some dlqQueueURL) depth_attributes of
           None \<Rightarrow> (Some BrokerFailed, m)
         | Some attributes \<Rightarrow>
             (case add_depths attributes depth_attributes 0 of
                Inl e \<Rightarrow> (Some e, m)
              | Inr depth \<Rightarrow> (None, SetDLQDepth depth m))))"

section \<open>Receiving\<close>

text \<open>At most one message for a call of the broker.\<close>

definition Receive :: "error + received_message list \<Rightarrow> error option \<times> received_message option" where
  "Receive answer =
     (case answer of
        Inl e \<Rightarrow> (Some e, None)
      | Inr [] \<Rightarrow> (None, None)
      | Inr (message # _) \<Rightarrow> (None, Some message))"

section \<open>What a started consumer relies on\<close>

lemma split_on_nonempty: "split_on sep s \<noteq> []"
  by (cases s) (auto split: list.split)

lemma split_on_append: "split_on sep (a @ sep # b) = split_on sep a @ split_on sep b"
  by (induction a) (auto split: list.split simp: split_on_nonempty)

lemma queueNameFromARN_last: "CHR '':'' \<notin> set name \<Longrightarrow> queueNameFromARN (prefix_text @ CHR '':'' # name) = name"
  by (simp add: queueNameFromARN_def split_on_append split_on_absent)

lemma add_depths_sum:
  assumes "add_depths attributes keys depth = Inr n"
  shows "n = depth + (\<Sum>key \<leftarrow> keys. projr (ParseInt (lookup_string attributes key)))"
  using assms
proof (induction keys arbitrary: depth)
  case (Cons key keys)
  then obtain x where "ParseInt (lookup_string attributes key) = Inr x" "add_depths attributes keys (depth + x) = Inr n"
    by (auto split: sum.splits if_splits)
  then show ?case using Cons.IH [of "depth + x"] by (simp add: add.assoc)
qed simp

text \<open>A dead-letter queue that takes the failed messages of one queue only.\<close>

lemma validateRedriveAllowPolicy_None:
  "validateRedriveAllowPolicy raw sourceARN = None \<longleftrightarrow> \<not> TrimSpace_is_empty raw \<and>
     (\<exists>v. unmarshal_value raw = Some v \<and>
        store_struct False redrive_allow_fields v \<lparr>rd_RedrivePermission = [], rd_SourceQueueARNs = []\<rparr> =
          Some \<lparr>rd_RedrivePermission = ''byQueue'', rd_SourceQueueARNs = [sourceARN]\<rparr>)"
  by (auto simp: validateRedriveAllowPolicy_def split: option.splits)



section \<open>A broker with protected queues\<close>

definition sample_redrive_text :: string where
  "sample_redrive_text =
     ''{'' @ quoted ''deadLetterTargetArn'' @ '':'' @ quoted ''a:d.fifo'' @ '','' @ quoted ''maxReceiveCount'' @ '':5}''"

definition sample_allow_text :: string where
  "sample_allow_text =
     ''{'' @ quoted ''redrivePermission'' @ '':'' @ quoted ''byQueue'' @ '','' @ quoted ''sourceQueueArns'' @ '':['' @
     quoted ''a:q'' @ '']}''"

definition sample_client :: sqs_client where
  "sample_client =
     \<lparr>sc_GetQueueAttributes = (\<lambda>queue names. Some [''FifoQueue'' \<mapsto> ''true'', ''QueueArn'' \<mapsto> ''a:q'',
        ''RedrivePolicy'' \<mapsto> sample_redrive_text, ''Policy'' \<mapsto> sample_policy_text,
        ''RedriveAllowPolicy'' \<mapsto> sample_allow_text]),
      sc_GetQueueUrl = (\<lambda>name. if name = ''d.fifo'' then Some (Some ''u'') else None)\<rparr>"

lemma redrive_names:
  "plain ''deadLetterTargetArn''" "plain ''a:d.fifo''" "plain ''maxReceiveCount''" "plain ''redrivePermission''" "plain ''byQueue''"
  "plain ''sourceQueueArns''" "plain ''a:q''"
  by code_simp+

lemmas unquote_redrive = redrive_names [THEN unquote_plain]

lemma read_sample_redrive:
  "read_redrive sample_redrive_text = Some \<lparr>rp_DeadLetterTargetArn = ''a:d.fifo'', rp_MaxReceiveCount = 5\<rparr>"
proof -
  have five: "is_digit (CHR ''5'')" "\<not> is_digit (CHR ''}'')" by (simp_all add: is_digit_def byte_in_def byte_def)
  have "ParseInt ''5'' = Inr 5"
    using ParseInt_digits [of "''5''"] by (simp add: is_digit_def byte_in_def byte_def)
  moreover have "decode_value sample_redrive_text =
      Some (JObject [(''deadLetterTargetArn'', JString ''a:d.fifo''), (''maxReceiveCount'', JNumber ''5'')], [])"
    unfolding sample_redrive_text_def decode_value_def
    by (simp add: redrive_names scan_structure five number_complete_def del: list.pred_inject)
  ultimately show ?thesis
    by (simp add: read_redrive_def unmarshal_value_def at_EOF_def store_struct_def redrive_fields_def field_of_def store_string_def
        store_int64_def unquote_redrive)
qed

lemma sample_allow_policy: "validateRedriveAllowPolicy sample_allow_text ''a:q'' = None"
proof -
  have "decode_value sample_allow_text =
      Some (JObject [(''redrivePermission'', JString ''byQueue''), (''sourceQueueArns'', JArray [JString ''a:q''])], [])"
    unfolding sample_allow_text_def decode_value_def
    by (simp add: redrive_names scan_structure del: list.pred_inject)
  moreover have "\<not> TrimSpace_is_empty sample_allow_text"
    by (simp add: sample_allow_text_def rune_width_def byte_def rune_is_space_def)
  ultimately show ?thesis
    by (simp add: validateRedriveAllowPolicy_def unmarshal_value_def at_EOF_def store_struct_def redrive_allow_fields_def
        field_of_def store_string_def store_stringList_def store_strings_def unquote_redrive del: TrimSpace_is_empty.simps)
qed

lemma sample_least_privilege: "least_privilege sample_policy_text"
  by (simp add: least_privilege_def sample_policy_accepted)

lemma sample_start: "consumer_start sample_client ''q'' = Inr ''u''" "publisher_start sample_client ''e'' = None"
proof -
  have "queueNameFromARN ''a:d.fifo'' = ''d.fifo''" "HasSuffix ''a:d.fifo'' ''.fifo''" by code_simp+
  then show "consumer_start sample_client ''q'' = Inr ''u''" "publisher_start sample_client ''e'' = None"
    by (simp_all add: consumer_start_def publisher_start_def sample_client_def lookup_string_def aws_ToString_def
        read_sample_redrive sample_allow_policy sample_least_privilege)
qed


end
