(* ===== verification/HttpApi.thy ===== *)
theory HttpApi
  imports Startup
begin

text \<open>
  \<open>internal/infrastructure/httpapi\<close>: the handlers of the API. A handler takes the request and the state of the service to
  the answer and the state after it; \<open>net/http\<close>'s parsing of the request, the clock, the latency measured, the
  faults of the transaction and the answers of the identity provider and of the broker are arguments. A body is the
  value that is serialised; what makes its serialisation fail is modelled, its text is not.
\<close>

section \<open>Answers\<close>

record walletResponse =
  wp_ID :: uuid
  wp_PlayerID :: uuid
  wp_Balance :: money
  wp_Version :: i64

definition walletBody :: "wallet \<Rightarrow> walletResponse" where
  "walletBody w = \<lparr>wp_ID = w_id w, wp_PlayerID = w_playerID w, wp_Balance = w_balance w, wp_Version = w_version w\<rparr>"

record transactionResponse =
  tp_TransactionID :: uuid
  tp_ProviderID :: string
  tp_ExternalTransactionID :: string
  tp_IdempotencyKey :: string
  tp_PlayerID :: uuid
  tp_WalletID :: uuid
  tp_RoundID :: string
  tp_GameID :: string
  tp_Kind :: WagerKind
  tp_Money :: money
  tp_ReferenceExternalTransactionID :: "string option"
  tp_ReferenceTransactionID :: "uuid option"
  tp_Status :: WagerStatus
  tp_Balance :: "money option"
  tp_FailureCode :: "string option"
  tp_CreatedAt :: time
  tp_UpdatedAt :: time

definition transactionBody :: "wager_transaction \<Rightarrow> transactionResponse" where
  "transactionBody t =
     \<lparr>tp_TransactionID = t_id t, tp_ProviderID = t_providerID t, tp_ExternalTransactionID = t_externalTransactionID t,
      tp_IdempotencyKey = t_idempotencyKey t, tp_PlayerID = t_playerID t, tp_WalletID = t_walletID t,
      tp_RoundID = t_roundID t, tp_GameID = t_gameID t, tp_Kind = t_kind t, tp_Money = t_money t,
      tp_ReferenceExternalTransactionID = t_referenceExternalTransactionID t,
      tp_ReferenceTransactionID = t_referenceTransactionID t, tp_Status = t_status t,
      tp_Balance = t_resultBalance t, tp_FailureCode = t_failureCode t, tp_CreatedAt = t_createdAt t,
      tp_UpdatedAt = t_updatedAt t\<rparr>"

record health_checks =
  hc_status :: string
  hc_postgres :: string
  hc_sqs :: string

datatype body =
    ErrorBody string
  | WalletBody walletResponse
  | ResultBody WagerResult
  | TransactionBody transactionResponse
  | LedgerBody LedgerPage
  | ReconciliationBody ReconciliationResult
  | ReadyBody health_checks
  | LiveBody
  | MetricsBody metrics
  | OtherBody

text \<open>\<open>json.Marshal\<close> fails for an amount that \<open>Money.MarshalJSON\<close> refuses and for an instant beyond the year 9999.\<close>

definition money_marshals :: "money \<Rightarrow> bool" where
  "money_marshals m \<longleftrightarrow> (case Money_MarshalJSON m of Inl _ \<Rightarrow> False | Inr _ \<Rightarrow> True)"

definition time_marshals :: "time \<Rightarrow> bool" where
  "time_marshals t \<longleftrightarrow> Time_MarshalJSON t \<noteq> None"

fun marshals :: "body \<Rightarrow> bool" where
  "marshals (WalletBody w) = money_marshals (wp_Balance w)"
| "marshals (ResultBody r) = pred_option money_marshals (wres_Balance r)"
| "marshals (TransactionBody t) =
     (money_marshals (tp_Money t) \<and> pred_option money_marshals (tp_Balance t) \<and>
      time_marshals (tp_CreatedAt t) \<and> time_marshals (tp_UpdatedAt t))"
| "marshals (LedgerBody p) =
     list_all (\<lambda>e. money_marshals (le_Money e) \<and> money_marshals (le_BalanceBefore e) \<and>
       money_marshals (le_BalanceAfter e) \<and> time_marshals (le_CreatedAt e)) (pg_Items p)"
| "marshals (ReconciliationBody r) =
     (money_marshals (rc_StoredBalance r) \<and> money_marshals (rc_CalculatedBalance r) \<and> money_marshals (rc_Difference r))"
| "marshals _ = True"

record response =
  rs_status :: nat
  rs_headers :: "(string \<times> string) list"
  rs_body :: body

definition json_headers :: "(string \<times> string) list" where
  "json_headers = [(''Content-Type'', ''application/json''), (''Cache-Control'', ''no-store'')]"

definition writeError :: "(string \<times> string) list \<Rightarrow> nat \<Rightarrow> string \<Rightarrow> response" where
  "writeError hs status code = \<lparr>rs_status = status, rs_headers = hs @ json_headers, rs_body = ErrorBody code\<rparr>"

definition writeJSON :: "(string \<times> string) list \<Rightarrow> nat \<Rightarrow> body \<Rightarrow> response" where
  "writeJSON hs status b =
     (if marshals b then \<lparr>rs_status = status, rs_headers = hs @ json_headers, rs_body = b\<rparr>
      else writeError hs 500 ''INTERNAL_ERROR'')"

definition api_fail :: "(string \<times> string) list \<Rightarrow> error \<Rightarrow> response" where
  "api_fail hs e = (case errorResponse e of (status, code) \<Rightarrow> writeError hs status code)"

text \<open>The value of the challenge stands in quotes.\<close>

definition writeAuthError :: "(string \<times> string) list \<Rightarrow> nat \<Rightarrow> string \<Rightarrow> response" where
  "writeAuthError hs status code =
     \<lparr>rs_status = status,
      rs_headers = hs @ json_headers @
        (if status = 401
         then [(''WWW-Authenticate'', ''Bearer realm='' @ quoted ''wagering-api'')] else []),
      rs_body = ErrorBody code\<rparr>"

section \<open>The state and what surrounds a request\<close>

record api_state =
  as_db :: db
  as_metrics :: metrics

record api_env =
  ae_env :: env
  ae_pg :: pg_env
  ae_run :: tx_run
  ae_ctx :: "error option"
  ae_latency :: duration
  ae_queries :: "db wallet_queries"
  ae_settings :: auth_Config
  ae_idp :: "string \<Rightarrow> idp_answer"
  ae_unix :: i64
  ae_NewString :: string
  ae_ping :: "error option"
  ae_sqs :: sqs_client
  ae_inputQueueURL :: string
  ae_eventsQueueURL :: string
  ae_dlqQueueURL :: string

section \<open>The handlers\<close>

record openWalletRequest =
  or_PlayerID :: uuid
  or_InitialBalance :: moneyRequest

definition open_fields :: "uuid_text \<Rightarrow> (string \<times> (json \<Rightarrow> openWalletRequest \<Rightarrow> openWalletRequest option)) list" where
  "open_fields ut =
     [(''playerId'', \<lambda>v r. map_option (\<lambda>u. r\<lparr>or_PlayerID := u\<rparr>) (store_text (ut_Parse ut) v (or_PlayerID r))),
      (''initialBalance'', \<lambda>v r. map_option (\<lambda>m. r\<lparr>or_InitialBalance := m\<rparr>)
         (store_struct True money_fields v (or_InitialBalance r)))]"

definition zero_open :: openWalletRequest where
  "zero_open = \<lparr>or_PlayerID = uuid_Nil, or_InitialBalance = \<lparr>mr_Amount = [], mr_Currency = []\<rparr>\<rparr>"

definition createWallet ::
  "uuid_text \<Rightarrow> api_env \<Rightarrow> (string \<times> string) list \<Rightarrow> string \<Rightarrow> http_request \<Rightarrow> api_state \<Rightarrow> response \<times> api_state" where
  "createWallet ut ae hs correlation rq s =
     (case readJSON (open_fields ut) zero_open rq of
        Unreadable status code \<Rightarrow> (writeError hs status code, s)
      | ReadTarget None \<Rightarrow> (writeError hs 400 ''INVALID_REQUEST'', s)
      | ReadTarget (Some request) \<Rightarrow>
          (case NewMoney (mr_Amount (or_InitialBalance request)) (mr_Currency (or_InitialBalance request)) of
             Inl e \<Rightarrow> (api_fail hs e, s)
           | Inr money \<Rightarrow>
               (case OpenWallet_Execute (ae_env ae) (ae_ctx ae) (WithinTransaction (ae_pg ae) (ae_run ae))
                       \<lparr>ow_PlayerID = or_PlayerID request, ow_InitialBalance = money, ow_CorrelationID = correlation\<rparr>
                       (as_db s) of
                  (Inl e, d) \<Rightarrow> (api_fail hs e, s\<lparr>as_db := d\<rparr>)
                | (Inr wallet, d) \<Rightarrow>
                    (writeJSON (hs @ [(''Location'', ''/wallets/'' @ ut_String ut (w_id wallet))]) 201
                       (WalletBody (walletBody wallet)), s\<lparr>as_db := d\<rparr>))))"

definition getWallet ::
  "uuid_text \<Rightarrow> api_env \<Rightarrow> (string \<times> string) list \<Rightarrow> http_request \<Rightarrow> api_state \<Rightarrow> response \<times> api_state" where
  "getWallet ut ae hs rq s =
     (case ut_Parse ut (rq_path_value rq ''walletId'') of
        None \<Rightarrow> (writeError hs 400 ''INVALID_REQUEST'', s)
      | Some i \<Rightarrow>
          if i = uuid_Nil then (writeError hs 400 ''INVALID_REQUEST'', s)
          else
            (case WithinTransaction (ae_pg ae) (ae_run ae) (\<lambda>r. wallets_FindByID r i) (as_db s) of
               (Inl e, d) \<Rightarrow> (api_fail hs e, s\<lparr>as_db := d\<rparr>)
             | (Inr wallet, d) \<Rightarrow> (writeJSON hs 200 (WalletBody (walletBody wallet)), s\<lparr>as_db := d\<rparr>)))"

definition result_status :: "WagerStatus \<Rightarrow> nat" where
  "result_status status =
     (case status of
        WagerStatusPending \<Rightarrow> 202 | WagerStatusPendingReference \<Rightarrow> 202
      | WagerStatusRejected \<Rightarrow> 422 | WagerStatusFailed \<Rightarrow> 500 | _ \<Rightarrow> 200)"

definition request_input :: "wagerRequest \<Rightarrow> string \<Rightarrow> money \<Rightarrow> string \<Rightarrow> ProcessWagerInput" where
  "request_input request key money correlation =
     \<lparr>in_ProviderID = wq_ProviderID request, in_ExternalTransactionID = wq_ExternalTransactionID request,
      in_IdempotencyKey = key, in_PlayerID = wq_PlayerID request, in_WalletID = wq_WalletID request,
      in_RoundID = wq_RoundID request, in_GameID = wq_GameID request, in_Kind = wq_Kind request, in_Money = money,
      in_ReferenceExternalTransactionID = wq_ReferenceExternalTransactionID request,
      in_CorrelationID = correlation, in_CausationID = []\<rparr>"

definition createWager ::
  "uuid_text \<Rightarrow> api_env \<Rightarrow> (string \<times> string) list \<Rightarrow> string \<Rightarrow> Identity option \<Rightarrow> http_request \<Rightarrow> api_state \<Rightarrow>
   response \<times> api_state" where
  "createWager ut ae hs correlation identity rq s =
     (case rq_headers rq ''Idempotency-Key'' of
        [key] \<Rightarrow>
          if TrimSpace_is_empty key then (writeError hs 400 ''IDEMPOTENCY_KEY_REQUIRED'', s)
          else
            (case readJSON (wager_fields ut) zero_request rq of
               Unreadable status code \<Rightarrow> (writeError hs status code, s)
             | ReadTarget None \<Rightarrow> (writeError hs 400 ''INVALID_REQUEST'', s)
             | ReadTarget (Some request) \<Rightarrow>
                 (case NewMoney (mr_Amount (wq_Money request)) (mr_Currency (wq_Money request)) of
                    Inl e \<Rightarrow> (api_fail hs e, s)
                  | Inr money \<Rightarrow>
                      (case identity of
                         None \<Rightarrow> (writeError hs 401 ''UNAUTHENTICATED'', s)
                       | Some idn \<Rightarrow>
                           (case ProcessWager_Execute (ae_env ae) (ae_ctx ae) (WithinTransaction (ae_pg ae) (ae_run ae))
                                   (id_ProviderID idn) (request_input request key money correlation) (as_db s) of
                              (Inl e, d) \<Rightarrow>
                                (api_fail hs e,
                                 \<lparr>as_db = d, as_metrics = ObserveProcessingError e (ae_latency ae) (as_metrics s)\<rparr>)
                            | (Inr result, d) \<Rightarrow>
                                (writeJSON hs (result_status (wres_Status result)) (ResultBody result),
                                 \<lparr>as_db = d,
                                  as_metrics = ObserveWagerResult (WagerStatus_text (wres_Status result))
                                    (wres_IdempotentReplay result) (ae_latency ae) (as_metrics s)\<rparr>)))))
      | _ \<Rightarrow> (writeError hs 400 ''IDEMPOTENCY_KEY_REQUIRED'', s))"

definition getTransaction ::
  "uuid_text \<Rightarrow> api_env \<Rightarrow> (string \<times> string) list \<Rightarrow> Identity option \<Rightarrow> http_request \<Rightarrow> api_state \<Rightarrow> response \<times> api_state" where
  "getTransaction ut ae hs identity rq s =
     (case identity of
        None \<Rightarrow> (writeError hs 401 ''UNAUTHENTICATED'', s)
      | Some idn \<Rightarrow>
          let externalID = rq_path_value rq ''externalTransactionId''; provider = rq_path_value rq ''providerId'';
              i = ut_Parse ut (rq_path_value rq ''transactionId'')
          in if provider \<noteq> [] \<and> provider \<noteq> id_ProviderID idn then (writeError hs 403 ''FORBIDDEN'', s)
             else if externalID = [] \<and> (i = None \<or> i = Some uuid_Nil) then (writeError hs 400 ''INVALID_REQUEST'', s)
             else
               (case WithinTransaction (ae_pg ae) (ae_run ae)
                       (\<lambda>r. if externalID \<noteq> [] then wagers_FindByExternalID r (id_ProviderID idn) externalID
                            else wagers_FindByID r (id_ProviderID idn) (the i)) (as_db s) of
                  (Inl e, d) \<Rightarrow> (api_fail hs e, s\<lparr>as_db := d\<rparr>)
                | (Inr t, d) \<Rightarrow> (writeJSON hs 200 (TransactionBody (transactionBody t)), s\<lparr>as_db := d\<rparr>)))"

text \<open>The limit of a page, where the query string has a usable one.\<close>

definition page_limit :: "(string \<times> string) list \<Rightarrow> int option" where
  "page_limit query =
     (case query_values query ''limit'' of
        [] \<Rightarrow> Some 50
      | [v] \<Rightarrow> (case ParseInt v of Inr n \<Rightarrow> Some (sint n) | Inl _ \<Rightarrow> None)
      | _ \<Rightarrow> None)"

definition listWalletLedger ::
  "uuid_text \<Rightarrow> api_env \<Rightarrow> (string \<times> string) list \<Rightarrow> http_request \<Rightarrow> api_state \<Rightarrow> response \<times> api_state" where
  "listWalletLedger ut ae hs rq s =
     (case ut_Parse ut (rq_path_value rq ''walletId'') of
        None \<Rightarrow> (writeError hs 400 ''INVALID_REQUEST'', s)
      | Some walletID \<Rightarrow>
          if walletID = uuid_Nil then (writeError hs 400 ''INVALID_REQUEST'', s)
          else
            (case ParseQuery (rq_RawQuery rq) of
               None \<Rightarrow> (writeError hs 400 ''INVALID_LEDGER_PAGE'', s)
             | Some query \<Rightarrow>
                 (case page_limit query of
                    None \<Rightarrow> (writeError hs 400 ''INVALID_LEDGER_PAGE'', s)
                  | Some limit \<Rightarrow>
                      if 1 < length (query_values query ''cursor'') then (writeError hs 400 ''INVALID_LEDGER_PAGE'', s)
                      else
                        (case ListLedger_Execute ut (ae_queries ae) walletID (Query_Get query ''cursor'') limit (as_db s) of
                           Inl e \<Rightarrow> (api_fail hs e, s)
                         | Inr page \<Rightarrow> (writeJSON hs 200 (LedgerBody page), s)))))"

definition reconcileWalletBalance ::
  "uuid_text \<Rightarrow> api_env \<Rightarrow> (string \<times> string) list \<Rightarrow> http_request \<Rightarrow> api_state \<Rightarrow> response \<times> api_state" where
  "reconcileWalletBalance ut ae hs rq s =
     (case ut_Parse ut (rq_path_value rq ''walletId'') of
        None \<Rightarrow> (writeError hs 400 ''INVALID_REQUEST'', s)
      | Some walletID \<Rightarrow>
          if walletID = uuid_Nil then (writeError hs 400 ''INVALID_REQUEST'', s)
          else
            (case ReconcileWallet_Execute (ae_queries ae) walletID (as_db s) of
               Inl e \<Rightarrow> (api_fail hs e, s)
             | Inr result \<Rightarrow>
                 (writeJSON hs 200 (ReconciliationBody result),
                  if rc_Consistent result then s
                  else s\<lparr>as_metrics := AddReconciliationDivergence (as_metrics s)\<rparr>)))"

text \<open>The readiness reports every dependency, and reads the depth of the dead letters into the metrics.\<close>

definition API_ready :: "api_env \<Rightarrow> (string \<times> string) list \<Rightarrow> api_state \<Rightarrow> response \<times> api_state" where
  "API_ready ae hs s =
     (case CheckReady (ae_sqs ae) (ae_inputQueueURL ae) (ae_eventsQueueURL ae) (ae_dlqQueueURL ae) (as_metrics s) of
        (queue, m) \<Rightarrow>
          let ok = (ae_ping ae = None \<and> queue = None)
          in (writeJSON hs (if ok then 200 else 503)
                (ReadyBody \<lparr>hc_status = (if ok then ''ok'' else ''unavailable''),
                            hc_postgres = (if ae_ping ae = None then ''ok'' else ''unavailable''),
                            hc_sqs = (if queue = None then ''ok'' else ''unavailable'')\<rparr>),
              s\<lparr>as_metrics := m\<rparr>))"

text \<open>A service that reports itself ready has its database and its queues, and its metrics show the dead letters counted.\<close>

lemma ready_counts_dead_letters:
  assumes "API_ready ae hs s = (answer, s')" and "rs_status answer = 200"
  obtains attributes where "ae_ping ae = None"
    and "queues_answer (ae_sqs ae) [ae_inputQueueURL ae, ae_eventsQueueURL ae]"
    and "sc_GetQueueAttributes (ae_sqs ae) (Some (ae_dlqQueueURL ae)) depth_attributes = Some attributes"
    and "mt_dlqDepthKnown (as_metrics s')"
    and "mt_dlqDepth (as_metrics s') = (\<Sum>key \<leftarrow> depth_attributes. projr (ParseInt (lookup_string attributes key)))"
proof -
  obtain m where m: "CheckReady (ae_sqs ae) (ae_inputQueueURL ae) (ae_eventsQueueURL ae) (ae_dlqQueueURL ae) (as_metrics s) = (None, m)"
      "ae_ping ae = None" "as_metrics s' = m"
    using assms by (auto simp: API_ready_def Let_def writeJSON_def split: prod.splits if_splits)
  then obtain attributes depth where "queues_answer (ae_sqs ae) [ae_inputQueueURL ae, ae_eventsQueueURL ae]"
      "sc_GetQueueAttributes (ae_sqs ae) (Some (ae_dlqQueueURL ae)) depth_attributes = Some attributes"
      "add_depths attributes depth_attributes 0 = Inr depth" "m = SetDLQDepth depth (as_metrics s)"
    by (auto simp: CheckReady_def split: if_splits option.splits sum.splits)
  then show ?thesis using that m add_depths_sum [of attributes depth_attributes 0 depth] by (simp add: SetDLQDepth_def)
qed

section \<open>Routes\<close>

datatype endpoint =
    CreateWallet | GetWallet | ListWalletLedger | ReconcileWalletBalance | GetMetrics | CreateWager | GetTransaction
  | HealthLive | HealthReady | NotFound | MethodNotAllowed

text \<open>
  The patterns of \<open>http.ServeMux\<close> on a clean path, given as its segments: the methods of the path with their endpoint
  and the wildcards. A pattern for \<open>GET\<close> matches \<open>HEAD\<close> too; a wildcard matches one segment that is not empty.
\<close>

definition patterns :: "string list \<Rightarrow> (string \<times> endpoint) list \<times> (string \<times> string) list" where
  "patterns segments =
     (if [] \<in> set segments then ([], [])
      else
        (case segments of
           [a] \<Rightarrow>
             if a = ''wallets'' then ([(''POST'', CreateWallet)], [])
             else if a = ''metrics'' then ([(''GET'', GetMetrics)], []) else ([], [])
         | [a, b] \<Rightarrow>
             if a = ''wallets'' then ([(''GET'', GetWallet)], [(''walletId'', b)])
             else if a = ''wagering'' \<and> b = ''transactions'' then ([(''POST'', CreateWager)], [])
             else if a = ''health'' \<and> b = ''live'' then ([(''GET'', HealthLive)], [])
             else if a = ''health'' \<and> b = ''ready'' then ([(''GET'', HealthReady)], []) else ([], [])
         | [a, b, c] \<Rightarrow>
             if a = ''wallets'' \<and> c = ''ledger'' then ([(''GET'', ListWalletLedger)], [(''walletId'', b)])
             else if a = ''wallets'' \<and> c = ''reconciliation'' then ([(''POST'', ReconcileWalletBalance)], [(''walletId'', b)])
             else if a = ''wagering'' \<and> b = ''transactions'' then ([(''GET'', GetTransaction)], [(''transactionId'', c)])
             else ([], [])
         | [a, b, c, d, e] \<Rightarrow>
             if a = ''providers'' \<and> c = ''wagering'' \<and> d = ''transactions''
             then ([(''GET'', GetTransaction)], [(''providerId'', b), (''externalTransactionId'', e)]) else ([], [])
         | _ \<Rightarrow> ([], [])))"

definition endpoint_of :: "string \<Rightarrow> string list \<Rightarrow> endpoint \<times> (string \<times> string) list" where
  "endpoint_of verb segments =
     (case patterns segments of
        (methods, wildcards) \<Rightarrow>
          if methods = [] then (NotFound, [])
          else (case map_of methods (if verb = ''HEAD'' then ''GET'' else verb) of
                  None \<Rightarrow> (MethodNotAllowed, []) | Some e \<Rightarrow> (e, wildcards)))"

definition path_value :: "(string \<times> string) list \<Rightarrow> string \<Rightarrow> string" where
  "path_value wildcards name = (case map_of wildcards name of None \<Rightarrow> [] | Some v \<Rightarrow> v)"

text \<open>What the guards let through, and the handler behind them.\<close>

definition guarded ::
  "api_env \<Rightarrow> (string \<times> string) list \<Rightarrow> bool \<Rightarrow> http_request \<Rightarrow> api_state \<Rightarrow> (Identity \<Rightarrow> response \<times> api_state) \<Rightarrow>
   response \<times> api_state" where
  "guarded ae hs internal rq s handler =
     (case (if internal then RequireInternal else RequireProvider) (ae_settings ae) (ae_idp ae) (ae_unix ae) rq of
        Inl (status, code) \<Rightarrow> (writeAuthError hs status code, s)
      | Inr identity \<Rightarrow> handler identity)"

definition API_Handler ::
  "uuid_text \<Rightarrow> api_env \<Rightarrow> string \<Rightarrow> string list \<Rightarrow> http_request \<Rightarrow> api_state \<Rightarrow> response \<times> api_state" where
  "API_Handler ut ae verb segments request s =
     (let given = Header_Get request ''X-Correlation-Id'';
          correlation = (if TrimSpace_is_empty given then ae_NewString ae else given);
          hs = [(''X-Correlation-Id'', correlation)]
      in case endpoint_of verb segments of
           (e, wildcards) \<Rightarrow>
             let rq = request\<lparr>rq_path_value := path_value wildcards\<rparr>
             in case e of
                  CreateWallet \<Rightarrow> guarded ae hs True rq s (\<lambda>_. createWallet ut ae hs correlation rq s)
                | GetWallet \<Rightarrow> guarded ae hs True rq s (\<lambda>_. getWallet ut ae hs rq s)
                | ListWalletLedger \<Rightarrow> guarded ae hs True rq s (\<lambda>_. listWalletLedger ut ae hs rq s)
                | ReconcileWalletBalance \<Rightarrow> guarded ae hs True rq s (\<lambda>_. reconcileWalletBalance ut ae hs rq s)
                | GetMetrics \<Rightarrow> (\<lparr>rs_status = 200,
                     rs_headers = hs @ [(''Content-Type'', ''text/plain; version=0.0.4; charset=utf-8''), (''Cache-Control'', ''no-store'')],
                     rs_body = MetricsBody (as_metrics s)\<rparr>, s)
                | CreateWager \<Rightarrow>
                    guarded ae hs False rq s (\<lambda>identity. createWager ut ae hs correlation (Some identity) rq s)
                | GetTransaction \<Rightarrow>
                    guarded ae hs False rq s (\<lambda>identity. getTransaction ut ae hs (Some identity) rq s)
                | HealthLive \<Rightarrow> (writeJSON hs 200 LiveBody, s)
                | HealthReady \<Rightarrow> API_ready ae hs s
                | NotFound \<Rightarrow> (\<lparr>rs_status = 404, rs_headers = hs, rs_body = OtherBody\<rparr>, s)
                | MethodNotAllowed \<Rightarrow> (\<lparr>rs_status = 405, rs_headers = hs, rs_body = OtherBody\<rparr>, s))"

end
