(* ===== verification/ApiAnswers.thy ===== *)
theory ApiAnswers
  imports HttpApi
begin

text \<open>
  What the answers of the API mean: every request is one step of the service or none, a client error has changed
  nothing, and the result of an operation is what the tables hold. At the end a request is run, for the instances.
\<close>

section \<open>A request leaves the tables alone or is one step of the service\<close>

lemma statement_reads: "(\<And>d. snd (m d) = d) \<Longrightarrow> c_db (snd (statement m c)) = c_db c"
  by (simp add: statement_def split: list.split option.split prod.split) (metis snd_conv)

lemma within_reads:
  assumes "\<And>c. c_db (snd (work (conn_repositories pg) c)) = c_db c" and "WithinTransaction pg run work d = (r, d')"
  shows "d' = d"
proof -
  obtain q c where c: "work (conn_repositories pg) \<lparr>c_db = d, c_faults = run_faults run\<rparr> = (q, c)" by force
  then have "c_db c = d" using assms(1) [of "\<lparr>c_db = d, c_faults = run_faults run\<rparr>"] by simp
  then show ?thesis
    using assms(2) by (auto simp: WithinTransaction_def c split: option.splits sum.splits commit_outcome.splits)
qed

lemma repository_reads:
  "c_db (snd (wallets_FindByID (conn_repositories pg) i c)) = c_db c"
  "c_db (snd (wagers_FindByID (conn_repositories pg) p i c)) = c_db c"
  "c_db (snd (wagers_FindByExternalID (conn_repositories pg) p x c)) = c_db c"
proof -
  have q: "snd (query_wager P d) = d" for P d by (simp add: query_wager_def split: option.split)
  have w: "snd (WalletRepository_FindByID i d) = d" for d by (simp add: WalletRepository_FindByID_def split: option.split)
  show "c_db (snd (wallets_FindByID (conn_repositories pg) i c)) = c_db c"
    "c_db (snd (wagers_FindByID (conn_repositories pg) p i c)) = c_db c"
    "c_db (snd (wagers_FindByExternalID (conn_repositories pg) p x c)) = c_db c"
    by (simp_all add: conn_repositories_def statement_reads w q WagerRepository_FindByID_def
        WagerRepository_FindByExternalID_def)
qed

lemma open_wallet_error:
  assumes "OpenWallet_Execute env ctx (WithinTransaction pg run) i d = (Inl e, d')"
  shows "d' = d \<or> is_infra e"
  using assms
  by (auto simp: OpenWallet_Execute_def act_raise_def act_bind_def act_return_def Let_def
      dest: within_error split: option.splits sum.splits prod.splits if_splits)

lemma process_wager_error:
  assumes "ProcessWager_Execute env ctx (WithinTransaction pg run) p i d = (Inl e, d')"
  shows "d' = d \<or> is_infra e"
  using assms
  by (auto simp: ProcessWager_Execute_def execute_wager_def act_raise_def dest: within_error
      split: option.splits sum.splits prod.splits)

text \<open>What a handler does: nothing to the tables, or one step of the service that no client error reports.\<close>

definition clean_answer :: "api_state \<Rightarrow> response \<times> api_state \<Rightarrow> bool" where
  "clean_answer s a \<longleftrightarrow>
     as_db (snd a) = as_db s \<or>
     sys_step (as_db s) (as_db (snd a)) \<and> (rs_status (fst a) \<in> {200, 201, 202, 422} \<or> 500 \<le> rs_status (fst a))"

lemma clean_unchanged [simp]: "as_db s' = as_db s \<Longrightarrow> clean_answer s (a, s')"
  by (simp add: clean_answer_def)

lemma infra_status: "is_infra e \<Longrightarrow> 500 \<le> rs_status (api_fail hs e)"
  using infra_is_server_error by (auto simp: api_fail_def writeError_def is_infra_iff case_prod_beta)

lemma writeJSON_status: "rs_status (writeJSON hs status b) \<in> {status, 500}"
  by (simp add: writeJSON_def writeError_def)

lemma createWallet_clean: "clean_answer s (createWallet ut ae hs correlation rq s)"
proof -
  have fail: "clean_answer s (api_fail hs e, s\<lparr>as_db := d\<rparr>)"
    if "OpenWallet_Execute env ctx (WithinTransaction pg run) i (as_db s) = (Inl e, d)" for env ctx pg run i e d
    using open_wallet_error [OF that] infra_status [of e hs] sys_step.open_wallet [OF that] by (auto simp: clean_answer_def)
  have success: "clean_answer s (writeJSON hs' 201 b, s\<lparr>as_db := d\<rparr>)"
    if "OpenWallet_Execute env ctx (WithinTransaction pg run) i (as_db s) = (Inr w, d)" for env ctx pg run i w d hs' b
    using sys_step.open_wallet [OF that] writeJSON_status [of hs' 201 b] by (auto simp: clean_answer_def)
  show ?thesis
    by (auto simp: createWallet_def fail success split: body_read.split option.split sum.split prod.split)
qed

lemma createWager_clean: "clean_answer s (createWager ut ae hs correlation identity rq s)"
proof -
  have fail: "clean_answer s (api_fail hs e, \<lparr>as_db = d, as_metrics = m\<rparr>)"
    if "ProcessWager_Execute env ctx (WithinTransaction pg run) p i (as_db s) = (Inl e, d)" for env ctx pg run p i e d m
    using process_wager_error [OF that] infra_status [of e hs] sys_step.process_wager [OF that]
    by (auto simp: clean_answer_def)
  have success: "clean_answer s (writeJSON hs (result_status status) b, \<lparr>as_db = d, as_metrics = m\<rparr>)"
    if "ProcessWager_Execute env ctx (WithinTransaction pg run) p i (as_db s) = (Inr w, d)"
    for env ctx pg run p i w d b m status
  proof -
    have "result_status status \<in> {200, 202, 422, 500}" by (auto simp: result_status_def split: WagerStatus.split)
    then show ?thesis
      using sys_step.process_wager [OF that] writeJSON_status [of hs "result_status status" b]
      by (auto simp: clean_answer_def)
  qed
  show ?thesis
    by (auto simp: createWager_def fail success
        split: list.split body_read.split option.split sum.split prod.split)
qed

lemma getWallet_reads: "as_db (snd (getWallet ut ae hs rq s)) = as_db s"
proof -
  have "d = as_db s" if "WithinTransaction pg run (\<lambda>r. wallets_FindByID r i) (as_db s) = (q, d)" for pg run i q d
    by (rule within_reads [OF _ that]) (rule repository_reads)
  then show ?thesis by (auto simp: getWallet_def split: option.split sum.split prod.split)
qed

lemma getTransaction_reads: "as_db (snd (getTransaction ut ae hs identity rq s)) = as_db s"
proof -
  have "d = as_db s"
    if "WithinTransaction pg run (\<lambda>r. if b then wagers_FindByExternalID r p x else wagers_FindByID r p i) (as_db s) = (q, d)"
    for pg run b p x i q d
    by (rule within_reads [OF _ that]) (simp add: repository_reads)
  then show ?thesis by (auto simp: getTransaction_def Let_def split: option.split sum.split prod.split)
qed

lemma other_reads:
  "as_db (snd (listWalletLedger ut ae hs rq s)) = as_db s"
  "as_db (snd (reconcileWalletBalance ut ae hs rq s)) = as_db s"
  by (simp_all add: listWalletLedger_def reconcileWalletBalance_def split: option.split sum.split)

lemma ready_reads: "as_db (snd (API_ready ae hs s)) = as_db s"
  by (simp add: API_ready_def Let_def split: prod.split)

lemma guarded_cases:
  obtains (refused) status code where "guarded ae hs internal rq s handler = (writeAuthError hs status code, s)"
  | (admitted) identity where "authorize (ae_settings ae) (ae_idp ae) (ae_unix ae) internal rq = Inr identity"
      "guarded ae hs internal rq s handler = handler identity"
proof -
  have "(if internal then RequireInternal else RequireProvider) cfg idp now rq = authorize cfg idp now internal rq"
    for cfg idp now by (simp add: RequireInternal_def RequireProvider_def)
  then show ?thesis
    using refused admitted
    by (cases "authorize (ae_settings ae) (ae_idp ae) (ae_unix ae) internal rq") (auto simp: guarded_def)
qed

lemma guarded_clean:
  assumes "\<And>identity. clean_answer s (handler identity)"
  shows "clean_answer s (guarded ae hs internal rq s handler)"
  by (rule guarded_cases [where ae = ae and hs = hs and internal = internal and rq = rq and s = s and handler = handler])
    (simp_all add: assms)

lemma guarded_reads:
  assumes "\<And>identity. as_db (snd (handler identity)) = as_db s"
  shows "as_db (snd (guarded ae hs internal rq s handler)) = as_db s"
  by (rule guarded_cases [where ae = ae and hs = hs and internal = internal and rq = rq and s = s and handler = handler])
    (simp_all add: assms)

lemma clean_reads: "as_db (snd a) = as_db s \<Longrightarrow> clean_answer s a"
  by (simp add: clean_answer_def)

lemma API_Handler_cases:
  obtains (creating) hs correlation w where "fst (endpoint_of verb segments) = CreateWallet"
      "API_Handler ut ae verb segments rq s = guarded ae hs True (rq\<lparr>rq_path_value := w\<rparr>) s
         (\<lambda>_. createWallet ut ae hs correlation (rq\<lparr>rq_path_value := w\<rparr>) s)"
  | (wagering) hs correlation wildcards where "endpoint_of verb segments = (CreateWager, wildcards)"
      "API_Handler ut ae verb segments rq s = guarded ae hs False (rq\<lparr>rq_path_value := path_value wildcards\<rparr>) s
         (\<lambda>identity. createWager ut ae hs correlation (Some identity) (rq\<lparr>rq_path_value := path_value wildcards\<rparr>) s)"
  | (reading) "fst (endpoint_of verb segments) \<notin> {CreateWallet, CreateWager}"
      "as_db (snd (API_Handler ut ae verb segments rq s)) = as_db s"
proof -
  obtain e w where e: "endpoint_of verb segments = (e, w)" by force
  show ?thesis
  proof (cases e)
    case CreateWallet
    show ?thesis by (rule creating) (simp_all add: e CreateWallet API_Handler_def Let_def)
  next
    case CreateWager
    show ?thesis by (rule wagering) (simp_all add: e CreateWager API_Handler_def Let_def)
  qed (rule reading; simp add: e API_Handler_def Let_def other_reads ready_reads guarded_reads getWallet_reads
      getTransaction_reads)+
qed

lemma API_clean: "clean_answer s (API_Handler ut ae verb segments rq s)"
  by (rule API_Handler_cases [where verb = verb and segments = segments and ut = ut and ae = ae and rq = rq and s = s])
    (simp_all only: guarded_clean createWallet_clean createWager_clean clean_reads)

lemma writing_patterns: "list_all (\<lambda>(v, e). e \<in> {CreateWallet, CreateWager} \<longrightarrow> v = ''POST'') (fst (patterns segments))"
proof -
  have split: "list_all Q (fst (if b then x else y)) = (if b then list_all Q (fst x) else list_all Q (fst y))" for Q b x y
    by simp
  show ?thesis
    by (simp only: patterns_def split fst_conv list.pred_inject prod.case endpoint.distinct insert_iff empty_iff simp_thms
        if_cancel split: list.split)
qed

lemma writing_endpoint:
  assumes "fst (endpoint_of verb segments) \<in> {CreateWallet, CreateWager}"
  shows "verb = ''POST''"
proof -
  define v where "v = (if verb = ''HEAD'' then ''GET'' else verb)"
  obtain ms w where ms: "patterns segments = (ms, w)" by force
  have "map_of ms v = Some (fst (endpoint_of verb segments))"
    using assms by (auto simp: endpoint_of_def ms v_def [symmetric] split: option.splits if_splits)
  then have "(v, fst (endpoint_of verb segments)) \<in> set ms" by (rule map_of_SomeD)
  then have "v = ''POST''" using writing_patterns [of segments] assms by (auto simp: ms list_all_iff)
  then show ?thesis by (simp add: v_def split: if_splits)
qed

lemma API_reads:
  assumes "verb \<noteq> ''POST''"
  shows "as_db (snd (API_Handler ut ae verb segments rq s)) = as_db s"
  by (rule API_Handler_cases [where verb = verb and segments = segments and ut = ut and ae = ae and rq = rq and s = s])
    (use assms writing_endpoint [of verb segments] in simp_all)

lemma authorize_headers: "authorize cfg idp now internal (rq\<lparr>rq_path_value := v\<rparr>) = authorize cfg idp now internal rq"
  by (simp add: authorize_def)

lemma API_admitted:
  assumes "as_db (snd (API_Handler ut ae verb segments rq s)) \<noteq> as_db s"
  shows "\<exists>internal identity. authorize (ae_settings ae) (ae_idp ae) (ae_unix ae) internal rq = Inr identity"
proof (rule API_Handler_cases [where verb = verb and segments = segments and ut = ut and ae = ae and rq = rq and s = s])
  fix hs correlation w
  assume "API_Handler ut ae verb segments rq s = guarded ae hs True (rq\<lparr>rq_path_value := w\<rparr>) s
      (\<lambda>_. createWallet ut ae hs correlation (rq\<lparr>rq_path_value := w\<rparr>) s)"
  then show ?thesis
    using assms
    by (cases rule: guarded_cases [where ae = ae and hs = hs and internal = True and rq = "rq\<lparr>rq_path_value := w\<rparr>" and s = s
          and handler = "\<lambda>_. createWallet ut ae hs correlation (rq\<lparr>rq_path_value := w\<rparr>) s"])
      (auto simp: authorize_headers)
next
  fix hs correlation wildcards
  let ?rq = "rq\<lparr>rq_path_value := path_value wildcards\<rparr>"
  assume "API_Handler ut ae verb segments rq s = guarded ae hs False ?rq s
      (\<lambda>identity. createWager ut ae hs correlation (Some identity) ?rq s)"
  then show ?thesis
    using assms
    by (cases rule: guarded_cases [where ae = ae and hs = hs and internal = False and rq = ?rq and s = s
          and handler = "\<lambda>identity. createWager ut ae hs correlation (Some identity) ?rq s"])
      (auto simp: authorize_headers)
qed (use assms in simp)

text \<open>C9: A request changes the tables by one step of the service or not at all: a client error other than the answer of a
  rejected operation has changed nothing, a request whose method is not POST never changes anything, and nothing is
  changed for a client that the guards have not admitted.\<close>

theorem client_errors_change_nothing:
  assumes "API_Handler ut ae verb segments rq s = (answer, s')"
  shows "(as_db s' = as_db s \<or> sys_step (as_db s) (as_db s')) \<and>
    (400 \<le> rs_status answer \<and> rs_status answer < 500 \<and> rs_status answer \<noteq> 422 \<longrightarrow> as_db s' = as_db s) \<and>
    (verb \<noteq> ''POST'' \<longrightarrow> as_db s' = as_db s) \<and>
    (as_db s' \<noteq> as_db s \<longrightarrow>
      (\<exists>internal identity. authorize (ae_settings ae) (ae_idp ae) (ae_unix ae) internal rq = Inr identity))"
  using API_clean [of s ut ae verb segments rq] API_reads [of verb ut ae segments rq s]
    API_admitted [of ut ae verb segments rq s] assms
  by (auto simp: clean_answer_def)

section \<open>The answer to an operation\<close>

lemma execute_wager_work:
  assumes "execute_wager env ctx (WithinTransaction pg run) p i m d = (Inr result, d')"
  obtains i' t where "prepare_wager env p i = Inr (i', t)" and "wager_work env i' t m (pg_repositories pg) d = (Inr result, d')"
proof -
  obtain i' t where t: "prepare_wager env p i = Inr (i', t)" "WithinTransaction pg run (wager_work env i' t m) d = (Inr result, d')"
    using assms by (auto simp: execute_wager_def act_raise_def split: option.splits sum.splits prod.splits)
  from ports.wager_work_sim [OF pg_ports.ports_axioms] t(2) have "wager_work env i' t m (pg_repositories pg) d = (Inr result, d')"
    using WithinTransaction_outcome [where work' = "wager_work env i' t m" and work = "wager_work env i' t m" and pg = pg
        and run = run and d = d]
    by (fastforce simp: atomically_def split: prod.splits sum.splits)
  then show ?thesis using that t(1) by blast
qed

text \<open>Whatever is answered is in the tables, under the provider and the key of the request.\<close>

lemma answered_operation:
  assumes "ProcessWager_Execute env ctx (WithinTransaction pg run) p i d = (Inr result, d')" and "consistent d"
  shows "\<exists>g \<in> set (db_wagers d'). wg_id g = wres_TransactionID result \<and> wg_status g = wres_Status result \<and>
    wg_provider_id g = Some p \<and> wg_idempotency_key g = Some (in_IdempotencyKey i) \<and>
    payloadHash (env_uuid_String env) i = Inr (coalesce_empty (wg_payload_hash g))"
proof -
  obtain i' t where prep: "prepare_wager env p i = Inr (i', t)"
    and work: "wager_work env i' t None (pg_repositories pg) d = (Inr result, d')"
    using assms(1) execute_wager_work unfolding ProcessWager_Execute_def by blast
  have run: "process_operation env i' t (pg_repositories pg) d = (Inr result, d')" using work by (simp add: wager_work_def)
  note p = prepare_wager_ok [OF prep]
  have valid: "wager_valid t" using p(1) by (simp add: prepared_def)
  have "in_ProviderID i' = in_ProviderID i" "in_IdempotencyKey i' = in_IdempotencyKey i"
    by (subst p(4), simp)+
  then have ids: "t_providerID t = p" "t_idempotencyKey t = in_IdempotencyKey i"
    using p(1,2) by (simp_all add: prepared_def)
  have nonempty: "t_providerID t \<noteq> []" "t_idempotencyKey t \<noteq> []"
    using p(1) by (auto simp: prepared_def wager_valid_iff validate_identity_def split: if_splits)
  from process_operation_ok [OF run] show ?thesis
  proof
    assume "find_replay d t = Inr (Some result) \<and> d' = d"
    then obtain g e where g: "stored_operation d t = Some g" "scanWager g = Inr e" "result = wagerResult e True" "d' = d"
        "t_payloadHash e = t_payloadHash t" "t_idempotencyKey e = t_idempotencyKey t"
      by (auto simp: find_replay_def split: option.splits sum.splits if_splits)
    have "g \<in> set (db_wagers d)" "wg_provider_id g = Some (t_providerID t)"
      using g(1) by (auto simp: stored_operation_def split: option.splits dest: find_SomeD)
    then show ?thesis
      using scanWager_stores [OF g(2)] g(3-6) ids nonempty(2) p(3)
      by (intro bexI [of _ g]) (auto simp: stores_wager_def wagerResult_def coalesce_empty_def split: option.splits)
  next
    assume "\<exists>w t'. processed_run pg env i' t d w t' d' \<and> result = wagerResult t' False"
    then obtain w t' where r: "processed_run pg env i' t d w t' d'" "result = wagerResult t' False" by blast
    note row = processed_run_row [OF r(1) p(1) assms(2)]
    have "t_providerID t' = t_providerID t" "t_idempotencyKey t' = t_idempotencyKey t" "t_payloadHash t' = t_payloadHash t"
      using row(2) by (simp_all add: same_operation_def)
    then show ?thesis
      using row(1) ids nonempty p(3) r(2)
      by (intro bexI [of _ "wager_row_of (db_clock d) t'"])
        (auto simp: wager_row_of_def wagerResult_def nullif_empty_def coalesce_empty_def)
  qed
qed

lemma wager_route: "endpoint_of ''POST'' [''wagering'', ''transactions''] = (CreateWager, [])"
  by (simp add: endpoint_of_def patterns_def)

lemma writeJSON_body:
  "rs_body (writeJSON hs status b) = b \<Longrightarrow> b \<noteq> ErrorBody ''INTERNAL_ERROR'' \<Longrightarrow> rs_status (writeJSON hs status b) = status"
  by (auto simp: writeJSON_def writeError_def split: if_splits)

lemma createWager_result:
  assumes "createWager ut ae hs correlation (Some identity) rq s = (answer, s')" and "rs_body answer = ResultBody result"
  obtains key i where "rq_headers rq ''Idempotency-Key'' = [key]" and "in_IdempotencyKey i = key"
    and "ProcessWager_Execute (ae_env ae) (ae_ctx ae) (WithinTransaction (ae_pg ae) (ae_run ae)) (id_ProviderID identity) i
      (as_db s) = (Inr result, as_db s')"
    and "rs_status answer = result_status (wres_Status result)"
proof -
  have error: "rs_body (writeError hs status code) \<noteq> ResultBody result" "rs_body (api_fail hs e) \<noteq> ResultBody result"
    for status code e by (simp_all add: writeError_def api_fail_def case_prod_beta)
  obtain key request money where k: "rq_headers rq ''Idempotency-Key'' = [key]" "\<not> TrimSpace_is_empty key"
    and r: "readJSON (wager_fields ut) zero_request rq = ReadTarget (Some request)"
    and m: "NewMoney (mr_Amount (wq_Money request)) (mr_Currency (wq_Money request)) = Inr money"
    using assms error unfolding createWager_def
    by (auto split: list.splits if_splits body_read.splits option.splits sum.splits)
  define i where "i = request_input request key money correlation"
  obtain q d where q: "ProcessWager_Execute (ae_env ae) (ae_ctx ae) (WithinTransaction (ae_pg ae) (ae_run ae))
      (id_ProviderID identity) i (as_db s) = (q, d)" by force
  have a: "(answer, s') = (case q of
        Inl e \<Rightarrow> (api_fail hs e, \<lparr>as_db = d, as_metrics = ObserveProcessingError e (ae_latency ae) (as_metrics s)\<rparr>)
      | Inr x \<Rightarrow> (writeJSON hs (result_status (wres_Status x)) (ResultBody x),
          \<lparr>as_db = d, as_metrics = ObserveWagerResult (WagerStatus_text (wres_Status x)) (wres_IdempotentReplay x)
             (ae_latency ae) (as_metrics s)\<rparr>))"
    using assms(1) k(2) by (simp add: createWager_def k r m i_def [symmetric] q split: sum.split)
  then obtain x where x: "q = Inr x" "answer = writeJSON hs (result_status (wres_Status x)) (ResultBody x)" "as_db s' = d"
    using assms(2) error by (auto split: sum.splits)
  then have "x = result" using assms(2) by (auto simp: writeJSON_def writeError_def split: if_splits)
  then show ?thesis
    using that [of key i] k q x writeJSON_body [of hs "result_status (wres_Status x)" "ResultBody x"] assms(2)
    by (simp add: i_def request_input_def)
qed

text \<open>C22: What the API answers to an operation is what the tables hold: when the answer carries a result, the request came
  from a provider with a live token, and the tables after it have an operation of that provider, under the
  idempotency key of the request, with the identity and the state of the result; and the status is 200 for a
  processed operation, 202 for one that waits for its reference and 422 for a rejected one.\<close>

theorem wager_answer_is_stored:
  assumes "reachable (as_db s)"
    and "API_Handler ut ae ''POST'' [''wagering'', ''transactions''] rq s = (answer, s')"
    and "rs_body answer = ResultBody result"
  shows "\<exists>identity key g.
    RequireProvider (ae_settings ae) (ae_idp ae) (ae_unix ae) rq = Inr identity \<and>
    rq_headers rq ''Idempotency-Key'' = [key] \<and> g \<in> set (db_wagers (as_db s')) \<and>
    wg_id g = wres_TransactionID result \<and> wg_status g = wres_Status result \<and>
    wg_provider_id g = Some (id_ProviderID identity) \<and> wg_idempotency_key g = Some key \<and>
    (rs_status answer, wres_Status result) \<in>
      {(200, WagerStatusProcessed), (202, WagerStatusPendingReference), (422, WagerStatusRejected)}"
proof -
  obtain hs correlation where run: "guarded ae hs False (rq\<lparr>rq_path_value := path_value []\<rparr>) s
      (\<lambda>identity. createWager ut ae hs correlation (Some identity) (rq\<lparr>rq_path_value := path_value []\<rparr>) s) = (answer, s')"
    using assms(2) by (auto simp: API_Handler_def Let_def wager_route)
  obtain identity where idn: "authorize (ae_settings ae) (ae_idp ae) (ae_unix ae) False rq = Inr identity"
    and create: "createWager ut ae hs correlation (Some identity) (rq\<lparr>rq_path_value := path_value []\<rparr>) s = (answer, s')"
    using run assms(3)
    by (cases rule: guarded_cases [where ae = ae and hs = hs and internal = False and s = s
          and rq = "rq\<lparr>rq_path_value := path_value []\<rparr>"
          and handler = "\<lambda>identity. createWager ut ae hs correlation (Some identity) (rq\<lparr>rq_path_value := path_value []\<rparr>) s"])
      (auto simp: authorize_headers writeAuthError_def)
  obtain key i where k: "rq_headers rq ''Idempotency-Key'' = [key]" "in_IdempotencyKey i = key"
    and ex: "ProcessWager_Execute (ae_env ae) (ae_ctx ae) (WithinTransaction (ae_pg ae) (ae_run ae)) (id_ProviderID identity) i
      (as_db s) = (Inr result, as_db s')"
    and status: "rs_status answer = result_status (wres_Status result)"
    by (rule createWager_result [OF create assms(3)]) simp
  obtain g where g: "g \<in> set (db_wagers (as_db s'))" "wg_id g = wres_TransactionID result" "wg_status g = wres_Status result"
      "wg_provider_id g = Some (id_ProviderID identity)" "wg_idempotency_key g = Some key"
    using answered_operation [OF ex reachable_consistent [OF assms(1)]] k(2) by blast
  have "reachable (as_db s')" by (rule reachable.step [OF assms(1) sys_step.process_wager [OF ex]])
  then have "wg_status g \<in> {WagerStatusPendingReference, WagerStatusProcessed, WagerStatusRejected}"
    using reachable_sound g(1) by (simp add: sound_def settled_def settled_status_def)
  then have "(rs_status answer, wres_Status result) \<in>
      {(200, WagerStatusProcessed), (202, WagerStatusPendingReference), (422, WagerStatusRejected)}"
    using g(3) status by (auto simp: result_status_def)
  then show ?thesis using idn k(1) g by (auto simp: RequireProvider_def)
qed

section \<open>A request\<close>

definition sample_api :: api_env where
  "sample_api =
     \<lparr>ae_env = sample_env 20, ae_pg = sample_pg, ae_run = fault_free, ae_ctx = None, ae_latency = 3, ae_queries = pg_queries,
      ae_settings = sample_settings, ae_idp = sample_idp, ae_unix = 5, ae_NewString = ''n'', ae_ping = None,
      ae_sqs = sample_client,
      ae_inputQueueURL = ''q'', ae_eventsQueueURL = ''e'', ae_dlqQueueURL = ''u''\<rparr>"

definition sample_api_state :: api_state where
  "sample_api_state = \<lparr>as_db = opened_db, as_metrics = NewMetrics\<rparr>"

definition sample_body_value :: json where
  "sample_body_value =
     JObject [(''providerId'', JString ''p''), (''externalTransactionId'', JString ''x1''),
       (''playerId'', JString (ut_String sample_uuid_text 3)), (''walletId'', JString (ut_String sample_uuid_text 18)),
       (''roundId'', JString ''r''), (''gameId'', JString ''g''), (''kind'', JString ''BET''),
       (''money'', JObject [(''amount'', JString ''0.30''), (''currency'', JString ''BRL'')])]"

definition sample_wager_http :: http_request where
  "sample_wager_http =
     \<lparr>rq_headers = (\<lambda>h. if h = ''Authorization'' then [''bearer t''] else if h = ''Idempotency-Key'' then [''k1'']
        else if h = ''Content-Type'' then [''application/json''] else if h = ''X-Correlation-Id'' then [''c''] else []),
      rq_path_value = (\<lambda>_. []), rq_RawQuery = [], rq_body = json_text 2 sample_body_value, rq_body_broken = False\<rparr>"

definition http_request_value :: wagerRequest where
  "http_request_value = sample_request\<lparr>wq_IdempotencyKey := []\<rparr>"

lemma sample_plain:
  "plain ''p''" "plain ''x1''" "plain ''r''" "plain ''g''" "plain ''BET''" "plain ''0.30''" "plain ''BRL''"
  "plain (ut_String sample_uuid_text u)"
proof -
  show "plain (ut_String sample_uuid_text u)"
    using sample_uuid_documented uuid_char_plain by (simp add: uuid_documented_def)
qed code_simp+

lemma sample_body_stored:
  "store_pointer (wager_fields sample_uuid_text) zero_request sample_body_value = Some (Some http_request_value)"
proof -
  have u: "ut_Parse sample_uuid_text (ut_String sample_uuid_text u) = Some u" for u
    using sample_uuid_documented by (simp add: uuid_documented_def)
  have k: "WagerKind_of ''BET'' = WagerKindBet" by code_simp
  note keys = message_names [THEN unquote_plain] and texts = sample_plain [THEN unquote_plain]
  show ?thesis
    by (simp add: store_pointer_def sample_body_value_def store_object wager_fields_def money_fields_def field_of_def keys texts u k
        store_string_def store_text_def store_kind_def zero_request_def http_request_value_def sample_request_def)
qed

lemma members_all:
  "list_all (P :: string \<times> json \<Rightarrow> bool) [] = True" "list_all P (m # ms) = (P m \<and> list_all P ms)"
  by simp_all

lemma text_depths:
  "text_json 2 (JObject ms) = (ms \<noteq> [] \<and> list_all (\<lambda>(k, v). plain k \<and> text_json 1 v) ms)"
  "text_json 1 (JObject ms) = (ms \<noteq> [] \<and> list_all (\<lambda>(k, v). plain k \<and> text_json 0 v) ms)"
  "json_text 2 (JObject ms) = json_object (map (\<lambda>(k, v). json_member k (json_text 1 v)) ms)"
  "json_text 1 (JObject ms) = json_object (map (\<lambda>(k, v). json_member k (json_text 0 v)) ms)"
  by (simp_all add: numeral_2_eq_2)

lemma sample_body_scanned: "decode_value (rq_body sample_wager_http) = Some (sample_body_value, [])"
proof -
  have "text_json 2 sample_body_value"
    by (simp add: sample_body_value_def text_depths members_all sample_plain [THEN plain_scannable] message_names
        del: list.pred_inject)
  from decode_text [OF this, of "[]"] show ?thesis by (simp add: sample_wager_http_def max_nesting_def)
qed

lemma sample_body_length: "length (rq_body sample_wager_http) \<le> max_body"
proof -
  have "length (ut_String sample_uuid_text u) = 36" for u
    using sample_uuid_documented by (simp add: uuid_documented_def)
  then have "length (json_text 2 sample_body_value) \<le> 400"
    by (simp add: sample_body_value_def text_depths json_object_def json_member_def json_string_plain message_names
        del: list.pred_inject)
  moreover have "rq_body sample_wager_http = json_text 2 sample_body_value" by (simp add: sample_wager_http_def)
  moreover have "400 \<le> max_body" by (simp add: max_body_def)
  ultimately show ?thesis by (simp only: le_trans)
qed

lemma sample_read:
  "readJSON (wager_fields sample_uuid_text) zero_request (sample_wager_http\<lparr>rq_path_value := v\<rparr>) = ReadTarget (Some http_request_value)"
proof -
  have "label_ToLower 0 ''application/json'' = ''application/json''" "trim_left 0 ''application/json'' = ''application/json''"
    "media_type_valid ''application/json''" by code_simp+
  moreover have "trim_right 0 ''application/json'' = ''application/json''"
    by (simp add: rune_width_def byte_def rune_is_space_def byte_in_def)
  moreover have "media_params [] []" by (subst media_params.simps) simp
  ultimately have "ParseMediaType ''application/json'' = Some ''application/json''"
    by (simp add: ParseMediaType_def Let_def ToLower_def TrimSpace_def)
  then have "ParseMediaType (Header_Get (sample_wager_http\<lparr>rq_path_value := v\<rparr>) ''Content-Type'') = Some ''application/json''"
    by (simp add: Header_Get_def sample_wager_http_def)
  then show ?thesis
    using sample_body_length sample_body_scanned sample_body_stored
    by (simp add: readJSON_def Let_def at_EOF_def) (simp add: sample_wager_http_def)
qed

definition http_input :: ProcessWagerInput where
  "http_input = sample_input\<lparr>in_CausationID := []\<rparr>"

lemma http_prepared: "prepare_wager (sample_env 20) ''p'' http_input = Inr (http_input, sample_wager)"
proof -
  have "NewWagerTransaction 21 5000 ''p'' ''x1'' ''k1'' (t_payloadHash sample_wager) 18 3 ''r'' ''g'' WagerKindBet
      \<lparr>amount = 30, currency = ''BRL''\<rparr> None = Inr sample_wager"
    using sample_wager_valid by (simp add: NewWagerTransaction_def sample_wager_def Let_def WagerKind_IsValid_def validateWagerMoney_def
        validCurrency_def Money_IsPositive_iff)
  moreover have "payload_document u http_input = payload_document u sample_input" for u
    by (simp add: payload_document_def http_input_def)
  ultimately show ?thesis
    using sample_texts
    by (simp add: prepare_wager_def payloadHash_def sample_env_def http_input_def sample_input_def sample_wager_def validCurrency_def
        Money_Validate_def del: TrimSpace_is_empty.simps)
qed

lemma http_run:
  obtains t' d' where
    "ProcessWager_Execute (sample_env 20) None (WithinTransaction sample_pg fault_free) ''p'' http_input opened_db =
       (Inr (wagerResult t' False), d')" and "wager_valid t'"
proof -
  have "ready (sample_env 20) http_input 5000 opened_db"
    using opened_ready by (simp add: ready_def http_input_def)
  moreover have "MaxInt64 \<noteq> 1" by (simp add: MaxInt64_def)
  moreover have "in_WalletID http_input = 18" "in_PlayerID http_input = 3" "currency (in_Money http_input) = ''BRL''"
    by (simp_all add: http_input_def sample_facts)
  ultimately obtain t' d' where run: "process_operation (sample_env 20) http_input sample_wager (pg_repositories sample_pg) opened_db =
      (Inr (wagerResult t' False), d')"
      "outcome sample_pg (sample_env 20) http_input opened_wallet sample_wager
       (opened_db\<lparr>db_wagers := db_wagers opened_db @ [wager_row_of (db_clock opened_db) sample_wager]\<rparr>) t' d'"
    using process_operation_runs [OF reachable_consistent [OF reachable_opened] opened_readable prepare_wager_ok(1) [OF http_prepared] _ _
        opened_in opened_scan _ _ _ _ opened_unused opened_new_id, of "sample_env 20" sample_pg]
    by (auto simp: sample_facts)
  have "wager_valid t'"
    using outcome_summary [OF run(2)] prepare_wager_ok(1) [OF http_prepared] by (simp add: prepared_def)
  moreover have "WithinTransaction sample_pg fault_free (wager_work (sample_env 20) http_input sample_wager None) opened_db =
      (Inr (wagerResult t' False), d')"
    using run(1) by (intro quiet_wager_work) (simp add: wager_work_def)
  ultimately show ?thesis
    using that by (simp add: ProcessWager_Execute_def execute_wager_def http_prepared)
qed

lemma valid_result_marshals: "wager_valid t \<Longrightarrow> marshals (ResultBody (wagerResult t b))"
  by (auto simp: wagerResult_def wager_valid_iff validate_result_balance_def money_marshals_def Money_MarshalJSON_def Money_Validate_def
      pred_option_def split: if_splits option.splits)

lemma sample_request_input:
  "request_input http_request_value ''k1'' \<lparr>amount = 30, currency = ''BRL''\<rparr> ''c'' = http_input"
  by (simp add: request_input_def http_request_value_def sample_request_def http_input_def sample_input_def)

lemma sample_created:
  obtains t' d' where
    "createWager sample_uuid_text sample_api hs ''c'' (Some \<lparr>id_Subject = ''s'', id_ProviderID = ''p'', id_provider = True, id_internal = False\<rparr>)
       (sample_wager_http\<lparr>rq_path_value := v\<rparr>) sample_api_state =
     (writeJSON hs (result_status (t_status t')) (ResultBody (wagerResult t' False)),
      \<lparr>as_db = d', as_metrics = ObserveWagerResult (WagerStatus_text (t_status t')) False 3 NewMetrics\<rparr>)"
    and "wager_valid t'"
proof -
  obtain t' d' where run: "ProcessWager_Execute (sample_env 20) None (WithinTransaction sample_pg fault_free) ''p'' http_input opened_db =
       (Inr (wagerResult t' False), d')" "wager_valid t'"
    by (rule http_run)
  have "rq_headers (sample_wager_http\<lparr>rq_path_value := v\<rparr>) ''Idempotency-Key'' = [''k1'']" by (simp add: sample_wager_http_def)
  moreover have "NewMoney (mr_Amount (wq_Money http_request_value)) (mr_Currency (wq_Money http_request_value)) =
      Inr \<lparr>amount = 30, currency = ''BRL''\<rparr>"
    using sample_message_facts(3) by (simp add: http_request_value_def sample_request_def)
  moreover have "wres_Status (wagerResult t' False) = t_status t'" "wres_IdempotentReplay (wagerResult t' False) = False"
    by (simp_all add: wagerResult_def)
  ultimately show ?thesis
    using that run not_blank_reference sample_message_facts(2)
    by (simp add: createWager_def sample_read sample_request_input sample_api_def sample_api_state_def
        del: TrimSpace_is_empty.simps)
qed

lemma sample_wager_admitted:
  "authorize sample_settings sample_idp 5 False (sample_wager_http\<lparr>rq_path_value := v\<rparr>) =
     Inr \<lparr>id_Subject = ''s'', id_ProviderID = ''p'', id_provider = True, id_internal = False\<rparr>"
  using sample_admitted by (simp add: RequireProvider_def authorize_def sample_http_def sample_wager_http_def)

theorem wager_answer_is_stored_witness:
  "\<exists>answer s' result g.
     API_Handler sample_uuid_text sample_api ''POST'' [''wagering'', ''transactions''] sample_wager_http sample_api_state = (answer, s') \<and>
     rs_body answer = ResultBody result \<and> g \<in> set (db_wagers (as_db s')) \<and> wg_id g = wres_TransactionID result \<and>
     wg_provider_id g = Some ''p'' \<and> wg_idempotency_key g = Some ''k1''"
proof -
  let ?hs = "[(''X-Correlation-Id'', ''c'')]"
  obtain t' d' where run: "createWager sample_uuid_text sample_api ?hs ''c''
       (Some \<lparr>id_Subject = ''s'', id_ProviderID = ''p'', id_provider = True, id_internal = False\<rparr>)
       (sample_wager_http\<lparr>rq_path_value := path_value []\<rparr>) sample_api_state =
     (writeJSON ?hs (result_status (t_status t')) (ResultBody (wagerResult t' False)),
      \<lparr>as_db = d', as_metrics = ObserveWagerResult (WagerStatus_text (t_status t')) False 3 NewMetrics\<rparr>)" "wager_valid t'"
    by (rule sample_created)
  let ?answer = "writeJSON ?hs (result_status (t_status t')) (ResultBody (wagerResult t' False))"
  have "Header_Get sample_wager_http ''X-Correlation-Id'' = ''c''" by (simp add: Header_Get_def sample_wager_http_def)
  moreover have "ae_settings sample_api = sample_settings" "ae_idp sample_api = sample_idp" "ae_unix sample_api = 5"
    by (simp_all add: sample_api_def)
  ultimately have handled: "API_Handler sample_uuid_text sample_api ''POST'' [''wagering'', ''transactions''] sample_wager_http sample_api_state =
      (?answer, \<lparr>as_db = d', as_metrics = ObserveWagerResult (WagerStatus_text (t_status t')) False 3 NewMetrics\<rparr>)"
    using sample_texts(1) run(1)
    by (simp add: API_Handler_def Let_def wager_route guarded_def RequireProvider_def sample_wager_admitted
        del: TrimSpace_is_empty.simps)
  have body: "rs_body ?answer = ResultBody (wagerResult t' False)"
    using valid_result_marshals [OF run(2)] by (simp add: writeJSON_def)
  have "reachable (as_db sample_api_state)" using reachable_opened by (simp add: sample_api_state_def)
  from wager_answer_is_stored [OF this handled body] obtain identity key g where
    g: "RequireProvider sample_settings sample_idp 5 sample_wager_http = Inr identity" "g \<in> set (db_wagers d')"
      "rq_headers sample_wager_http ''Idempotency-Key'' = [key]" "wg_id g = wres_TransactionID (wagerResult t' False)"
      "wg_provider_id g = Some (id_ProviderID identity)" "wg_idempotency_key g = Some key"
    by (auto simp: sample_api_def)
  moreover have "id_ProviderID identity = ''p''"
    using g(1) sample_wager_admitted [of "\<lambda>_. []"] by (simp add: RequireProvider_def authorize_headers)
  moreover have "key = ''k1''" using g(3) by (simp add: sample_wager_http_def)
  ultimately show ?thesis using handled body by auto
qed

text \<open>A request without a key is refused.\<close>

theorem client_errors_change_nothing_witness:
  "\<exists>answer s'. API_Handler sample_uuid_text sample_api ''POST'' [''wagering'', ''transactions''] sample_http sample_api_state = (answer, s') \<and>
     rs_status answer = 400 \<and> as_db s' = opened_db"
proof -
  obtain answer s' where run: "API_Handler sample_uuid_text sample_api ''POST'' [''wagering'', ''transactions''] sample_http sample_api_state =
      (answer, s')" by force
  have "rs_status (fst (API_Handler sample_uuid_text sample_api ''POST'' [''wagering'', ''transactions''] sample_http sample_api_state)) = 400"
    using sample_admitted
    by (simp add: API_Handler_def Let_def wager_route guarded_def RequireProvider_def authorize_headers sample_api_def createWager_def
        writeError_def) (simp add: sample_http_def writeError_def)
  then have "rs_status answer = 400" by (simp add: run)
  then show ?thesis using client_errors_change_nothing [OF run] run by (simp add: sample_api_state_def)
qed

end
