(* ===== verification/Server.thy ===== *)
theory Server
  imports HttpApi
begin

text \<open>
  \<open>internal/infrastructure/httpapi/server.go\<close>: the server around the API and its shutdown. The flag and the wait group of the
  code decide which requests run; the server is a transition system whose steps are the arrival and the treatment of
  a request and the stages of \<open>OnStop\<close>. The listener, the time limits and the connections are \<open>net/http\<close>'s.
\<close>

section \<open>The server\<close>

record arrived_request =
  ar_verb :: string
  ar_segments :: "string list"
  ar_request :: http_request

text \<open>
  The flag \<open>stopping\<close>, the requests that the wait group counts, the answers written so far, and whether \<open>OnStop\<close> has
  returned.
\<close>

record server_state =
  sv_stopping :: bool
  sv_requests :: "arrived_request list"
  sv_answers :: "response list"
  sv_stopped :: bool
  sv_api :: api_state

definition new_server :: "api_state \<Rightarrow> server_state" where
  "new_server s = \<lparr>sv_stopping = False, sv_requests = [], sv_answers = [], sv_stopped = False, sv_api = s\<rparr>"

text \<open>What the outer handler does with a request before the API sees it, under the mutex.\<close>

definition admit :: "arrived_request \<Rightarrow> server_state \<Rightarrow> server_state" where
  "admit rq s =
     (if sv_stopping s then s\<lparr>sv_answers := sv_answers s @ [writeError [] 503 ''SHUTTING_DOWN'']\<rparr>
      else s\<lparr>sv_requests := rq # sv_requests s\<rparr>)"

text \<open>The API treats an admitted request; the deferred \<open>Done\<close> takes it out of the wait group.\<close>

definition treat :: "uuid_text \<Rightarrow> api_env \<Rightarrow> arrived_request \<Rightarrow> server_state \<Rightarrow> server_state" where
  "treat ut ae rq s =
     (case API_Handler ut ae (ar_verb rq) (ar_segments rq) (ar_request rq) (sv_api s) of
        (answer, api) \<Rightarrow>
          s\<lparr>sv_requests := remove1 rq (sv_requests s), sv_answers := sv_answers s @ [answer], sv_api := api\<rparr>)"

inductive server_step :: "server_state \<Rightarrow> server_state \<Rightarrow> bool" where
  request_arrives: "server_step s (admit rq s)"
| request_treated: "rq \<in> set (sv_requests s) \<Longrightarrow> server_step s (treat ut ae rq s)"
| stop_begins: "server_step s (s\<lparr>sv_stopping := True\<rparr>)"
| stop_returns: "sv_stopping s \<Longrightarrow> sv_requests s = [] \<Longrightarrow> server_step s (s\<lparr>sv_stopped := True\<rparr>)"

inductive_cases server_stepE: "server_step s s'"

section \<open>Shutting down\<close>

definition drained :: "server_state \<Rightarrow> bool" where
  "drained s \<longleftrightarrow> (sv_stopped s \<longrightarrow> sv_stopping s \<and> sv_requests s = [])"

lemma drained_step: "server_step s s' \<Longrightarrow> drained s \<Longrightarrow> drained s'"
  by (erule server_stepE) (auto simp: drained_def admit_def treat_def split: prod.splits)

lemma drained_steps: "server_step\<^sup>*\<^sup>* s s' \<Longrightarrow> drained s \<Longrightarrow> drained s'"
  by (induction rule: rtranclp_induct) (auto intro: drained_step)

text \<open>While the server stops the requests only leave; once it has stopped nothing reaches the API.\<close>

lemma stopping_step:
  assumes "server_step s s'" and "sv_stopping s"
  shows "sv_stopping s' \<and> length (sv_requests s') \<le> length (sv_requests s)"
  using assms by cases (auto simp: admit_def treat_def length_remove1 split: prod.splits)

lemma stopped_step:
  assumes "server_step s s'" and "drained s" and "sv_stopped s"
  shows "sv_api s' = sv_api s \<and> sv_stopped s'"
  using assms by cases (auto simp: admit_def drained_def)

lemma stopping_steps:
  assumes "server_step\<^sup>*\<^sup>* s s'" and "sv_stopping s"
  shows "sv_stopping s' \<and> length (sv_requests s') \<le> length (sv_requests s)"
  using assms(1)
proof (induction rule: rtranclp_induct)
  case (step t u)
  then show ?case using stopping_step [OF step(2)] by linarith
qed (use assms(2) in simp)

lemma stopped_steps:
  assumes "server_step\<^sup>*\<^sup>* s s'" and "drained s" and "sv_stopped s"
  shows "sv_api s' = sv_api s \<and> sv_stopped s' \<and> drained s'"
  using assms(1)
proof (induction rule: rtranclp_induct)
  case (step t u)
  then show ?case using stopped_step [OF step(2)] drained_step [OF step(2)] by simp
qed (use assms in simp)

text \<open>C27: The shutdown of the server is clean: from the moment it begins no request is admitted, those that run can only end, and
  when it has returned none runs any more; whatever still arrives is answered that the server is shutting down, and
  the state behind the API stays as it is for ever.\<close>

theorem shutdown_drains_requests:
  assumes "server_step\<^sup>*\<^sup>* (new_server api) s" and "server_step\<^sup>*\<^sup>* s s'"
  shows "(sv_stopping s \<longrightarrow> sv_stopping s' \<and> length (sv_requests s') \<le> length (sv_requests s)) \<and>
    (sv_stopped s \<longrightarrow> sv_requests s' = [] \<and> sv_api s' = sv_api s \<and>
       sv_answers (admit rq s') = sv_answers s' @ [writeError [] 503 ''SHUTTING_DOWN''])"
proof -
  have "drained s" by (rule drained_steps [OF assms(1)]) (simp add: drained_def new_server_def)
  then show ?thesis
    using stopping_steps [OF assms(2)] stopped_steps [OF assms(2)] by (auto simp: drained_def admit_def)
qed

text \<open>A server that is stopped before its first request.\<close>

definition sample_rq :: arrived_request where
  "sample_rq = \<lparr>ar_verb = ''GET'', ar_segments = [''health'', ''live''],
     ar_request = \<lparr>rq_headers = (\<lambda>_. []), rq_path_value = (\<lambda>_. []), rq_RawQuery = [], rq_body = [], rq_body_broken = False\<rparr>\<rparr>"

definition idle_api :: api_state where
  "idle_api = \<lparr>as_db = empty_db 5, as_metrics = NewMetrics\<rparr>"

theorem shutdown_drains_requests_witness:
  "sv_answers (admit sample_rq ((new_server idle_api)\<lparr>sv_stopping := True, sv_stopped := True\<rparr>)) =
     [writeError [] 503 ''SHUTTING_DOWN'']"
proof -
  have "server_step (new_server idle_api) ((new_server idle_api)\<lparr>sv_stopping := True\<rparr>)" by (rule stop_begins)
  moreover have "server_step ((new_server idle_api)\<lparr>sv_stopping := True\<rparr>)
      ((new_server idle_api)\<lparr>sv_stopping := True, sv_stopped := True\<rparr>)"
    using stop_returns [of "(new_server idle_api)\<lparr>sv_stopping := True\<rparr>"] by (simp add: new_server_def)
  ultimately have run: "server_step\<^sup>*\<^sup>* (new_server idle_api) ((new_server idle_api)\<lparr>sv_stopping := True, sv_stopped := True\<rparr>)"
    by (meson rtranclp.rtrancl_into_rtrancl rtranclp.rtrancl_refl)
  show ?thesis
    using shutdown_drains_requests [OF run rtranclp.rtrancl_refl, of sample_rq] by (simp add: new_server_def)
qed

end
