(* ===== verification/PayloadText.thy ===== *)
theory PayloadText
  imports WagerMessage
begin

text \<open>
  What the hash of \<open>internal/application/wager_payload.go\<close> identifies: the document that is hashed is JSON, and reading it
  gives back the financial content of the request.
\<close>

definition payload_value :: "uuid_text \<Rightarrow> ProcessWagerInput \<Rightarrow> json" where
  "payload_value ut i =
     JObject
       ([(''externalTransactionId'', text_value (in_ExternalTransactionID i)),
         (''gameId'', text_value (in_GameID i)),
         (''kind'', text_value (WagerKind_text (in_Kind i))),
         (''money'', JObject [(''amount'', text_value (Money_String (in_Money i))),
                              (''currency'', text_value (currency (in_Money i)))]),
         (''playerId'', text_value (ut_String ut (in_PlayerID i))),
         (''providerId'', text_value (in_ProviderID i))] @
        (case in_ReferenceExternalTransactionID i of
           None \<Rightarrow> []
         | Some r \<Rightarrow> [(''referenceExternalTransactionId'', text_value r)]) @
        [(''roundId'', text_value (in_RoundID i)),
         (''walletId'', text_value (ut_String ut (in_WalletID i)))])"

text \<open>The requests whose content JSON can carry: text in UTF-8, a kind of the domain, an amount that is not negative.\<close>

definition payload_texts :: "ProcessWagerInput \<Rightarrow> string list" where
  "payload_texts i =
     [in_ExternalTransactionID i, in_GameID i, WagerKind_text (in_Kind i), in_ProviderID i, in_RoundID i] @
     (case in_ReferenceExternalTransactionID i of None \<Rightarrow> [] | Some r \<Rightarrow> [r])"

definition hashable :: "ProcessWagerInput \<Rightarrow> bool" where
  "hashable i \<longleftrightarrow>
     list_all utf8_ValidString (payload_texts i) \<and> WagerKind_of (WagerKind_text (in_Kind i)) = in_Kind i \<and>
     validCurrency (currency (in_Money i)) \<and> 0 \<le> cents_of (in_Money i)"

text \<open>What a request is about: all but the key of the repetition and the tracing.\<close>

definition financial_content :: "ProcessWagerInput \<Rightarrow> ProcessWagerInput" where
  "financial_content i = i\<lparr>in_IdempotencyKey := [], in_CorrelationID := [], in_CausationID := []\<rparr>"

lemma payload_names:
  "plain ''externalTransactionId''" "plain ''gameId''" "plain ''kind''" "plain ''money''" "plain ''amount''" "plain ''currency''"
  "plain ''playerId''" "plain ''providerId''" "plain ''referenceExternalTransactionId''" "plain ''roundId''" "plain ''walletId''"
  by (rule message_names)+

lemma json_text_value [simp]: "json_text d (text_value s) = json_string s"
  by (simp add: text_value_def json_string_def)

lemma payload_document_text:
  "payload_document (ut_String ut) i = json_text 2 (payload_value ut i)" "text_json 2 (payload_value ut i)"
proof -
  have two: "2 = Suc (Suc 0)" by simp
  show "payload_document (ut_String ut) i = json_text 2 (payload_value ut i)"
    unfolding two by (simp add: payload_document_def payload_value_def split: option.split)
  show "text_json 2 (payload_value ut i)"
    unfolding two by (simp add: payload_value_def payload_names plain_letter split: option.split)
qed

lemma payload_document_value:
  assumes "payload_document (ut_String ut) i = payload_document (ut_String ut) j"
  shows "payload_value ut i = payload_value ut j"
proof -
  have "decode_value (json_text 2 (payload_value ut k) @ []) = Some (payload_value ut k, [])" for k
    by (rule decode_text [OF payload_document_text(2)]) (simp add: max_nesting_def)
  moreover have "json_text 2 (payload_value ut i) = json_text 2 (payload_value ut j)"
    using assms unfolding payload_document_text(1) .
  ultimately show ?thesis by (metis option.inject prod.inject)
qed

lemma text_value_inject:
  assumes "text_value s = text_value t" and "utf8_ValidString s" and "utf8_ValidString t"
  shows "s = t"
proof -
  have "json_string_body s = json_string_body t" using assms(1) by (simp add: text_value_def)
  from arg_cong [OF this, of unquote] show ?thesis by (simp only: unquote_body assms(2,3))
qed

lemma money_text_inject:
  assumes "text_value (Money_String m) = text_value (Money_String n)" and "text_value (currency m) = text_value (currency n)"
    and "validCurrency (currency m)" "0 \<le> cents_of m" and "validCurrency (currency n)" "0 \<le> cents_of n"
  shows "m = n"
proof -
  have digits: "utf8_ValidString w" if "list_all is_digit w" for w
    using that by (intro utf8_ascii) (auto simp: list_all_iff is_digit_def byte_in_def)
  have "utf8_ValidString (Money_String k)" if "0 \<le> cents_of k" for k
  proof -
    note nonneg = that
    obtain w f where "Money_String k = w @ CHR ''.'' # f" "list_all is_digit w" "list_all is_digit f"
      by (rule Money_String_nonneg [OF nonneg])
    moreover have "utf8_ValidString ''.''" by code_simp
    ultimately show ?thesis using utf8_append [OF digits utf8_append [OF _ digits], of w "''.''" f] by simp
  qed
  moreover have "utf8_ValidString c" if "validCurrency c" for c
    using that by (intro utf8_ascii) (auto simp: validCurrency_def byte_def)
  ultimately have "Money_String m = Money_String n" "currency m = currency n"
    using assms text_value_inject by blast+
  then show ?thesis using NewMoney_String assms(3-6) by (metis sum.inject(2))
qed

lemma payload_document_content:
  assumes "uuid_documented ut" and "hashable i" and "hashable j"
  shows "payload_document (ut_String ut) i = payload_document (ut_String ut) j \<longleftrightarrow> financial_content i = financial_content j"
proof
  assume "financial_content i = financial_content j"
  then show "payload_document (ut_String ut) i = payload_document (ut_String ut) j"
    by (cases i; cases j) (simp add: financial_content_def payload_document_def)
next
  assume "payload_document (ut_String ut) i = payload_document (ut_String ut) j"
  then have v: "payload_value ut i = payload_value ut j" by (rule payload_document_value)
  have uuid: "u = w" if "text_value (ut_String ut u) = text_value (ut_String ut w)" for u w
  proof -
    have "utf8_ValidString (ut_String ut x)" for x
      using assms(1) utf8_plain uuid_char_plain by (auto simp: uuid_documented_def)
    then have "ut_String ut u = ut_String ut w" using text_value_inject [OF that] by simp
    then show ?thesis using assms(1) by (metis uuid_documented_def option.inject)
  qed
  have "in_Money i = in_Money j"
    using v assms(2,3) by (intro money_text_inject) (auto simp: payload_value_def hashable_def)
  moreover have "in_PlayerID i = in_PlayerID j" "in_WalletID i = in_WalletID j"
    using v uuid by (auto simp: payload_value_def split: option.splits)
  moreover have "in_ExternalTransactionID i = in_ExternalTransactionID j" "in_GameID i = in_GameID j"
    "WagerKind_text (in_Kind i) = WagerKind_text (in_Kind j)" "in_ProviderID i = in_ProviderID j"
    "in_RoundID i = in_RoundID j" "in_ReferenceExternalTransactionID i = in_ReferenceExternalTransactionID j"
    using v assms(2,3) text_value_inject
    by (auto simp: payload_value_def hashable_def payload_texts_def split: option.splits
        simp del: utf8_ValidString.simps)
  moreover from this(3) have "in_Kind i = in_Kind j" using assms(2,3) by (metis hashable_def)
  ultimately show "financial_content i = financial_content j"
    by (cases i; cases j) (simp add: financial_content_def)
qed

text \<open>C14: The hash of a request identifies its financial content: two requests get the same hash exactly when they agree in every
  field but the idempotency key and the tracing data, unless their documents are different texts with one SHA-256
  digest. No choice of identifiers, amounts or texts, with whatever quotes and escapes in them, makes the document
  of one content read as the other.\<close>

theorem payload_hash_identifies_content:
  assumes "uuid_documented ut" and "hashable i" and "hashable j"
  shows "payloadHash (ut_String ut) i = payloadHash (ut_String ut) j \<longleftrightarrow>
    financial_content i = financial_content j \<or>
    payload_document (ut_String ut) i \<noteq> payload_document (ut_String ut) j \<and>
    sha256_hex (payload_document (ut_String ut) i) = sha256_hex (payload_document (ut_String ut) j)"
proof -
  have validated: "Money_Validate (in_Money k) = None" if "hashable k" for k
    using that by (simp add: Money_Validate_def hashable_def)
  show ?thesis
    using payload_document_content [OF assms]
    by (auto simp: payloadHash_def validated [OF assms(2)] validated [OF assms(3)])
qed

text \<open>Two bets of thirty cents, the second under another key and with a quote in the name of its round.\<close>

definition other_input :: ProcessWagerInput where
  "other_input = sample_input\<lparr>in_IdempotencyKey := ''k2'', in_RoundID := [quote_char]\<rparr>"

theorem payload_hash_identifies_content_witness:
  "payloadHash (ut_String sample_uuid_text) sample_input = payloadHash (ut_String sample_uuid_text) (sample_input\<lparr>in_IdempotencyKey := ''k2''\<rparr>) \<and>
   (payloadHash (ut_String sample_uuid_text) sample_input = payloadHash (ut_String sample_uuid_text) other_input) =
     (payload_document (ut_String sample_uuid_text) sample_input \<noteq> payload_document (ut_String sample_uuid_text) other_input \<and>
      sha256_hex (payload_document (ut_String sample_uuid_text) sample_input) =
      sha256_hex (payload_document (ut_String sample_uuid_text) other_input))"
proof -
  have "list_all utf8_ValidString (payload_texts sample_input)" "WagerKind_of (WagerKind_text (in_Kind sample_input)) = in_Kind sample_input"
    "validCurrency (currency (in_Money sample_input))"
    by code_simp+
  moreover have "0 \<le> cents_of (in_Money sample_input)" by (simp add: sample_input_def)
  ultimately have h: "hashable sample_input" by (simp add: hashable_def)
  moreover have "utf8_ValidString [quote_char]" by code_simp
  ultimately have "hashable other_input" "hashable (sample_input\<lparr>in_IdempotencyKey := ''k2''\<rparr>)"
    by (auto simp: hashable_def payload_texts_def other_input_def simp del: utf8_ValidString.simps)
  then show ?thesis
    using payload_hash_identifies_content [OF sample_uuid_documented h]
    by (simp add: financial_content_def other_input_def sample_input_def quote_char_def)
qed

end
