(* ===== verification/Workers.thy ===== *)
theory Workers
  imports Startup PublishOutbox
begin

text \<open>
  \<open>internal/infrastructure/workers\<close>: the three loops that call the use cases until their context is cancelled. One turn of a
  worker is a function of what its surroundings do in that turn; a schedule lists these, with the moment of the
  cancellation. What the loops share is a locale.
\<close>

section \<open>Loops\<close>

datatype turn_end = Again | Pause duration | Stopped

text \<open>When the context is cancelled: not in this turn, before it starts, before its check, or after that.\<close>

datatype cancellation = Running | CancelledBefore | CancelledDuring | CancelledAfter

text \<open>The state after the turns of a schedule, and the pauses that the worker made.\<close>

fun worker_loop :: "('e \<Rightarrow> bool \<Rightarrow> 's \<Rightarrow> turn_end \<times> 's) \<Rightarrow> (cancellation \<times> 'e) list \<Rightarrow> 's \<Rightarrow> 's \<times> duration list" where
  "worker_loop turn [] s = (s, [])"
| "worker_loop turn ((c, e) # turns) s =
     (if c = CancelledBefore then (s, [])
      else
        (case turn e (c = CancelledDuring) s of
           (Stopped, s') \<Rightarrow> (s', [])
         | (Again, s') \<Rightarrow> if c = CancelledAfter then (s', []) else worker_loop turn turns s'
         | (Pause d, s') \<Rightarrow>
             if c = CancelledAfter then (s', [d])
             else (case worker_loop turn turns s' of (t, ds) \<Rightarrow> (t, d # ds))))"

text \<open>
  What a turn owes: the tables take steps of the service, a cancellation that it sees ends the worker, nothing else
  does, and its pauses are those of its configuration.
\<close>

locale worker =
  fixes turn :: "'e \<Rightarrow> bool \<Rightarrow> 's \<Rightarrow> turn_end \<times> 's"
    and tables :: "'s \<Rightarrow> db"
    and surroundings :: "'e \<Rightarrow> bool"
    and poll_interval :: duration
  assumes turn_steps: "surroundings e \<Longrightarrow> turn e cancelled s = (w, s') \<Longrightarrow> sys_step\<^sup>*\<^sup>* (tables s) (tables s')"
    and turn_end_cancelled: "fst (turn e True s) = Stopped"
    and turn_end_running: "fst (turn e False s) \<in> {Again, Pause poll_interval}"
begin

lemma loop_steps:
  assumes "worker_loop turn turns s = (s', pauses)" and "\<forall>(c, e) \<in> set turns. surroundings e"
  shows "sys_step\<^sup>*\<^sup>* (tables s) (tables s') \<and> set pauses \<subseteq> {poll_interval}"
  using assms
proof (induction turns arbitrary: s s' pauses)
  case (Cons ce turns)
  obtain c e where ce: "ce = (c, e)" by force
  obtain w t where w: "turn e (c = CancelledDuring) s = (w, t)" by force
  show ?case
  proof (cases "c = CancelledBefore")
    case False
    have first: "sys_step\<^sup>*\<^sup>* (tables s) (tables t)" using turn_steps [OF _ w] Cons.prems(2) by (simp add: ce)
    have "w \<in> {Again, Pause poll_interval, Stopped}"
      using turn_end_cancelled [of e s] turn_end_running [of e s] w by (cases "c = CancelledDuring") auto
    then consider "w = Again" | "w = Pause poll_interval" | "w = Stopped" by blast
    then show ?thesis
    proof cases
      case 2
      obtain u ds where rest: "worker_loop turn turns t = (u, ds)" by force
      then have "sys_step\<^sup>*\<^sup>* (tables t) (tables u) \<and> set ds \<subseteq> {poll_interval}"
        using Cons.IH Cons.prems(2) by simp
      then show ?thesis
        using Cons.prems(1) w False first 2 rest by (auto simp: ce split: if_splits)
    qed (use Cons w False first in \<open>auto simp: ce split: if_splits intro: rtranclp_trans\<close>)
  qed (use Cons.prems ce in simp)
qed simp

text \<open>Whatever comes after a cancellation is not executed.\<close>

lemma loop_stops:
  assumes "c \<noteq> Running"
  shows "worker_loop turn (before @ (c, e) # later) s = worker_loop turn (before @ [(c, e)]) s"
proof (induction before arbitrary: s)
  case Nil
  show ?case
    using assms turn_end_cancelled [of e s] 
    by (cases c; cases "turn e (c = CancelledDuring) s"; cases "fst (turn e (c = CancelledDuring) s)") simp_all
next
  case (Cons ce before)
  then show ?case by (cases ce) (simp split: prod.split turn_end.split)
qed

end


section \<open>The retry worker\<close>

record worker_state =
  ws_db :: db
  ws_metrics :: metrics

record ReferenceConfig =
  rc_PollInterval :: duration
  rc_AttemptTimeout :: duration
  rc_Policy :: ReferenceRetryPolicy

text \<open>The checks of \<open>RegisterReferenceWorker\<close>.\<close>

definition ReferenceConfig_validate :: "ReferenceConfig \<Rightarrow> bool" where
  "ReferenceConfig_validate cfg \<longleftrightarrow>
     ReferenceRetryPolicy_Validate (rc_Policy cfg) = None \<and> 0 <s rc_PollInterval cfg \<and> 0 <s rc_AttemptTimeout cfg"

text \<open>The clock and the identifiers, the fate of the statements, and the time that the turn takes.\<close>

record reference_surroundings =
  rs_env :: env
  rs_run :: tx_run
  rs_latency :: duration

definition reference_turn ::
  "pg_env \<Rightarrow> ReferenceConfig \<Rightarrow> reference_surroundings \<Rightarrow> bool \<Rightarrow> worker_state \<Rightarrow> turn_end \<times> worker_state" where
  "reference_turn pg cfg e cancelled s =
     (case RetryReferences_Execute (rs_env e) (WithinTransaction pg (rs_run e)) (rc_Policy cfg) (ws_db s) of
        (result, d) \<Rightarrow>
          if cancelled then (Stopped, s\<lparr>ws_db := d\<rparr>)
          else
            (case result of
               Inl err \<Rightarrow>
                 (Pause (rc_PollInterval cfg),
                  \<lparr>ws_db = d, ws_metrics = ObserveMessageRetry ''reference_error''
                     (ObserveProcessingError err (rs_latency e) (ws_metrics s))\<rparr>)
             | Inr (Some r) \<Rightarrow>
                 (let m = ObserveWagerResult (WagerStatus_text (rr_Status r)) False (rs_latency e) (ws_metrics s)
                  in (Again,
                      \<lparr>ws_db = d, ws_metrics = (if rr_Status r = WagerStatusPendingReference
                         then ObserveMessageRetry ''reference_pending'' m else m)\<rparr>))
             | Inr None \<Rightarrow> (Pause (rc_PollInterval cfg), s\<lparr>ws_db := d\<rparr>)))"

interpretation reference_worker: worker "reference_turn pg cfg" ws_db "\<lambda>e. True" "rc_PollInterval cfg"
proof
  fix e cancelled s w s'
  assume "reference_turn pg cfg e cancelled s = (w, s')"
  then show "sys_step\<^sup>*\<^sup>* (ws_db s) (ws_db s')"
    by (auto simp: reference_turn_def Let_def split: prod.splits sum.splits option.splits if_splits
        intro!: r_into_rtranclp sys_step.retry_references)
qed (auto simp: reference_turn_def Let_def split: prod.splits sum.splits option.splits)

section \<open>The publishing worker\<close>

record OutboxConfig =
  oc_PollInterval :: duration
  oc_AttemptTimeout :: duration
  oc_Policy :: OutboxPolicy

definition OutboxConfig_validate :: "OutboxConfig \<Rightarrow> bool" where
  "OutboxConfig_validate cfg \<longleftrightarrow>
     OutboxPolicy_Validate (oc_Policy cfg) = None \<and> 0 <s oc_PollInterval cfg \<and> 0 <s oc_AttemptTimeout cfg \<and>
     oc_AttemptTimeout cfg <s op_LeaseDuration (oc_Policy cfg)"

text \<open>A statement works, fails, or is executed while its answer is lost.\<close>

datatype statement_fate = Works | Fails error | AnswerLost error

definition fated :: "statement_fate \<Rightarrow> ('s, 'a) act \<Rightarrow> ('s, 'a) act" where
  "fated fate action s =
     (case fate of
        Works \<Rightarrow> action s
      | Fails e \<Rightarrow> (Inl e, s)
      | AnswerLost e \<Rightarrow> (Inl e, snd (action s)))"

record outbox_surroundings =
  os_uuid_String :: "uuid \<Rightarrow> string"
  os_skipped :: "uuid list"
  os_token :: uuid
  os_claim :: statement_fate
  os_mark :: statement_fate
  os_retry :: statement_fate
  os_publish :: "PendingEvent \<Rightarrow> error option"
  os_ctx_err :: "error option"
  os_meanwhile :: "db \<Rightarrow> db"
  os_since :: duration

definition faulty_publisher :: "outbox_surroundings \<Rightarrow> db publisher_repository" where
  "faulty_publisher e =
     (let repository = pg_publisher (os_uuid_String e) (os_skipped e) (os_token e)
      in \<lparr>pub_Claim = (\<lambda>lease. fated (os_claim e) (pub_Claim repository lease)),
          pub_MarkPublished = (\<lambda>ev. fated (os_mark e) (pub_MarkPublished repository ev)),
          pub_Retry = (\<lambda>ev delay. fated (os_retry e) (pub_Retry repository ev delay))\<rparr>)"

definition outbox_turn ::
  "OutboxConfig \<Rightarrow> outbox_surroundings \<Rightarrow> bool \<Rightarrow> worker_state \<Rightarrow> turn_end \<times> worker_state" where
  "outbox_turn cfg e cancelled s =
     (case PublishOutbox_Execute (faulty_publisher e) (os_publish e) (os_ctx_err e) (os_meanwhile e) (oc_Policy cfg) (ws_db s) of
        ((event, err), d) \<Rightarrow>
          if cancelled then (Stopped, s\<lparr>ws_db := d\<rparr>)
          else
            (case (err, event) of
               (Some _, Some ev) \<Rightarrow>
                 (Pause (oc_PollInterval cfg),
                  \<lparr>ws_db = d, ws_metrics = ObserveOutboxPublish ''retry'' (word_of_int (pv_Attempts ev)) (pv_OccurredAt ev)
                     (os_since e) (ws_metrics s)\<rparr>)
             | (Some _, None) \<Rightarrow>
                 (Pause (oc_PollInterval cfg), \<lparr>ws_db = d, ws_metrics = ObserveOutboxClaimFailure (ws_metrics s)\<rparr>)
             | (None, Some ev) \<Rightarrow>
                 (Again,
                  \<lparr>ws_db = d, ws_metrics = ObserveOutboxPublish ''published'' (word_of_int (pv_Attempts ev)) (pv_OccurredAt ev)
                     (os_since e) (ws_metrics s)\<rparr>)
             | (None, None) \<Rightarrow> (Pause (oc_PollInterval cfg), s\<lparr>ws_db := d\<rparr>)))"

text \<open>While the event is on its way the other instances take steps.\<close>

definition others_take_steps :: "outbox_surroundings \<Rightarrow> bool" where
  "others_take_steps e \<longleftrightarrow> (\<forall>d. sys_step\<^sup>*\<^sup>* d (os_meanwhile e d))"


lemma fated_steps:
  assumes "fated fate action d = (r, d')" and "\<And>r d'. action d = (r, d') \<Longrightarrow> sys_step d d'"
  shows "sys_step\<^sup>*\<^sup>* d d'"
proof (cases fate)
  case Works
  then show ?thesis using assms by (auto simp: fated_def)
next
  case (Fails e)
  then show ?thesis using assms(1) by (simp add: fated_def)
next
  case (AnswerLost e)
  then show ?thesis using assms(1) assms(2) [of "fst (action d)" d'] by (auto simp: fated_def)
qed

lemma faulty_publisher_steps:
  "pub_Claim (faulty_publisher e) lease d = (c, d') \<Longrightarrow> sys_step\<^sup>*\<^sup>* d d'"
  "pub_MarkPublished (faulty_publisher e) ev d = (u, d') \<Longrightarrow> sys_step\<^sup>*\<^sup>* d d'"
  "pub_Retry (faulty_publisher e) ev delay d = (u, d') \<Longrightarrow> sys_step\<^sup>*\<^sup>* d d'"
  by (auto simp: faulty_publisher_def pg_publisher_def Let_def elim!: fated_steps
      intro: sys_step.publish_claim sys_step.publish_mark sys_step.publish_retry)

lemma publish_steps:
  assumes "PublishOutbox_Execute (faulty_publisher e) publish ctx_err meanwhile policy d = (r, d')"
    and "\<And>d. sys_step\<^sup>*\<^sup>* d (meanwhile d)"
  shows "sys_step\<^sup>*\<^sup>* d d'"
proof (cases "OutboxPolicy_Validate policy")
  case None
  obtain c d1 where c: "pub_Claim (faulty_publisher e) (op_LeaseDuration policy) d = (c, d1)" by force
  note first = faulty_publisher_steps(1) [OF c]
  have later: "sys_step\<^sup>*\<^sup>* d d''" if "sys_step\<^sup>*\<^sup>* (meanwhile d1) d''" for d''
    using first assms(2) that by (meson rtranclp_trans)
  show ?thesis
    using assms(1) None c first later
    by (auto simp: PublishOutbox_Execute_def Let_def split: sum.splits option.splits prod.splits
        dest!: faulty_publisher_steps)
qed (use assms in \<open>simp add: PublishOutbox_Execute_def\<close>)

interpretation outbox_worker: worker "outbox_turn cfg" ws_db others_take_steps "oc_PollInterval cfg"
proof
  fix e cancelled s w s'
  assume "others_take_steps e" and "outbox_turn cfg e cancelled s = (w, s')"
  then show "sys_step\<^sup>*\<^sup>* (ws_db s) (ws_db s')"
    by (auto simp: outbox_turn_def others_take_steps_def split: prod.splits option.splits if_splits
        elim!: publish_steps)
qed (auto simp: outbox_turn_def split: prod.splits option.splits)

section \<open>The consumer of the queue\<close>

record wager_surroundings =
  wv_received :: "error + received_message list"
  wv_env :: env
  wv_run :: tx_run
  wv_handle :: handle_env

definition Second :: duration where
  "Second = 1000000000"

definition wager_turn ::
  "uuid_text \<Rightarrow> pg_env \<Rightarrow> ConsumerConfig \<Rightarrow> wager_surroundings \<Rightarrow> bool \<Rightarrow> consumer_state \<Rightarrow> turn_end \<times> consumer_state" where
  "wager_turn ut pg cfg e cancelled s =
     (case (case Receive (wv_received e) of
              (err, None) \<Rightarrow> (err, s)
            | (_, Some message) \<Rightarrow>
                Handle ut (wv_env e) cfg (wv_handle e) (WithinTransaction pg (wv_run e)) message s) of
        (err, s') \<Rightarrow>
          if cancelled then (Stopped, s')
          else (case err of None \<Rightarrow> (Again, s') | Some _ \<Rightarrow> (Pause Second, s')))"

lemma Handle_step:
  assumes "Handle ut env cfg he (WithinTransaction pg run) received s = (r, s')"
  shows "co_db s' = co_db s \<or> sys_step (co_db s) (co_db s')"
  using assms by (cases rule: Handle_parts) (auto dest: treat_message_step)

interpretation wager_worker: worker "wager_turn ut pg cfg" co_db "\<lambda>e. True" Second
proof
  fix e cancelled s w s'
  assume "wager_turn ut pg cfg e cancelled s = (w, s')"
  then show "sys_step\<^sup>*\<^sup>* (co_db s) (co_db s')"
    by (auto simp: wager_turn_def split: prod.splits option.splits if_splits dest!: Handle_step)
qed (auto simp: wager_turn_def split: prod.splits option.splits)

section \<open>The workers\<close>

text \<open>C19: The workers do nothing but run the use cases, and they end: over any schedule of their surroundings, with any failing
  statements, lost answers and deliveries, each of the three loops takes the tables from one state to another by steps
  of the service alone, so that all that holds in every reachable state holds with them; they pause for their
  configured interval and for nothing else; and whatever would come after the cancellation of their context is not
  done.\<close>

theorem workers_take_steps_and_stop:
  assumes "\<forall>(c, e) \<in> set published. others_take_steps e" and "c \<noteq> Running"
    and "worker_loop (reference_turn pg rcfg) retried s = (s', pauses)"
    and "worker_loop (outbox_turn ocfg) published p = (p', opauses)"
    and "worker_loop (wager_turn ut pg ccfg) consumed q = (q', qpauses)"
  shows "sys_step\<^sup>*\<^sup>* (ws_db s) (ws_db s') \<and> set pauses \<subseteq> {rc_PollInterval rcfg} \<and>
    sys_step\<^sup>*\<^sup>* (ws_db p) (ws_db p') \<and> set opauses \<subseteq> {oc_PollInterval ocfg} \<and>
    sys_step\<^sup>*\<^sup>* (co_db q) (co_db q') \<and> set qpauses \<subseteq> {Second} \<and>
    worker_loop (reference_turn pg rcfg) (retried @ (c, e) # later) s =
      worker_loop (reference_turn pg rcfg) (retried @ [(c, e)]) s \<and>
    worker_loop (outbox_turn ocfg) (published @ (c, f) # olater) p =
      worker_loop (outbox_turn ocfg) (published @ [(c, f)]) p \<and>
    worker_loop (wager_turn ut pg ccfg) (consumed @ (c, g) # qlater) q =
      worker_loop (wager_turn ut pg ccfg) (consumed @ [(c, g)]) q"
  using reference_worker.loop_steps [OF assms(3)] outbox_worker.loop_steps [OF assms(4,1)] wager_worker.loop_steps [OF assms(5)]
    reference_worker.loop_stops [OF assms(2)] outbox_worker.loop_stops [OF assms(2)] wager_worker.loop_stops [OF assms(2)]
  by auto


definition sample_retry_config :: ReferenceConfig where
  "sample_retry_config = \<lparr>rc_PollInterval = 7, rc_AttemptTimeout = 5, rc_Policy = sample_policy\<rparr>"

definition sample_outbox_config :: OutboxConfig where
  "sample_outbox_config =
     \<lparr>oc_PollInterval = 7, oc_AttemptTimeout = 5,
      oc_Policy = \<lparr>op_LeaseDuration = 3000, op_InitialDelay = 1000, op_MaxDelay = 4000\<rparr>\<rparr>"

definition sample_worker_state :: worker_state where
  "sample_worker_state = \<lparr>ws_db = opened_db, ws_metrics = NewMetrics\<rparr>"

text \<open>The database refuses a transaction, and the claim of an event.\<close>

definition refused_retry :: reference_surroundings where
  "refused_retry = \<lparr>rs_env = sample_env 40, rs_run = fault_free\<lparr>run_begin := Some NetworkError\<rparr>, rs_latency = 3\<rparr>"

definition refused_claim :: outbox_surroundings where
  "refused_claim =
     \<lparr>os_uuid_String = (\<lambda>_. []), os_skipped = [], os_token = 1, os_claim = Fails ErrOutboxConflict, os_mark = Works,
      os_retry = Works, os_publish = (\<lambda>_. None), os_ctx_err = None, os_meanwhile = (\<lambda>d. d), os_since = 0\<rparr>"

definition delivered_message :: wager_surroundings where
  "delivered_message =
     \<lparr>wv_received = Inr [sample_received (message_text sample_uuid_text sample_message)], wv_env = sample_env 20,
      wv_run = fault_free, wv_handle = sample_handling\<rparr>"

lemma refused_turns:
  "\<exists>s'. worker_loop (reference_turn sample_pg sample_retry_config) [(Running, refused_retry)] sample_worker_state = (s', [7])"
  "\<exists>s'. worker_loop (outbox_turn sample_outbox_config) [(Running, refused_claim)] sample_worker_state = (s', [7])"
proof -
  have "ReferenceRetryPolicy_Validate sample_policy = None" by code_simp
  then show "\<exists>s'. worker_loop (reference_turn sample_pg sample_retry_config) [(Running, refused_retry)] sample_worker_state = (s', [7])"
    by (simp add: reference_turn_def sample_retry_config_def refused_retry_def RetryReferences_Execute_def WithinTransaction_def)
  have "OutboxPolicy_Validate (oc_Policy sample_outbox_config) = None" by code_simp
  then show "\<exists>s'. worker_loop (outbox_turn sample_outbox_config) [(Running, refused_claim)] sample_worker_state = (s', [7])"
    by (simp add: outbox_turn_def PublishOutbox_Execute_def faulty_publisher_def refused_claim_def fated_def Let_def)
      (simp add: sample_outbox_config_def)
qed

lemma delivered_turn:
  "\<exists>q'. worker_loop (wager_turn sample_uuid_text sample_pg sample_config) [(Running, delivered_message)] sample_consumer = (q', [])"
proof -
  obtain result d' where
    "treat_message sample_uuid_text (sample_env 20) sample_config None (WithinTransaction sample_pg fault_free)
       (sample_received (message_text sample_uuid_text sample_message)) opened_db = (Inr result, d')"
    by (rule sample_treated)
  then show ?thesis
    by (simp add: wager_turn_def Receive_def delivered_message_def Handle_def sample_consumer_def sample_handling_def)
qed

theorem workers_take_steps_and_stop_witness:
  "\<exists>q'. worker_loop (wager_turn sample_uuid_text sample_pg sample_config)
       [(Running, delivered_message), (CancelledAfter, delivered_message), (Running, delivered_message)] sample_consumer =
     worker_loop (wager_turn sample_uuid_text sample_pg sample_config)
       [(Running, delivered_message), (CancelledAfter, delivered_message)] sample_consumer \<and>
     worker_loop (wager_turn sample_uuid_text sample_pg sample_config) [(Running, delivered_message)] sample_consumer = (q', []) \<and>
     sys_step\<^sup>*\<^sup>* opened_db (co_db q')"
proof -
  obtain s' where retried: "worker_loop (reference_turn sample_pg sample_retry_config) [(Running, refused_retry)] sample_worker_state = (s', [7])"
    using refused_turns(1) by blast
  obtain p' where published: "worker_loop (outbox_turn sample_outbox_config) [(Running, refused_claim)] sample_worker_state = (p', [7])"
    using refused_turns(2) by blast
  obtain q' where consumed: "worker_loop (wager_turn sample_uuid_text sample_pg sample_config) [(Running, delivered_message)] sample_consumer = (q', [])"
    using delivered_turn by blast
  have "\<forall>(c, e) \<in> set [(Running, refused_claim)]. others_take_steps e" by (simp add: others_take_steps_def refused_claim_def)
  from workers_take_steps_and_stop [OF this _ retried published consumed, of CancelledAfter _ "[]" _ "[]" delivered_message "[(Running, delivered_message)]"]
  show ?thesis using consumed by (simp add: sample_consumer_def)
qed

end
