(* ===== verification/Spec2Isabelle.thy ===== *)
theory Spec2Isabelle
  imports ApiAnswers Server PayloadText Workers
begin

text \<open>
  A verification of the wallet service: the Go module of this repository that keeps the wallets of players,
  applies the operations of game providers (bets, wins, losses, refunds, rollbacks) to them, and publishes
  what happened.

  \<^bold>\<open>The program.\<close> \<open>internal/domain\<close> holds the values and the rules: money in cents of 64 bits, the
  wallet with its version, the ledger entry, the operation with its state machine, the events.
  \<open>internal/application\<close> holds the use cases, which reach the database through the interfaces of
  \<open>internal/application/ports\<close>; \<open>internal/infrastructure/postgres\<close> implements these with SQL statements inside
  one transaction per use case (\<open>UnitOfWork\<close>). An operation is processed once: a repetition with the same key
  and content gets the stored answer. An operation that arrives before the operation it refers to waits and is
  resumed by a worker; events are stored with the change they report and published later under a lease. Requests
  come through the HTTP API (\<open>internal/infrastructure/httpapi\<close>, guarded by \<open>internal/infrastructure/auth\<close>) and through a
  queue (\<open>internal/infrastructure/messaging\<close>); \<open>internal/infrastructure/workers\<close> calls the consumer, the retries and the
  publisher in loops; \<open>internal/observability\<close> counts what happens.

  \<^bold>\<open>The theories.\<close>
  \<^item> Go. \<open>Prelude\<close>: words, errors, state-and-error computations and their simulation. \<open>GoText\<close>: UTF-8, \<open>strconv\<close>,
    \<open>strings.TrimSpace\<close>, the writing of JSON strings. \<open>GoJson\<close>: the scanner and the decoder of \<open>encoding/json\<close>, and that they
    read back what was written. \<open>GoTime\<close>: the text of an instant. \<open>Base64\<close>, \<open>Sha256\<close>: the codings. \<open>Errors\<close>: \<open>errors.Is\<close> and the
    classes of errors that the edges distinguish. \<open>GoHttp\<close>: headers, media types, query strings and bodies of
    requests. \<open>PathMatch\<close>: \<open>path.Match\<close> and the meaning of its patterns.
  \<^item> Domain. \<open>Money\<close>, \<open>Wallet\<close>, \<open>LedgerEntry\<close>, \<open>WagerTransaction\<close>, \<open>Events\<close>: the files of \<open>internal/domain\<close>. A struct is a
    record, a method that mutates its receiver returns the new record or an error, \<open>time.Now()\<close> and \<open>uuid.New()\<close> are
    arguments.
  \<^item> Storage. \<open>Ports\<close>: the interfaces as records of operations, with a locale for what an implementation of each owes.
    \<open>Postgres\<close>: the tables, each statement as a function on them, the connection that may fail at any
    statement (the interpretation of the locales), and \<open>UnitOfWork\<close> with failing and lost commits.
  \<^item> Use cases. \<open>WagerPayload\<close>, \<open>PayloadText\<close>, \<open>ProcessWager\<close>, \<open>OpenWallet\<close>, \<open>RetryReferences\<close>, \<open>PublishOutbox\<close>, \<open>Queries\<close>
    (the statements of \<open>wallet_queries.go\<close> and the reconciliation), \<open>ListLedger\<close> (the pages and their cursors), \<open>Backoff\<close>
    (the delays): the files of \<open>internal/application\<close>.
  \<^item> The service. \<open>FinancialState\<close>: the check of \<open>migrations/000002_transactional_storage.up.sql\<close> and the invariant that implies
    it. \<open>Settlement\<close>: the possible outcomes of \<open>processWager\<close> as a relation, the proof that the code takes one of
    them. \<open>UseCases\<close>, \<open>History\<close>, \<open>System\<close>: what a whole use case does, what no step undoes, and the
    service as a transition system. \<open>Progress\<close>: the converse of the refinement, and the absence of internal
    errors on well-formed requests. \<open>Replay\<close>: repetitions of a request. \<open>Retries\<close>: how a turn of the retry worker
    ends. \<open>Delivery\<close>: what every step keeps of the inbox and the outbox, and the leases. \<open>Scenario\<close>: a concrete run for the
    instances.
  \<^item> The edges. \<open>WagerMessage\<close>, \<open>Consumer\<close>: the messages of the queue and their treatment. \<open>IamPolicy\<close>, \<open>Startup\<close>: the policies of
    the queues, what the service demands of them before it runs, its readiness. \<open>Auth\<close>, \<open>HttpApi\<close>, \<open>ApiAnswers\<close>, \<open>Server\<close>:
    the guards, the handlers and their answers, the shutdown. \<open>Metrics\<close>: the counters. \<open>Workers\<close>: one turn of each worker,
    and the loops, whose common contract is a locale interpreted for the three.

  \<^bold>\<open>What is shown.\<close> The domain theories characterise each operation on every branch, by equivalences. The rows, the
  messages, the cursors and the hashed documents give back what was written. \<open>processWager\<close> refines its outcome relation;
  every use case, under every fault, keeps the financial invariant and only extends the history; the theorems of
  this file state these for every reachable state. The edges are shown to take steps of that system and no others: a
  request or a message is one step or none, a message is deleted only after its commit, a client error has
  changed nothing, the loops of the workers are sequences of steps that end with their context, a server that has
  shut down runs nothing.

  \<^bold>\<open>Bounds.\<close> Loops are structural recursions or carry a measure; there is no fuel: a worker, whose loop may run for ever, is
  followed over any finite schedule of its turns. Amounts and durations are 64-bit
  words with the wrap-around of Go; attempts that Go holds in \<open>int\<close> are integers where the code bounds them.

  \<^bold>\<open>Parameters and idealisations.\<close> \<open>google/uuid\<close> (its text, of which only \<open>uuid_documented\<close> is assumed: parsing the text of an
  identifier gives it back, and the text has 36 hexadecimal digits and hyphens; and \<open>NewSHA1\<close>), the cast of a text to
  \<open>timestamptz\<close>, the answers of the queues, of the broker's client and of the identity provider, the request as \<open>net/http\<close>
  hands it over, the clock, the latencies, the cancellation of a context and the rows that other transactions hold
  locked are arguments. A use case is one step of the system: every transaction on a wallet first locks its row, so
  transactions on one wallet exclude each other, and a request is treated in one step of the server.
  The constraints and triggers of the database other than the unique ones are not modelled: they can only turn
  a run into a failure that rolls back, which the injected faults cover.

  \<^bold>\<open>Not modelled.\<close> The construction of the clients of AWS, PostgreSQL and the identity provider, the listener and its time
  limits, logging, the text of \<open>/metrics\<close> (the counters are; the text prints quotients of floating-point numbers) and dependency
  injection are input and output around the components above. The settings are taken as read and checked: their
  checks rest on \<open>url.Parse\<close>, whose rules for hosts differ between the releases of Go, and on \<open>time.ParseDuration\<close>, which
  computes fractions in floating point; for the same reason the discovery document of the identity provider, whose
  endpoint is compared as a URL, is not read. Getters are the selectors of the records.
\<close>

section \<open>What holds in every reachable state\<close>

text \<open>C1: In every state the service can reach, whatever the requests, the faults of the database and the lost
  commits, every wallet passes the check of the second migration: its balance is the sum of its ledger, its
  version counts its movements, every processed operation that moves money has its ledger line; and no balance
  is negative.\<close>

theorem wallets_always_consistent:
  assumes "reachable d" and "r \<in> set (db_wallets d)"
  shows "check_wallet_financial_state d r \<and> 0 \<le> sint (wr_balance_cents r)"
proof
  have c: "consistent d" by (rule reachable_consistent [OF assms(1)])
  show "check_wallet_financial_state d r" by (rule consistent_check [OF c assms(2)])
  have "wallet_state_ok d r" using c assms(2) unfolding consistent_def by blast
  then show "0 \<le> sint (wr_balance_cents r)" using ledger_chain_nonneg unfolding wallet_state_ok_def by blast
qed

theorem wallets_always_consistent_witness:
  "check_wallet_financial_state opened_db opened_row \<and> 0 \<le> sint (wr_balance_cents opened_row) \<and>
   wr_balance_cents opened_row = 100"
  using wallets_always_consistent [OF reachable_opened, of opened_row]
  by (simp add: opened_wallets) (simp add: opened_row_def)

text \<open>C10: The history is never rewritten: along any steps from a reachable state the ledger and the stored events
  only grow at their end, every operation keeps its identity, moves only forward in the diagram of its states and stays
  as it is once it is processed or rejected, and every wallet keeps its owner and its currency.\<close>

theorem history_never_rewritten:
  assumes "reachable d" and "sys_step\<^sup>*\<^sup>* d d'"
  shows "history_kept d d' \<and>
    (\<forall>g \<in> set (db_wagers d). \<exists>h \<in> set (db_wagers d'). same_identity g h \<and> wg_status g \<le> wg_status h)"
proof -
  have k: "history_kept d d'" "sound d'" using steps_history [OF assms(2) reachable_sound [OF assms(1)]] by simp_all
  have "settled d" "settled d'" using reachable_sound [OF assms(1)] k(2) by (simp_all add: sound_def)
  then show ?thesis using k(1) settled_forward unfolding history_kept_def settled_def by meson
qed

theorem history_never_rewritten_witness:
  "history_kept (empty_db 5) opened_db"
proof -
  have "sys_step (empty_db 5) opened_db" by (rule sys_step.open_wallet [OF opened_run])
  then have "sys_step\<^sup>*\<^sup>* (empty_db 5) opened_db" by blast
  then show ?thesis using history_never_rewritten [OF reachable.initial] by blast
qed

text \<open>C13: Between transactions no operation is half way: every stored operation is processed, rejected, or waiting
  for its reference.\<close>

theorem operations_always_settled:
  assumes "reachable d" and "g \<in> set (db_wagers d)"
  shows "wg_status g \<in> {WagerStatusPendingReference, WagerStatusProcessed, WagerStatusRejected}"
  using reachable_sound [OF assms(1)] assms(2) by (simp add: sound_def settled_def settled_status_def)

theorem operations_always_settled_witness:
  "wg_status (hd (db_wagers opened_db)) \<in> {WagerStatusPendingReference, WagerStatusProcessed, WagerStatusRejected}"
  using operations_always_settled [OF reachable_opened] opened_wagers
  by (cases "db_wagers opened_db") simp_all

text \<open>C11: No operation is ever reversed twice: the references of the processed refunds and rollbacks are all
  different.\<close>

theorem no_double_reversal:
  assumes "reachable d"
  shows "distinct (map wg_reference_transaction_id
           (filter (\<lambda>g. successful_reversal g \<and> wg_reference_transaction_id g \<noteq> None) (db_wagers d)))"
proof -
  have c: "consistent d" by (rule reachable_consistent [OF assms])
  have u: "distinct (filter P (db_wagers d))" for P
    using distinct_wager_ids [OF c] by (simp add: distinct_map)
  show ?thesis
    using c u wager_row_unique [OF c]
    by (auto simp: distinct_map inj_on_def consistent_def reversals_unique_def)
qed

theorem no_double_reversal_witness:
  "distinct (map wg_reference_transaction_id
     (filter (\<lambda>g. successful_reversal g \<and> wg_reference_transaction_id g \<noteq> None) (db_wagers opened_db)))"
  by (rule no_double_reversal [OF reachable_opened])

text \<open>C12: Every identity is stored once: no two operations of a provider share an idempotency key or an external
  identity, no two wallets share an identifier or an owner and a currency.\<close>

theorem identities_unique:
  assumes "reachable d"
  shows "distinct (map wg_id (db_wagers d)) \<and>
    distinct (map (\<lambda>g. (wg_provider_id g, wg_idempotency_key g))
      (filter (\<lambda>g. wg_provider_id g \<noteq> None \<and> wg_idempotency_key g \<noteq> None) (db_wagers d))) \<and>
    distinct (map (\<lambda>g. (wg_provider_id g, wg_external_transaction_id g))
      (filter (\<lambda>g. wg_provider_id g \<noteq> None \<and> wg_external_transaction_id g \<noteq> None) (db_wagers d))) \<and>
    distinct (map wr_id (db_wallets d)) \<and> distinct (map (\<lambda>r. (wr_player_id r, wr_currency r)) (db_wallets d))"
proof -
  have c: "consistent d" by (rule reachable_consistent [OF assms])
  have u: "distinct (filter P (db_wagers d))" for P
    using distinct_wager_ids [OF c] by (simp add: distinct_map)
  have one: "g = h" if "g \<in> set (db_wagers d)" "h \<in> set (db_wagers d)" "wager_conflict g h" for g h
    using no_conflict_unique [of wager_conflict "db_wagers d", OF _ wager_conflict_sym] that c
    unfolding consistent_def by blast
  have "distinct (map (\<lambda>g. (wg_provider_id g, k g)) (filter (\<lambda>g. wg_provider_id g \<noteq> None \<and> k g \<noteq> None) (db_wagers d)))"
    if "\<And>g h. wg_provider_id g = wg_provider_id h \<Longrightarrow> k g = k h \<Longrightarrow> wg_provider_id g \<noteq> None \<Longrightarrow> k g \<noteq> None \<Longrightarrow>
        wager_conflict g h" for k :: "wager_row \<Rightarrow> string option"
    unfolding distinct_map using u one that by (auto intro!: inj_onI)
  moreover have "distinct (map (\<lambda>r. (wr_player_id r, wr_currency r)) (db_wallets d))"
    using c by (intro no_conflict_imp_distinct [where conflict = wallet_conflict])
      (simp_all add: consistent_def wallet_conflict_def)
  ultimately show ?thesis
    using distinct_wager_ids [OF c] distinct_wallet_ids [OF c]
    by (simp add: wager_conflict_def same_key_def)
qed

theorem identities_unique_witness:
  "distinct (map wg_id (db_wagers opened_db)) \<and> length (db_wagers opened_db) = 1"
  using identities_unique [OF reachable_opened] arg_cong [OF opened_wagers, of length] by simp

section \<open>Faults\<close>

text \<open>C2: A request is all or nothing whatever fails: for every schedule of failing statements, failed commits
  and lost answers, the processing of an operation, the opening of a wallet and a turn of the retry worker do
  exactly what they do on the tables alone, or report an infrastructure failure and leave the tables of before
  or, when only the answer to the commit was lost, those of the complete run.\<close>

theorem requests_atomic_under_faults:
  "agrees_up_to_faults (execute_wager env ctx_err (WithinTransaction pg run) p input message d)
     (execute_wager env ctx_err (reference_unit pg) p input message d) d \<and>
   agrees_up_to_faults (RetryReferences_Execute env (WithinTransaction pg run) policy d)
     (RetryReferences_Execute env (reference_unit pg) policy d) d \<and>
   agrees_up_to_faults (WithinTransaction pg run (open_work env w c) d) (reference_unit pg (open_work env w c) d) d"
proof -
  note wager_unit_agrees
  moreover have "agrees_up_to_faults (WithinTransaction pg run (retry_work env policy) d)
      (reference_unit pg (retry_work env policy) d) d"
    by (intro WithinTransaction_agrees ports.retry_work_sim pg_ports.ports_axioms)
  moreover have "agrees_up_to_faults (WithinTransaction pg run (open_work env w c) d)
      (reference_unit pg (open_work env w c) d) d"
    by (intro WithinTransaction_agrees ports.open_work_sim pg_ports.ports_axioms)
  ultimately show ?thesis
    by (simp add: execute_wager_def RetryReferences_Execute_def split: option.split sum.split)
qed

section \<open>What a request does\<close>

text \<open>C3: \<open>processWager\<close> computes its specification and nothing else: on an operation that may change, it
  succeeds with a result and tables exactly when the outcome relation (waiting, rejected for one of the reasons
  of the code, lost, or moved with its ledger line and its two events) allows them.\<close>

theorem processWager_exact:
  "canChange t = None \<and> processWager env (pg_repositories pg) w t input d = (Inr t', d') \<longleftrightarrow>
   canChange t = None \<and> outcome pg env input w t d t' d'"
  using processWager_refines_outcome outcome_runs by blast




text \<open>C15: A bet is decided by the balance alone: on a well-formed wallet in its currency it is processed exactly
  when the balance covers it, and leaves the balance less its amount; otherwise it is rejected with
  \<open>INSUFFICIENT_BALANCE\<close>. It never waits and never overflows.\<close>

theorem bet_decided_by_balance:
  assumes "processWager env (pg_repositories pg) w t input d = (Inr t', d')" and "t_kind t = WagerKindBet"
    and "wallet_wf w" and "w_version w \<noteq> MaxInt64" and "currency (w_balance w) = currency (t_money t)"
    and "0 < cents_of (t_money t)"
  shows "if cents_of (t_money t) \<le> cents_of (w_balance w)
    then t_status t' = WagerStatusProcessed \<and>
      (\<exists>b. t_resultBalance t' = Some b \<and> cents_of b = cents_of (w_balance w) - cents_of (t_money t))
    else t_status t' = WagerStatusRejected \<and> t_failureCode t' = Some FailureInsufficientBalance"
  by (rule bet_outcome [OF processWager_refines_outcome [OF assms(1)] assms(2-6)])

theorem bet_decided_by_balance_witness:
  "\<exists>t' d' b. processWager (sample_env 20) (pg_repositories sample_pg) opened_wallet sample_wager sample_input inserted_db =
      (Inr t', d') \<and> t_status t' = WagerStatusProcessed \<and> t_resultBalance t' = Some b \<and> cents_of b = 70"
proof -
  obtain t' d' where run: "processWager (sample_env 20) (pg_repositories sample_pg) opened_wallet sample_wager sample_input
      inserted_db = (Inr t', d')"
    by (rule sample_run)
  have "wallet_wf opened_wallet" "w_version opened_wallet \<noteq> MaxInt64"
    by (simp_all add: wallet_wf_def opened_wallet_def uuid_Nil_def validCurrency_def MaxInt64_def)
  from bet_decided_by_balance [OF run _ this] run show ?thesis by (auto simp: sample_facts)
qed


section \<open>Idempotency\<close>

text \<open>C6: A request gets one answer for ever. Let a run of \<open>ProcessWager\<close>, from the API or from the queue, have
  committed a new operation that is processed or rejected, even when the answer of the commit was lost. After any
  steps of the service a request of the same provider with the same key, whatever faults it meets, gets exactly
  the stored result, marked as a replay, when its content has the same hash, and a conflict otherwise, and
  changes nothing; the only other answer is an infrastructure failure, which changes nothing either.\<close>

theorem repeated_request_same_answer:
  assumes "reachable d" and "prepare_wager env p i = Inr (i', t)" and "1000 \<le> t_createdAt t"
    and "execute_wager env None (reference_unit pg) p i message d = (Inr result, d')"
    and "execute_wager env None (WithinTransaction pg run) p i message d = (q, d')"
    and "\<not> wres_IdempotentReplay result" and "wres_Status result \<noteq> WagerStatusPendingReference"
    and "sys_step\<^sup>*\<^sup>* d' d''"
    and "prepare_wager env2 p i2 = Inr (i2', t2)" and "in_IdempotencyKey i2 = in_IdempotencyKey i"
  shows "agrees_up_to_faults (ProcessWager_Execute env2 None (WithinTransaction pg2 run2) p i2 d'')
    (if t_payloadHash t2 = t_payloadHash t then Inr (result\<lparr>wres_IdempotentReplay := True\<rparr>)
     else Inl ErrIdempotencyConflict, d'') d''"
proof -
  have work: "wager_work env i' t message (pg_repositories pg) d = (Inr result, d')"
    using assms(4) by (simp add: execute_wager_def assms(2) reference_unit_ok_iff)
  have "sound d'"
    using execute_wager_sound [OF assms(5)] reachable_sound [OF assms(1)] by (simp add: sound_step_def)
  note replay = repeated_replay [OF assms(1-3) work assms(6-8) this assms(9,10)]
  have "reference_unit pg2 (wager_work env2 i2' t2 None) d'' =
    (if t_payloadHash t2 = t_payloadHash t then Inr (result\<lparr>wres_IdempotentReplay := True\<rparr>)
     else Inl ErrIdempotencyConflict, d'')"
    using replayed_run [OF replay] by (auto split: if_splits)
  then show ?thesis
    using wager_unit_agrees [of pg2 run2 env2 i2' t2 None d'']
    by (simp add: ProcessWager_Execute_def execute_wager_def assms(9))
qed

theorem repeated_request_same_answer_witness:
  "\<exists>result d'. execute_wager (sample_env 20) None (WithinTransaction sample_pg fault_free) ''p'' sample_input None opened_db =
       (Inr result, d') \<and>
     agrees_up_to_faults
       (ProcessWager_Execute (sample_env 20) None (WithinTransaction sample_pg fault_free) ''p'' sample_input d')
       (Inr (result\<lparr>wres_IdempotentReplay := True\<rparr>), d') d'"
proof -
  obtain t' d' where op1: "process_operation (sample_env 20) sample_input sample_wager (pg_repositories sample_pg) opened_db =
       (Inr (wagerResult t' False), d')"
    and run: "processWager (sample_env 20) (pg_repositories sample_pg) opened_wallet sample_wager sample_input inserted_db =
       (Inr t', d')"
    by (rule sample_run)
  have processed: "t_status t' = WagerStatusProcessed" by (rule sample_bet_processed [OF run])
  have work: "wager_work (sample_env 20) sample_input sample_wager None (pg_repositories sample_pg) opened_db =
      (Inr (wagerResult t' False), d')"
    using op1 by (simp add: wager_work_def)
  have ex: "execute_wager (sample_env 20) None (reference_unit sample_pg) ''p'' sample_input None opened_db =
      (Inr (wagerResult t' False), d')"
    "execute_wager (sample_env 20) None (WithinTransaction sample_pg fault_free) ''p'' sample_input None opened_db =
      (Inr (wagerResult t' False), d')"
    using work quiet_wager_work [OF work] by (simp_all add: execute_wager_def sample_prepared reference_unit_ok_iff)
  have "agrees_up_to_faults
      (ProcessWager_Execute (sample_env 20) None (WithinTransaction sample_pg fault_free) ''p'' sample_input d')
      (if t_payloadHash sample_wager = t_payloadHash sample_wager
       then Inr ((wagerResult t' False)\<lparr>wres_IdempotentReplay := True\<rparr>) else Inl ErrIdempotencyConflict, d') d'"
    by (rule repeated_request_same_answer [OF reachable_opened sample_prepared _ ex _ _ _ sample_prepared refl])
      (use processed in \<open>simp_all add: sample_facts wagerResult_def\<close>)
  then show ?thesis using ex(2) by auto
qed

section \<open>Waiting operations\<close>



section \<open>Delivery of messages\<close>

text \<open>C7: A message is processed once: when a delivery has been answered, every later delivery under the same message
  identifier, in whatever state the service is by then, changes nothing; it is answered from the stored
  operations when its body is the same, and refused as a conflict when the body differs.\<close>

theorem message_processed_once:
  assumes "reachable d" and "ProcessWager_ExecuteMessage env ctx (WithinTransaction pg run) p i m body d = (Inr result, d')"
    and "sys_step\<^sup>*\<^sup>* d' d''" and "prepare_wager env2 p2 i2 = Inr (i2', t2)" and "body2 \<noteq> []"
  shows "agrees_up_to_faults (ProcessWager_ExecuteMessage env2 None (WithinTransaction pg2 run2) p2 i2 m body2 d'')
    (if sha256_hex body2 \<noteq> sha256_hex body then Inl ErrInboxConflict
     else (case find_replay d'' t2 of
             Inl e \<Rightarrow> Inl e | Inr None \<Rightarrow> Inl ErrInboxIncomplete | Inr (Some stored) \<Rightarrow> Inr stored), d'') d''"
proof -
  have ok: "\<not> TrimSpace_is_empty m" "utf8_ValidString m"
    and ex: "execute_wager env ctx (WithinTransaction pg run) p i (Some (m, sha256_hex body)) d = (Inr result, d')"
    using assms(2) by (auto simp: ProcessWager_ExecuteMessage_def act_raise_def split: if_splits)
  obtain r where r: "r \<in> set (db_inbox d')" "inbox_key r = (WagerConsumerName, m)" "ib_payload_hash r = sha256_hex body"
      "ib_completed_at r \<noteq> None"
    using answered_message_row [OF ex reachable_inbox_keys [OF assms(1)]] by blast
  have d': "reachable d'"
    by (rule reachable.step [OF assms(1) sys_step.process_message [OF assms(2)]])
  then have "delivered d' d''" by (rule steps_delivered [OF assms(3) reachable_sound])
  then have r2: "r \<in> set (db_inbox d'')" "distinct (map inbox_key (db_inbox d''))"
    using r reachable_inbox_keys [OF d'] by (auto simp: delivered_def)
  have unit: "reference_unit pg2 (wager_work env2 i2' t2 (Some (m, sha256_hex body2))) d'' =
    (if sha256_hex body2 \<noteq> sha256_hex body then Inl ErrInboxConflict
     else (case find_replay d'' t2 of
             Inl e \<Rightarrow> Inl e | Inr None \<Rightarrow> Inl ErrInboxIncomplete | Inr (Some stored) \<Rightarrow> Inr stored), d'')"
    using completed_unit [OF r2(2) r2(1) r(4) r(2)] by (simp only: r(3))
  have run2: "ProcessWager_ExecuteMessage env2 None (WithinTransaction pg2 run2) p2 i2 m body2 d'' =
      WithinTransaction pg2 run2 (wager_work env2 i2' t2 (Some (m, sha256_hex body2))) d''"
    by (simp only: ProcessWager_ExecuteMessage_def execute_wager_def assms(4,5) ok if_False de_Morgan_disj
        not_True_eq_False not_False_eq_True option.case sum.case prod.case simp_thms)
  show ?thesis
    using wager_unit_agrees [of pg2 run2 env2 i2' t2 "Some (m, sha256_hex body2)" d''] unfolding run2 unit .
qed

theorem message_processed_once_witness:
  "\<exists>result d'. ProcessWager_ExecuteMessage (sample_env 20) None (WithinTransaction sample_pg fault_free) ''p'' sample_input
       ''m1'' ''b'' opened_db = (Inr result, d') \<and>
     agrees_up_to_faults (ProcessWager_ExecuteMessage (sample_env 20) None (WithinTransaction sample_pg fault_free) ''p''
         sample_input ''m1'' ''b'' d')
       (case find_replay d' sample_wager of
          Inl e \<Rightarrow> Inl e | Inr None \<Rightarrow> Inl ErrInboxIncomplete | Inr (Some stored) \<Rightarrow> Inr stored, d') d'"
proof -
  obtain result d' where run: "ProcessWager_ExecuteMessage (sample_env 20) None (WithinTransaction sample_pg fault_free) ''p''
      sample_input ''m1'' ''b'' opened_db = (Inr result, d')"
    by (rule message_run [of "''b''"]) simp
  from message_processed_once [OF reachable_opened run rtranclp.rtrancl_refl sample_prepared, of "''b''"] run
  show ?thesis by auto
qed

text \<open>C17: A published event is final: whatever happens afterwards its row stays as it is, and no publisher is ever
  handed that event again.\<close>

theorem published_once_recorded:
  assumes "reachable d" and "r \<in> set (db_outbox d)" and "ob_published_at r \<noteq> None" and "sys_step\<^sup>*\<^sup>* d d'"
    and "OutboxPublisher_Claim uuid_String skipped token lease d' = (Inr (Some ev), d'')"
  shows "r \<in> set (db_outbox d') \<and> pv_EventID ev \<noteq> ob_event_id r"
proof
  have s: "sound d" by (rule reachable_sound [OF assms(1)])
  show r: "r \<in> set (db_outbox d')"
    using steps_delivered [OF assms(4) s] assms(2,3) by (simp add: delivered_def)
  have events: "distinct (map ob_event_id (db_outbox d'))"
    using steps_history [OF assms(4) s] by (simp add: sound_def distinct_events_def)
  show "pv_EventID ev \<noteq> ob_event_id r"
  proof
    assume same: "pv_EventID ev = ob_event_id r"
    from assms(5) show False
    proof (rule claim_ok)
      fix c
      assume c: "c \<in> set (db_outbox d')" "claimable (db_clock d') c" "pv_EventID ev = ob_event_id c"
      have "c = r" by (rule distinct_map_inj [OF events c(1) r]) (simp only: c(3) [symmetric] same)
      then show False using c(2) assms(3) by (simp add: claimable_def)
    qed
  qed
qed

theorem published_once_recorded_witness:
  "\<exists>ev. fst (OutboxPublisher_Claim (env_uuid_String (sample_env 1)) [] 78 2000000 published_db) = Inr (Some ev) \<and>
     pv_EventID ev \<noteq> ob_event_id published_row"
proof -
  obtain ev d' where claim: "OutboxPublisher_Claim (env_uuid_String (sample_env 1)) [] 78 2000000 published_db = (Inr (Some ev), d')"
    using second_claim by (metis prod.collapse)
  have "published_row \<in> set (db_outbox published_db)" "ob_published_at published_row \<noteq> None"
    by (simp_all add: published_db_def published_row_def)
  from published_once_recorded [OF reachable_published this rtranclp.rtrancl_refl claim] claim show ?thesis by simp
qed

text \<open>C18: A lease excludes the holders before it: right after a claim, the answer of any publisher that holds
  another token for the event is refused and changes nothing, while the new holder, whose lease lasts at least a
  microsecond, can record the publication.\<close>

theorem claim_fences_old_holders:
  assumes "sound d" and "OutboxPublisher_Claim uuid_String skipped token lease d = (Inr (Some ev), d')"
    and "pv_EventID old = pv_EventID ev" and "pv_LockToken old \<noteq> token" and "0 < Microseconds lease"
  shows "OutboxPublisher_MarkPublished old d' = (Inl ErrOutboxLeaseLost, d') \<and>
    OutboxPublisher_Retry old delay d' = (Inl ErrOutboxLeaseLost, d') \<and>
    (\<exists>d''. OutboxPublisher_MarkPublished ev d' = (Inr (), d''))"
  using claim_fences [OF assms(2) _ assms(3-5)] assms(1) by (simp add: sound_def)

theorem claim_fences_old_holders_witness:
  "OutboxPublisher_MarkPublished (claimed_event\<lparr>pv_LockToken := 5\<rparr>) claimed_db = (Inl ErrOutboxLeaseLost, claimed_db)"
proof -
  have "0 < Microseconds 2000000" by code_simp
  from claim_fences_old_holders [OF reachable_sound [OF reachable_opened] first_claim _ _ this,
      of "claimed_event\<lparr>pv_LockToken := 5\<rparr>"]
  show ?thesis by simp
qed

end
